theory Spec2Isabelle
  imports Complex_Main "HOL-Library.AList" "HOL-Library.Sublist" "HOL-Library.Multiset"
    "HOL-Library.Product_Lexorder"
begin

section \<open>Python primitives used by the two ETL scripts\<close>

text \<open>
  The repository consists of two sibling scripts, \<^verbatim>\<open>etl_boulevard.py\<close> and
  \<^verbatim>\<open>etl_santa_elisa.py\<close>. Most functions are textually identical in both; where they
  differ the model takes the project as an argument and branches on it, so that every
  definition can be compared with both files.

  Strings are lists of 8-bit characters, read as the code points 0..255. Numbers read from
  a cell are exact rationals: a Python float is represented by the value it denotes, and
  \<^verbatim>\<open>round(f, 2)\<close> by rounding that value half-to-even to two decimals. A calendar date is
  the triple (year, month, day); a \<^verbatim>\<open>datetime\<close> cell is modelled by its date (time of day
  midnight).
\<close>

datatype project = Boulevard | SantaElisa

type_synonym date = "nat \<times> nat \<times> nat"

text \<open>The key \<^verbatim>\<open>"YYYY-MM"\<close> of a month column is represented by the pair (year, month);
  for four-digit years the order of the strings is the order of the pairs.\<close>

type_synonym year_month = "nat \<times> nat"

definition isspace :: "char \<Rightarrow> bool" where
  "isspace c = (let n = (of_char c :: nat)
                in (9 \<le> n \<and> n \<le> 13) \<or> (28 \<le> n \<and> n \<le> 32) \<or> n = 133 \<or> n = 160)"

definition strip :: "string \<Rightarrow> string" where
  "strip s = rev (dropWhile isspace (rev (dropWhile isspace s)))"

definition strip_chars :: "char \<Rightarrow> string \<Rightarrow> string" where
  "strip_chars ch s = rev (dropWhile (\<lambda>c. c = ch) (rev (dropWhile (\<lambda>c. c = ch) s)))"

definition lower_char :: "char \<Rightarrow> char" where
  "lower_char c = (let n = (of_char c :: nat)
                   in if (65 \<le> n \<and> n \<le> 90) \<or> (192 \<le> n \<and> n \<le> 222 \<and> n \<noteq> 215)
                      then char_of (n + 32) else c)"

definition lower :: "string \<Rightarrow> string" where
  "lower s = map lower_char s"

text \<open>\<^verbatim>\<open>re.sub(r"\s+", " ", s)\<close>: every maximal run of whitespace becomes one space.\<close>

function collapse_ws :: "string \<Rightarrow> string" where
  "collapse_ws [] = []"
| "collapse_ws (c # cs) =
     (if isspace c then CHR '' '' # collapse_ws (dropWhile isspace cs)
      else c # collapse_ws cs)"
  by pat_completeness auto
termination
  by (relation "measure length") (auto simp: length_dropWhile_le less_Suc_eq_le)

definition digit_char :: "nat \<Rightarrow> char" where
  "digit_char d = char_of (48 + d)"

function str_nat :: "nat \<Rightarrow> string" where
  "str_nat n = (if n < 10 then [digit_char n] else str_nat (n div 10) @ [digit_char (n mod 10)])"
  by pat_completeness auto
termination
  by (relation "measure id") auto

declare str_nat.simps [simp del]

definition str_int :: "int \<Rightarrow> string" where
  "str_int i = (if i < 0 then CHR ''-'' # str_nat (nat (- i)) else str_nat (nat i))"

definition zfill :: "nat \<Rightarrow> string \<Rightarrow> string" where
  "zfill w s = replicate (w - length s) CHR ''0'' @ s"

definition isoformat :: "date \<Rightarrow> string" where
  "isoformat d = (case d of (y, m, dd) \<Rightarrow>
     zfill 4 (str_nat y) @ ''-'' @ zfill 2 (str_nat m) @ ''-'' @ zfill 2 (str_nat dd))"

text \<open>\<^verbatim>\<open>int(x)\<close> on a number truncates towards zero.\<close>

definition trunc :: "rat \<Rightarrow> int" where
  "trunc r = (if 0 \<le> r then \<lfloor>r\<rfloor> else \<lceil>r\<rceil>)"

text \<open>\<^verbatim>\<open>round(f, 2)\<close>: to the nearest multiple of 0.01, ties to the even one.\<close>

definition round2 :: "rat \<Rightarrow> rat" where
  "round2 r = (let n = r * 100; f = \<lfloor>n\<rfloor>; d = n - of_int f
               in of_int (if d < 1 / 2 then f
                          else if 1 / 2 < d then f + 1
                          else if even f then f else f + 1) / 100)"

fun frac_digits :: "nat \<Rightarrow> rat \<Rightarrow> string" where
  "frac_digits 0 r = []"
| "frac_digits (Suc k) r =
     (if r = 0 then []
      else (let d = \<lfloor>r * 10\<rfloor> in digit_char (nat d) # frac_digits k (r * 10 - of_int d)))"

text \<open>\<^verbatim>\<open>str(f)\<close> of a float, for values whose decimal expansion is short (the shortest
  representation Python prints): the integral part, a point, and the fractional digits.\<close>

definition str_float :: "rat \<Rightarrow> string" where
  "str_float r = (let a = \<bar>r\<bar>; ip = \<lfloor>a\<rfloor>; fr = a - of_int ip
                  in (if r < 0 then ''-'' else '''') @ str_nat (nat ip) @ ''.'' @
                     (if fr = 0 then ''0'' else frac_digits 17 fr))"

section \<open>Cells and coercions\<close>

text \<open>The value of a spreadsheet cell as \<^verbatim>\<open>openpyxl\<close> hands it to the scripts. A
  worksheet is the function from (row, column) to that value.\<close>

datatype cell = CNone | CInt int | CFloat rat | CBool bool | CStr string | CDateTime date

type_synonym worksheet = "nat \<Rightarrow> nat \<Rightarrow> cell"

text \<open>\<^verbatim>\<open>isinstance(v, (int, float))\<close>; a Python bool is an int.\<close>

fun is_number :: "cell \<Rightarrow> bool" where
  "is_number (CInt i) = True"
| "is_number (CFloat r) = True"
| "is_number (CBool b) = True"
| "is_number v = False"

fun py_int :: "cell \<Rightarrow> int" where
  "py_int (CInt i) = i"
| "py_int (CFloat r) = trunc r"
| "py_int (CBool b) = (if b then 1 else 0)"
| "py_int v = 0"

fun py_str :: "cell \<Rightarrow> string" where
  "py_str CNone = ''None''"
| "py_str (CInt i) = str_int i"
| "py_str (CFloat r) = str_float r"
| "py_str (CBool b) = (if b then ''True'' else ''False'')"
| "py_str (CStr s) = s"
| "py_str (CDateTime d) = isoformat d @ '' 00:00:00''"

definition is_digit :: "char \<Rightarrow> bool" where
  "is_digit c = (48 \<le> (of_char c :: nat) \<and> (of_char c :: nat) \<le> 57)"

definition digits_val :: "string \<Rightarrow> nat" where
  "digits_val s = foldl (\<lambda>a c. 10 * a + ((of_char c :: nat) - 48)) 0 s"

text \<open>\<^verbatim>\<open>float(s)\<close> on text, for plain decimal literals (optional surrounding whitespace, an
  optional sign, digits with an optional point); any other text raises \<^verbatim>\<open>ValueError\<close>,
  which is \<open>None\<close>. Exponents, underscores and the spellings of infinity and NaN are
  not covered.\<close>

definition float_of_str :: "string \<Rightarrow> rat option" where
  "float_of_str s =
     (let t = strip s;
          neg = (t \<noteq> [] \<and> hd t = CHR ''-'');
          u = (if t \<noteq> [] \<and> (hd t = CHR ''-'' \<or> hd t = CHR ''+'') then tl t else t);
          ip = takeWhile is_digit u;
          rest = dropWhile is_digit u;
          fp = (if rest = [] then Some [] else if hd rest = CHR ''.'' then Some (tl rest) else None)
      in case fp of
           None \<Rightarrow> None
         | Some f \<Rightarrow>
             if \<not> list_all is_digit f \<or> (ip = [] \<and> f = []) then None
             else Some ((if neg then - 1 else 1) *
                        (of_nat (digits_val ip) + of_nat (digits_val f) / 10 ^ length f)))"

text \<open>\<^verbatim>\<open>float(v)\<close>: \<open>None\<close> stands for the \<^verbatim>\<open>ValueError\<close> or \<^verbatim>\<open>TypeError\<close> that
  the callers catch.\<close>

fun py_float :: "cell \<Rightarrow> rat option" where
  "py_float CNone = None"
| "py_float (CInt i) = Some (of_int i)"
| "py_float (CFloat r) = Some r"
| "py_float (CBool b) = Some (if b then 1 else 0)"
| "py_float (CStr s) = float_of_str s"
| "py_float (CDateTime d) = None"

definition safe_float :: "cell \<Rightarrow> rat option" where
  "safe_float val = (if val = CNone then None
                     else (case py_float val of None \<Rightarrow> None | Some f \<Rightarrow> Some (round2 f)))"

definition safe_int :: "cell \<Rightarrow> int option" where
  "safe_int val = (if val = CNone then None
                   else (case py_float val of None \<Rightarrow> None | Some f \<Rightarrow> Some (trunc f)))"

text \<open>Santa Elisa's \<^verbatim>\<open>_safe_str\<close> strips, strips tabs, and strips again.\<close>

definition safe_str :: "project \<Rightarrow> cell \<Rightarrow> string option" where
  "safe_str proj val =
     (if val = CNone then None
      else (let s = (case proj of
                       Boulevard \<Rightarrow> strip (py_str val)
                     | SantaElisa \<Rightarrow> strip (strip_chars (CHR 0x09) (strip (py_str val))))
            in if s \<noteq> [] then Some s else None))"

fun safe_date :: "cell \<Rightarrow> date option" where
  "safe_date (CDateTime d) = Some d"
| "safe_date v = None"

definition is_leap :: "nat \<Rightarrow> bool" where
  "is_leap y = (y mod 4 = 0 \<and> (y mod 100 \<noteq> 0 \<or> y mod 400 = 0))"

definition days_in_month :: "nat \<Rightarrow> nat \<Rightarrow> nat" where
  "days_in_month y m =
     (if m = 2 then (if is_leap y then 29 else 28)
      else if m = 4 \<or> m = 6 \<or> m = 9 \<or> m = 11 then 30 else 31)"

text \<open>\<^verbatim>\<open>_month_end_to_date\<close>: the day before the first of the next month. The keys it is
  applied to come from valid dates, so the month is in 1..12.\<close>

definition month_end_to_date :: "year_month \<Rightarrow> date" where
  "month_end_to_date ym = (case ym of (y, m) \<Rightarrow>
     if m = 12 then (y, 12, 31) else (y, m, days_in_month y m))"

section \<open>Header discovery\<close>

definition strftime_ym :: "date \<Rightarrow> year_month" where
  "strftime_ym d = (case d of (y, m, dd) \<Rightarrow> (y, m))"

text \<open>\<^verbatim>\<open>_normalize_header\<close>. The \<^verbatim>\<open>datetime\<close> branch renders the month key as text.\<close>

fun normalize_header :: "cell \<Rightarrow> string option" where
  "normalize_header CNone = None"
| "normalize_header (CDateTime d) =
     Some (zfill 4 (str_nat (fst d)) @ ''-'' @ zfill 2 (str_nat (fst (snd d))))"
| "normalize_header v = Some (collapse_ws (lower (strip (py_str v))))"

definition B5_HEADER_PATTERNS :: "(string \<times> string list) list" where
  "B5_HEADER_PATTERNS =
    [(''apto'', [''apto'', ''apto.'']),
     (''tipo'', [''tipo'', ''tipo.'', ''modelo'']),
     (''notas'', [''notas'']),
     (''vendedor'', [''vendedor'']),
     (''cliente'', [''cliente'']),
     (''fecha_reserva'', [''fecha reserva'', ''fecha'']),
     (''estatus'', [''estatus'', ''tipo de plan'']),
     (''precio_venta'', [''precio de venta'', ''p. venta'', ''p.venta'']),
     (''enganche'', [''enganche'']),
     (''total_enganches'', [''total enganches y reservas'']),
     (''saldo_financiar'', [''saldo a financiar por el banco'']),
     (''cuotas_pactadas'', [''cuotas pactadas'']),
     (''monto_reserva_pactado'', [''monto de reserva pactado'']),
     (''monto_cuota_pactada'', [''monto de cuota pactada'']),
     (''cuotas_pagadas'', [''cuotas pagadas'']),
     (''caso_especial'', [''caso especial / f&f'', ''caso especial'']),
     (''observaciones'', [''observaciones'']),
     (''iva'', [''iva'']),
     (''timbres'', [''timbres''])]"

definition SE_HEADER_PATTERNS :: "(string \<times> string list) list" where
  "SE_HEADER_PATTERNS =
    [(''apto'', [''apto'', ''apto.'']),
     (''tipo'', [''tipo'', ''tipo.'', ''modelo'']),
     (''vendedor'', [''vendedor'']),
     (''cliente'', [''cliente'']),
     (''fecha_reserva'', [''reservado'', ''fecha reserva'', ''fecha'']),
     (''estatus'', [''estatus'', ''tipo de plan'']),
     (''precio_venta'', [''precio de venta'', ''p. venta'', ''p.venta'']),
     (''enganche'', [''enganche'']),
     (''saldo_financiar'', [''monto a financiar por banco'', ''saldo a financiar por el banco'']),
     (''cuotas_pactadas'', [''cuotas pactadas'']),
     (''cuotas_pagadas'', [''cuotas pagadas''])]"

definition PPTO_HEADER_PATTERNS :: "project \<Rightarrow> (string \<times> string list) list" where
  "PPTO_HEADER_PATTERNS proj =
     (case proj of
        Boulevard \<Rightarrow> [(''apto'', [''apto'', ''apto.'']), (''estatus'', [''estatus''])]
      | SantaElisa \<Rightarrow> [(''apto'', [''apto'', ''apto.''])])"

definition SPANISH_MONTH_MAP :: "(string \<times> nat) list" where
  "SPANISH_MONTH_MAP =
    [(''ene'', 1), (''feb'', 2), (''mar'', 3), (''abr'', 4), (''may'', 5), (''jun'', 6),
     (''jul'', 7), (''ago'', 8), (''sep'', 9), (''sept'', 9), (''oct'', 10), (''nov'', 11),
     (''dic'', 12)]"

text \<open>\<^verbatim>\<open>_parse_spanish_month_header\<close> (Santa Elisa only). The regular expression accepts
  one of the thirteen abbreviations in any letter case, a period and exactly two digits;
  the abbreviations are the keys of the month table.\<close>

definition parse_spanish_month_header :: "string \<Rightarrow> year_month option" where
  "parse_spanish_month_header val =
     (let t = strip val;
          abbr = takeWhile (\<lambda>c. c \<noteq> CHR ''.'') t;
          rest = dropWhile (\<lambda>c. c \<noteq> CHR ''.'') t
      in if rest = [] then None
         else (let ds = tl rest
               in if length ds = 2 \<and> list_all is_digit ds
                  then (case map_of SPANISH_MONTH_MAP (lower abbr) of
                          None \<Rightarrow> None
                        | Some month_num \<Rightarrow> Some (2000 + digits_val ds, month_num))
                  else None))"

type_synonym named_cols = "(string \<times> nat) list"
type_synonym month_cols = "(year_month \<times> nat) list"

text \<open>The two loops over \<^verbatim>\<open>patterns\<close> inside \<^verbatim>\<open>discover_headers\<close>: the first looks for
  an unclaimed logical name with a pattern equal to the header, the second for one with a
  pattern longer than four characters contained in it.\<close>

fun exact_pass :: "named_cols \<Rightarrow> string \<Rightarrow> (string \<times> string list) list \<Rightarrow> string option" where
  "exact_pass named nrm [] = None"
| "exact_pass named nrm ((logical_name, pats) # rest) =
     (if map_of named logical_name \<noteq> None then exact_pass named nrm rest
      else if list_ex (\<lambda>p. p = nrm) pats then Some logical_name
      else exact_pass named nrm rest)"

fun substring_pass :: "named_cols \<Rightarrow> string \<Rightarrow> (string \<times> string list) list \<Rightarrow> string option" where
  "substring_pass named nrm [] = None"
| "substring_pass named nrm ((logical_name, pats) # rest) =
     (if map_of named logical_name \<noteq> None then substring_pass named nrm rest
      else if list_ex (\<lambda>p. 4 < length p \<and> sublist p nrm) pats then Some logical_name
      else substring_pass named nrm rest)"

definition match_header :: "named_cols \<Rightarrow> string \<Rightarrow> (string \<times> string list) list \<Rightarrow> string option" where
  "match_header named nrm patterns =
     (case exact_pass named nrm patterns of
        Some logical_name \<Rightarrow> Some logical_name
      | None \<Rightarrow> substring_pass named nrm patterns)"

text \<open>One iteration of the loop over the columns of the header row.\<close>

definition header_step ::
  "worksheet \<Rightarrow> nat \<Rightarrow> (string \<times> string list) list \<Rightarrow> bool \<Rightarrow>
   named_cols \<times> month_cols \<Rightarrow> nat \<Rightarrow> named_cols \<times> month_cols" where
  "header_step ws header_row patterns parse_spanish_months st col =
     (let raw = ws header_row col; named = fst st; months = snd st
      in if raw = CNone then st
         else (case safe_date raw of
                 Some d \<Rightarrow> (named, AList.update (strftime_ym d) col months)
               | None \<Rightarrow>
                  (case normalize_header raw of
                     None \<Rightarrow> st
                   | Some nrm \<Rightarrow>
                      (case (if parse_spanish_months
                             then parse_spanish_month_header (strip (py_str raw)) else None) of
                         Some ym \<Rightarrow> (named, AList.update ym col months)
                       | None \<Rightarrow>
                          (case match_header named nrm patterns of
                             Some logical_name \<Rightarrow> (AList.update logical_name col named, months)
                           | None \<Rightarrow> st)))))"

definition discover_headers ::
  "worksheet \<Rightarrow> nat \<Rightarrow> nat \<Rightarrow> nat \<Rightarrow> (string \<times> string list) list \<Rightarrow> bool \<Rightarrow>
   named_cols \<times> month_cols" where
  "discover_headers ws header_row col_start col_end patterns parse_spanish_months =
     foldl (header_step ws header_row patterns parse_spanish_months) ([], [])
           [col_start ..< col_end + 1]"

section \<open>Parsers\<close>

text \<open>\<^verbatim>\<open>ParsedUnit\<close>. The Santa Elisa dataclass has the fields up to
  \<open>cuotas_pagadas\<close>, the payments and the section; the others exist in Boulevard only and
  stay \<open>None\<close> for Santa Elisa.\<close>

record parsed_unit =
  apto :: string
  tipo :: "string option"
  vendedor :: "string option"
  cliente :: "string option"
  fecha_reserva :: "date option"
  estatus_raw :: "string option"
  precio_venta :: "rat option"
  enganche :: "rat option"
  saldo_financiar :: "rat option"
  cuotas_pactadas :: "int option"
  monto_reserva_pactado :: "rat option"
  monto_cuota_pactada :: "rat option"
  cuotas_pagadas :: "int option"
  caso_especial :: "string option"
  observaciones :: "string option"
  notas :: "string option"
  iva :: "rat option"
  timbres :: "rat option"
  actual_payments :: "(date \<times> rat) list"
  source_section :: string

record parsed_expected =
  e_apto :: string
  e_due_date :: date
  e_amount :: rat

text \<open>What one month cell adds to the payment list: nothing unless \<^verbatim>\<open>_safe_float\<close>
  yields a value different from zero.\<close>

definition cell_payment :: "year_month \<Rightarrow> cell \<Rightarrow> (date \<times> rat) list" where
  "cell_payment ym v =
     (case safe_float v of
        None \<Rightarrow> []
      | Some val \<Rightarrow> if val \<noteq> 0 then [(month_end_to_date ym, val)] else [])"

text \<open>The loop \<^verbatim>\<open>for ym, col in sorted(months.items())\<close> of both parsers.\<close>

definition month_payments :: "worksheet \<Rightarrow> nat \<Rightarrow> month_cols \<Rightarrow> (date \<times> rat) list" where
  "month_payments ws row months =
     concat (map (\<lambda>(ym, col). cell_payment ym (ws row col)) (sort months))"

definition unit_key :: "cell \<Rightarrow> string" where
  "unit_key apto_raw =
     (if is_number apto_raw then str_int (py_int apto_raw) else strip (py_str apto_raw))"

definition get_named :: "worksheet \<Rightarrow> nat \<Rightarrow> named_cols \<Rightarrow> string \<Rightarrow> cell" where
  "get_named ws row named name =
     (case map_of named name of
        None \<Rightarrow> CNone
      | Some col \<Rightarrow> if col \<noteq> 0 then ws row col else CNone)"

definition unit_header_patterns :: "project \<Rightarrow> (string \<times> string list) list" where
  "unit_header_patterns proj =
     (case proj of Boulevard \<Rightarrow> B5_HEADER_PATTERNS | SantaElisa \<Rightarrow> SE_HEADER_PATTERNS)"

text \<open>A field that only Boulevard's \<^verbatim>\<open>ParsedUnit\<close> has.\<close>

definition boulevard_only :: "project \<Rightarrow> 'a option \<Rightarrow> 'a option" where
  "boulevard_only proj x = (if proj = Boulevard then x else None)"

text \<open>The body of the row loop of \<^verbatim>\<open>parse_b5_section\<close> and \<^verbatim>\<open>parse_actuals_section\<close>;
  \<open>None\<close> is a row skipped by \<^verbatim>\<open>continue\<close>.\<close>

definition parse_unit_row ::
  "project \<Rightarrow> worksheet \<Rightarrow> named_cols \<Rightarrow> month_cols \<Rightarrow> string \<Rightarrow> nat \<Rightarrow> nat \<Rightarrow>
   parsed_unit option" where
  "parse_unit_row proj ws named months section_name apto_col row =
     (let apto_raw = ws row apto_col
      in if apto_raw = CNone then None
         else (let a = unit_key apto_raw
               in if a = [] then None
                  else (let g = get_named ws row named 
                        in Some \<lparr> apto = a,
                                  tipo = safe_str proj (g ''tipo''),
                                  vendedor = safe_str proj (g ''vendedor''),
                                  cliente = safe_str proj (g ''cliente''),
                                  fecha_reserva = safe_date (g ''fecha_reserva''),
                                  estatus_raw = safe_str proj (g ''estatus''),
                                  precio_venta = safe_float (g ''precio_venta''),
                                  enganche = safe_float (g ''enganche''),
                                  saldo_financiar = safe_float (g ''saldo_financiar''),
                                  cuotas_pactadas = safe_int (g ''cuotas_pactadas''),
                                  monto_reserva_pactado = boulevard_only proj (safe_float (g ''monto_reserva_pactado'')),
                                  monto_cuota_pactada = boulevard_only proj (safe_float (g ''monto_cuota_pactada'')),
                                  cuotas_pagadas = safe_int (g ''cuotas_pagadas''),
                                  caso_especial = boulevard_only proj (safe_str proj (g ''caso_especial'')),
                                  observaciones = boulevard_only proj (safe_str proj (g ''observaciones'')),
                                  notas = boulevard_only proj (safe_str proj (g ''notas'')),
                                  iva = boulevard_only proj (safe_float (g ''iva'')),
                                  timbres = boulevard_only proj (safe_float (g ''timbres'')),
                                  actual_payments = month_payments ws row months,
                                  source_section = section_name \<rparr>)))"

definition parse_unit_section ::
  "project \<Rightarrow> worksheet \<Rightarrow> nat \<Rightarrow> nat \<Rightarrow> nat \<Rightarrow> nat \<Rightarrow> nat \<Rightarrow> string \<Rightarrow> month_cols option \<Rightarrow>
   parsed_unit list" where
  "parse_unit_section proj ws header_row data_start data_end col_start col_end section_name
                      month_cols_override =
     (let hdrs = discover_headers ws header_row col_start col_end (unit_header_patterns proj) False;
          named = fst hdrs;
          months = (case month_cols_override of None \<Rightarrow> snd hdrs | Some m \<Rightarrow> m)
      in case map_of named ''apto'' of
           None \<Rightarrow> []
         | Some apto_col \<Rightarrow>
             List.map_filter (parse_unit_row proj ws named months section_name apto_col)
                             [data_start ..< data_end + 1])"

definition parse_b5_section ::
  "worksheet \<Rightarrow> nat \<Rightarrow> nat \<Rightarrow> nat \<Rightarrow> nat \<Rightarrow> nat \<Rightarrow> string \<Rightarrow> month_cols option \<Rightarrow> parsed_unit list" where
  "parse_b5_section = parse_unit_section Boulevard"

definition parse_actuals_section ::
  "worksheet \<Rightarrow> nat \<Rightarrow> nat \<Rightarrow> nat \<Rightarrow> nat \<Rightarrow> nat \<Rightarrow> string \<Rightarrow> month_cols option \<Rightarrow> parsed_unit list" where
  "parse_actuals_section = parse_unit_section SantaElisa"

text \<open>Sheet geometry of the budget sheet: header row, first and last data row, first and
  last column.\<close>

definition PPTO_HEADER_ROW :: "project \<Rightarrow> nat" where
  "PPTO_HEADER_ROW proj = (case proj of Boulevard \<Rightarrow> 1 | SantaElisa \<Rightarrow> 4)"

definition PPTO_DATA_START :: "project \<Rightarrow> nat" where
  "PPTO_DATA_START proj = (case proj of Boulevard \<Rightarrow> 2 | SantaElisa \<Rightarrow> 5)"

definition PPTO_DATA_END :: "project \<Rightarrow> nat" where
  "PPTO_DATA_END proj = (case proj of Boulevard \<Rightarrow> 299 | SantaElisa \<Rightarrow> 79)"

definition PPTO_COL_START :: "project \<Rightarrow> nat" where
  "PPTO_COL_START proj = 1"

definition PPTO_COL_END :: "project \<Rightarrow> nat" where
  "PPTO_COL_END proj = (case proj of Boulevard \<Rightarrow> 62 | SantaElisa \<Rightarrow> 38)"

text \<open>The body of the row loop of \<^verbatim>\<open>parse_ppto\<close>: the records one row contributes.\<close>

definition parse_ppto_row :: "worksheet \<Rightarrow> month_cols \<Rightarrow> nat \<Rightarrow> nat \<Rightarrow> parsed_expected list" where
  "parse_ppto_row ws months apto_col row =
     (let apto_raw = ws row apto_col
      in if apto_raw = CNone then []
         else (let a = unit_key apto_raw
               in map (\<lambda>(d, val). \<lparr> e_apto = a, e_due_date = d, e_amount = val \<rparr>)
                      (month_payments ws row months)))"

definition parse_ppto :: "project \<Rightarrow> worksheet \<Rightarrow> parsed_expected list" where
  "parse_ppto proj ws =
     (let hdrs = discover_headers ws (PPTO_HEADER_ROW proj) (PPTO_COL_START proj) (PPTO_COL_END proj)
                                (PPTO_HEADER_PATTERNS proj) (proj = SantaElisa);
          named = fst hdrs; months = snd hdrs
      in case map_of named ''apto'' of
           None \<Rightarrow> []
         | Some apto_col \<Rightarrow>
             concat (map (parse_ppto_row ws months apto_col)
                         [PPTO_DATA_START proj ..< PPTO_DATA_END proj + 1]))"

section \<open>Normalization\<close>

definition STATUS_TO_UNIT_STATUS :: "project \<Rightarrow> (string \<times> string) list" where
  "STATUS_TO_UNIT_STATUS proj =
     (case proj of
        Boulevard \<Rightarrow>
          [(''1.disponible'', ''available''), (''2.reserva'', ''reserved''),
           (''2. reserva'', ''reserved''), (''2,reserva'', ''reserved''),
           (''4.plan de pagos'', ''sold''), (''desistimiento'', ''cancelled'')]
      | SantaElisa \<Rightarrow>
          [(''1.disponible'', ''available''), (''2.reserva'', ''reserved''),
           (''2. reserva'', ''reserved''), (''2,reserva'', ''reserved''),
           (''2.reservado'', ''reserved''), (''2. reservado'', ''reserved''),
           (''4.plan de pagos'', ''sold''), (''desistimiento'', ''cancelled'')])"

definition STATUS_TO_SALE_STATUS :: "project \<Rightarrow> (string \<times> string) list" where
  "STATUS_TO_SALE_STATUS proj =
     (case proj of
        Boulevard \<Rightarrow>
          [(''2.reserva'', ''active''), (''2. reserva'', ''active''), (''2,reserva'', ''active''),
           (''4.plan de pagos'', ''active''), (''desistimiento'', ''cancelled'')]
      | SantaElisa \<Rightarrow>
          [(''2.reserva'', ''active''), (''2. reserva'', ''active''), (''2,reserva'', ''active''),
           (''2.reservado'', ''active''), (''2. reservado'', ''active''),
           (''4.plan de pagos'', ''active''), (''desistimiento'', ''cancelled'')])"

text \<open>The accented letters of the canonical names are the code points 0xED (i acute),
  0xE1 (a acute) and 0xE9 (e acute).\<close>

definition VENDEDOR_CANONICAL :: "project \<Rightarrow> (string \<times> string option) list" where
  "VENDEDOR_CANONICAL proj =
     (case proj of
        Boulevard \<Rightarrow>
          [(''ronaldo'', Some ''Ronaldo Ogaldez''),
           (''ronaldo ogaldez'', Some ''Ronaldo Ogaldez''),
           (''anahi cisneros'', Some (''Anah'' @ [CHR 0xED] @ '' Cisneros'')),
           (''anah'' @ [CHR 0xED] @ '' cisneros'', Some (''Anah'' @ [CHR 0xED] @ '' Cisneros'')),
           (''**'', None),
           (''sin datos'', None)]
      | SantaElisa \<Rightarrow>
          [(''noemi m.'', Some (''Noem'' @ [CHR 0xED] @ '' Menendez'')),
           (''noem'' @ [CHR 0xED] @ '' menendez'', Some (''Noem'' @ [CHR 0xED] @ '' Menendez'')),
           (''paula h.'', Some (''Paula Hern'' @ [CHR 0xE1] @ ''ndez'')),
           (''paula hern'' @ [CHR 0xE1] @ ''ndez'', Some (''Paula Hern'' @ [CHR 0xE1] @ ''ndez'')),
           (''paula hernandez'', Some (''Paula Hern'' @ [CHR 0xE1] @ ''ndez'')),
           (''andrea g.'', Some ''Andrea Gonzalez''),
           (''andrea gonzalez'', Some ''Andrea Gonzalez''),
           (''antonio r'', Some ''Antonio Rada''),
           (''antonio rada'', Some ''Antonio Rada''),
           (''eder v.'', Some ''Eder Veliz''),
           (''eder daniel v.'', Some ''Eder Veliz''),
           (''eder veliz'', Some ''Eder Veliz''),
           (''efren sanchez'', Some (''Efren S'' @ [CHR 0xE1] @ ''nchez'')),
           (''efren s'' @ [CHR 0xE1] @ ''nchez'', Some (''Efren S'' @ [CHR 0xE1] @ ''nchez'')),
           (''efren sanch'' @ [CHR 0xE9] @ ''z'', Some (''Efren S'' @ [CHR 0xE1] @ ''nchez'')),
           (''efr'' @ [CHR 0xE9] @ ''n sanchez'', Some (''Efren S'' @ [CHR 0xE1] @ ''nchez'')),
           (''ricardo o.'', Some ''Ricardo O.''),
           (''francisco s.'', Some ''Francisco S.''),
           (''lilian g.'', Some ''Lilian G.''),
           (''**'', None),
           (''sin datos'', None)])"

definition normalize_unit_status :: "project \<Rightarrow> string option \<Rightarrow> string" where
  "normalize_unit_status proj raw =
     (case raw of
        None \<Rightarrow> ''available''
      | Some r \<Rightarrow> (case map_of (STATUS_TO_UNIT_STATUS proj) (lower (strip r)) of
                     None \<Rightarrow> ''available'' | Some v \<Rightarrow> v))"

definition normalize_sale_status :: "project \<Rightarrow> string option \<Rightarrow> string option" where
  "normalize_sale_status proj raw =
     (case raw of
        None \<Rightarrow> None
      | Some r \<Rightarrow> map_of (STATUS_TO_SALE_STATUS proj) (lower (strip r)))"

definition normalize_vendedor :: "project \<Rightarrow> string option \<Rightarrow> string option" where
  "normalize_vendedor proj raw =
     (case raw of
        None \<Rightarrow> None
      | Some r \<Rightarrow> (case map_of (VENDEDOR_CANONICAL proj) (lower (strip r)) of
                     Some (Some canonical) \<Rightarrow> Some canonical
                   | Some None \<Rightarrow> None
                   | None \<Rightarrow> Some (strip r)))"

section \<open>Validation\<close>

text \<open>The entries of \<^verbatim>\<open>ValidationReport.errors\<close> and \<^verbatim>\<open>.warnings\<close>. The scripts format
  each as a message; the model keeps what the message is built from. Python sets are
  lists without repetition here (the order of a set is not fixed by the language, and the
  messages' sorting and truncation to ten keys are not modelled). The informational log
  line about resold units enters neither list and is left out.\<close>

datatype finding =
    DuplicateApto "string list"
  | UnknownStatus string string
  | DesistNotInMain "string list"
  | PptoOnly "string list"
  | ActualsOnly "string list"
  | SoldNoClient "string list"
  | OrphanDevol "(string \<times> string) list"

record validation_report =
  errors :: "finding list"
  warnings :: "finding list"

definition has_errors :: "validation_report \<Rightarrow> bool" where
  "has_errors report = (0 < length (errors report))"

text \<open>Truthiness of an optional string: neither \<^verbatim>\<open>None\<close> nor empty.\<close>

definition truthy :: "string option \<Rightarrow> bool" where
  "truthy x = (case x of None \<Rightarrow> False | Some s \<Rightarrow> s \<noteq> [])"

definition validate ::
  "project \<Rightarrow> parsed_unit list \<Rightarrow> parsed_unit list \<Rightarrow> parsed_unit list \<Rightarrow> parsed_expected list \<Rightarrow>
   validation_report" where
  "validate proj main_units desist_units third_units expected =
     (let main_aptos = map apto main_units;
          dupes = filter (\<lambda>a. 1 < count_list main_aptos a) (remdups main_aptos);
          desist_aptos = remdups (map apto (case proj of
                                              Boulevard \<Rightarrow> desist_units @ third_units
                                            | SantaElisa \<Rightarrow> desist_units));
          desist_only = filter (\<lambda>a. a \<notin> set main_aptos) desist_aptos;
          ppto_aptos = remdups (map e_apto expected);
          all_aptos = remdups (main_aptos @ desist_aptos);
          ppto_only = filter (\<lambda>a. a \<notin> set all_aptos) ppto_aptos;
          actuals_only = filter (\<lambda>a. a \<notin> set ppto_aptos) all_aptos;
          sold_no_client = map apto (filter (\<lambda>u. truthy (normalize_sale_status proj (estatus_raw u))
                                                  \<and> \<not> truthy (cliente u)) main_units);
          unknown = concat (map (\<lambda>u. case estatus_raw u of
                                        None \<Rightarrow> []
                                      | Some r \<Rightarrow>
                                          if r \<noteq> [] \<and> map_of (STATUS_TO_UNIT_STATUS proj) (lower (strip r)) = None
                                          then [UnknownStatus (apto u) r] else []) main_units);
          pairs = (\<lambda>us. remdups (concat (map (\<lambda>u. if truthy (cliente u)
                                                      then [(apto u, the (cliente u))] else []) us)));
          orphan_devols = filter (\<lambda>p. p \<notin> set (pairs desist_units)) (pairs third_units)
      in \<lparr> errors = (if dupes \<noteq> [] then [DuplicateApto dupes] else []) @ unknown,
           warnings = (if desist_only \<noteq> [] then [DesistNotInMain desist_only] else []) @
                      (if ppto_only \<noteq> [] then [PptoOnly ppto_only] else []) @
                      (if actuals_only \<noteq> [] then [ActualsOnly actuals_only] else []) @
                      (if sold_no_client \<noteq> [] then [SoldNoClient sold_no_client] else []) @
                      (if proj = SantaElisa \<and> orphan_devols \<noteq> [] then [OrphanDevol orphan_devols] else []) \<rparr>)"

section \<open>The destination store\<close>

text \<open>
  Modelled from the spec: the \<^verbatim>\<open>TableStore\<close> capability (the Supabase client), which is an
  external collaborator and not part of the sources. A table is the list of its rows in
  insertion order, each with the identifier the store assigned; identifiers are drawn from
  one counter. \<^verbatim>\<open>upsert(table, rows, conflictKey)\<close> handles the rows one after the other:
  a row that conflicts with a stored row replaces it and keeps its identifier, any other
  row is appended under a fresh identifier; the rows come back with their identifiers.
  \<^verbatim>\<open>insert\<close> always appends. The conflict test gets the new row first.
\<close>

type_synonym 'r table = "(nat \<times> 'r) list"

fun replace_first :: "('r \<Rightarrow> bool) \<Rightarrow> 'r \<Rightarrow> 'r table \<Rightarrow> ('r table \<times> nat) option" where
  "replace_first P r [] = None"
| "replace_first P r (x # t) =
     (if P (snd x) then Some ((fst x, r) # t, fst x)
      else (case replace_first P r t of
              None \<Rightarrow> None
            | Some res \<Rightarrow> Some (x # fst res, snd res)))"

definition upsert_one ::
  "('r \<Rightarrow> 'r \<Rightarrow> bool) \<Rightarrow> 'r \<Rightarrow> 'r table \<times> nat \<Rightarrow> ('r table \<times> nat) \<times> (nat \<times> 'r)" where
  "upsert_one conflict r st =
     (case replace_first (conflict r) r (fst st) of
        Some res \<Rightarrow> ((fst res, snd st), (snd res, r))
      | None \<Rightarrow> ((fst st @ [(snd st, r)], Suc (snd st)), (snd st, r)))"

fun upsert_many ::
  "('r \<Rightarrow> 'r \<Rightarrow> bool) \<Rightarrow> 'r list \<Rightarrow> 'r table \<times> nat \<Rightarrow> ('r table \<times> nat) \<times> (nat \<times> 'r) list" where
  "upsert_many conflict [] st = (st, [])"
| "upsert_many conflict (r # rs) st =
     (let a = upsert_one conflict r st; b = upsert_many conflict rs (fst a)
      in (fst b, snd a # snd b))"

definition insert_one :: "'r \<Rightarrow> 'r table \<times> nat \<Rightarrow> ('r table \<times> nat) \<times> (nat \<times> 'r)" where
  "insert_one r st = ((fst st @ [(snd st, r)], Suc (snd st)), (snd st, r))"

fun insert_many :: "'r list \<Rightarrow> 'r table \<times> nat \<Rightarrow> ('r table \<times> nat) \<times> (nat \<times> 'r) list" where
  "insert_many [] st = (st, [])"
| "insert_many (r # rs) st =
     (let a = insert_one r st; b = insert_many rs (fst a)
      in (fst b, snd a # snd b))"

record project_row =
  p_name :: string
  p_display_name :: string

record unit_row =
  u_project_id :: "nat option"
  u_unit_number :: string
  u_price_with_tax :: rat
  u_price_without_tax :: rat
  u_down_payment_amount :: rat
  u_status :: string

record client_row =
  c_full_name :: string

record sales_rep_row =
  r_id :: string
  r_name :: string

record sale_row =
  s_project_id :: "nat option"
  s_unit_id :: nat
  s_client_id :: nat
  s_sales_rep_id :: string
  s_sale_date :: string
  s_price_with_tax :: rat
  s_price_without_tax :: rat
  s_down_payment_amount :: rat
  s_financed_amount :: rat
  s_status :: string
  s_referral_applies :: bool
  s_caso_especial :: bool
  s_caso_especial_type :: "string option"
  s_observaciones :: "string option"
  s_notas :: "string option"

record payment_row =
  pay_sale_id :: nat
  pay_payment_date :: string
  pay_amount :: rat
  pay_payment_type :: string
  pay_notes :: string

record expected_row =
  x_project_id :: "nat option"
  x_unit_number :: string
  x_due_date :: string
  x_amount :: rat
  x_installment_number :: nat
  x_schedule_type :: string

record db =
  projects :: "project_row table"
  units :: "unit_row table"
  clients :: "client_row table"
  sales_reps :: "sales_rep_row table"
  sales :: "sale_row table"
  payments :: "payment_row table"
  expected_payments :: "expected_row table"
  next_id :: nat

definition empty_db :: db where
  "empty_db = \<lparr> projects = [], units = [], clients = [], sales_reps = [], sales = [],
                payments = [], expected_payments = [], next_id = 1 \<rparr>"

text \<open>The conflict keys the scripts pass as \<^verbatim>\<open>on_conflict\<close>: \<^verbatim>\<open>projects(name)\<close>,
  \<^verbatim>\<open>units(project_id, unit_number)\<close>, \<^verbatim>\<open>clients(full_name)\<close>, \<^verbatim>\<open>sales_reps(id)\<close>,
  \<^verbatim>\<open>sales(unit_id)\<close> under the partial unique index on active rows, and
  \<^verbatim>\<open>expected_payments(project_id, unit_number, due_date, schedule_type)\<close>.\<close>

definition projects_conflict :: "project_row \<Rightarrow> project_row \<Rightarrow> bool" where
  "projects_conflict new old = (p_name new = p_name old)"

definition units_conflict :: "unit_row \<Rightarrow> unit_row \<Rightarrow> bool" where
  "units_conflict new old =
     (u_project_id new = u_project_id old \<and> u_unit_number new = u_unit_number old)"

definition clients_conflict :: "client_row \<Rightarrow> client_row \<Rightarrow> bool" where
  "clients_conflict new old = (c_full_name new = c_full_name old)"

definition sales_reps_conflict :: "sales_rep_row \<Rightarrow> sales_rep_row \<Rightarrow> bool" where
  "sales_reps_conflict new old = (r_id new = r_id old)"

definition sales_conflict :: "sale_row \<Rightarrow> sale_row \<Rightarrow> bool" where
  "sales_conflict new old =
     (s_unit_id new = s_unit_id old \<and> s_status new = ''active'' \<and> s_status old = ''active'')"

definition expected_conflict :: "expected_row \<Rightarrow> expected_row \<Rightarrow> bool" where
  "expected_conflict new old =
     (x_project_id new = x_project_id old \<and> x_unit_number new = x_unit_number old \<and>
      x_due_date new = x_due_date old \<and> x_schedule_type new = x_schedule_type old)"

section \<open>The loader\<close>

definition PROJECT_NAME :: "project \<Rightarrow> string" where
  "PROJECT_NAME proj = (case proj of Boulevard \<Rightarrow> ''boulevard'' | SantaElisa \<Rightarrow> ''santa_elisa'')"

definition PROJECT_DISPLAY_NAME :: "project \<Rightarrow> string" where
  "PROJECT_DISPLAY_NAME proj = (case proj of Boulevard \<Rightarrow> ''Boulevard 5'' | SantaElisa \<Rightarrow> ''Santa Elisa'')"

definition BATCH_SIZE :: nat where
  "BATCH_SIZE = 500"

definition TAX_DIVISOR :: rat where
  "TAX_DIVISOR = 1093 / 1000"

function batched :: "'a list \<Rightarrow> nat \<Rightarrow> 'a list list" where
  "batched items sz =
     (if items = [] \<or> sz = 0 then [] else take sz items # batched (drop sz items) sz)"
  by pat_completeness auto
termination
  by (relation "measure (\<lambda>(items, sz). length items)") auto

declare batched.simps [simp del]

text \<open>The fields of \<^verbatim>\<open>SupabaseLoader\<close>. \<^verbatim>\<open>_sale_ids\<close> is keyed by the identity of the
  \<^verbatim>\<open>ParsedUnit\<close> object; the objects of one run are the elements of \<^verbatim>\<open>all_units\<close>, so the
  model's key is the position in that list.\<close>

record loader =
  project_id :: "nat option"
  unit_ids :: "string \<rightharpoonup> nat"
  client_ids :: "string \<rightharpoonup> nat"
  sale_ids :: "nat \<rightharpoonup> nat"

definition new_loader :: loader where
  "new_loader = \<lparr> project_id = None, unit_ids = Map.empty, client_ids = Map.empty,
                  sale_ids = Map.empty \<rparr>"

definition upsert_project :: "project \<Rightarrow> loader \<times> db \<Rightarrow> loader \<times> db" where
  "upsert_project proj st =
     (let a = upsert_one projects_conflict
                \<lparr> p_name = PROJECT_NAME proj, p_display_name = PROJECT_DISPLAY_NAME proj \<rparr>
                (projects (snd st), next_id (snd st))
      in ((fst st)\<lparr> project_id := Some (fst (snd a)) \<rparr>,
          (snd st)\<lparr> projects := fst (fst a), next_id := snd (fst a) \<rparr>))"

text \<open>\<^verbatim>\<open>x or 0\<close> on an optional number.\<close>

definition or0 :: "rat option \<Rightarrow> rat" where
  "or0 x = (case x of None \<Rightarrow> 0 | Some v \<Rightarrow> v)"

definition build_unit_row :: "project \<Rightarrow> loader \<Rightarrow> parsed_unit \<Rightarrow> unit_row" where
  "build_unit_row proj L u =
     (let precio = or0 (precio_venta u);
          tax = round2 (or0 (iva u) + or0 (timbres u))
      in \<lparr> u_project_id = project_id L,
           u_unit_number = apto u,
           u_price_with_tax = precio,
           u_price_without_tax = (case proj of
                                    Boulevard \<Rightarrow> round2 (precio - tax)
                                  | SantaElisa \<Rightarrow> round2 (precio / TAX_DIVISOR)),
           u_down_payment_amount = or0 (enganche u),
           u_status = normalize_unit_status proj (estatus_raw u) \<rparr>)"

definition upsert_units_batch :: "loader \<times> db \<Rightarrow> unit_row list \<Rightarrow> loader \<times> db" where
  "upsert_units_batch st batch =
     (let a = upsert_many units_conflict batch (units (snd st), next_id (snd st))
      in ((fst st)\<lparr> unit_ids := foldl (\<lambda>m row. m(u_unit_number (snd row) \<mapsto> fst row))
                                       (unit_ids (fst st)) (snd a) \<rparr>,
          (snd st)\<lparr> units := fst (fst a), next_id := snd (fst a) \<rparr>))"

definition upsert_units :: "project \<Rightarrow> parsed_unit list \<Rightarrow> loader \<times> db \<Rightarrow> loader \<times> db" where
  "upsert_units proj main_units st =
     foldl upsert_units_batch st
           (batched (map (build_unit_row proj (fst st)) main_units) BATCH_SIZE)"

text \<open>The names of \<^verbatim>\<open>unique_clients\<close>, in the order of their first occurrence.\<close>

definition unique_clients :: "parsed_unit list \<Rightarrow> string list" where
  "unique_clients all_units =
     foldl (\<lambda>acc u. if truthy (cliente u) \<and> the (cliente u) \<notin> set acc
                     then acc @ [the (cliente u)] else acc) [] all_units"

definition upsert_clients_batch :: "loader \<times> db \<Rightarrow> client_row list \<Rightarrow> loader \<times> db" where
  "upsert_clients_batch st batch =
     (let a = upsert_many clients_conflict batch (clients (snd st), next_id (snd st))
      in ((fst st)\<lparr> client_ids := foldl (\<lambda>m row. m(c_full_name (snd row) \<mapsto> fst row))
                                         (client_ids (fst st)) (snd a) \<rparr>,
          (snd st)\<lparr> clients := fst (fst a), next_id := snd (fst a) \<rparr>))"

definition upsert_clients :: "parsed_unit list \<Rightarrow> loader \<times> db \<Rightarrow> loader \<times> db" where
  "upsert_clients all_units st =
     foldl upsert_clients_batch st
           (batched (map (\<lambda>name. \<lparr> c_full_name = name \<rparr>) (unique_clients all_units)) BATCH_SIZE)"

text \<open>\<^verbatim>\<open>s or d\<close> on an optional string.\<close>

definition or_str :: "string option \<Rightarrow> string \<Rightarrow> string" where
  "or_str x d = (if truthy x then the x else d)"

definition rep_name_map :: "(string \<times> string) list" where
  "rep_name_map =
     [(''walk_in'', ''Puerta Abierta''), (''unknown'', ''Unknown / Directo''),
      (''05'', ''Sales Rep 05''), (''06'', ''Sales Rep 06''), (''35'', ''Sales Rep 35''),
      (''GV1'', ''Sales Rep GV1'')]"

definition unique_reps :: "parsed_unit list \<Rightarrow> (string \<times> string) list" where
  "unique_reps all_units =
     foldl (\<lambda>acc u. let rid = or_str (normalize_vendedor Boulevard (vendedor u)) ''unknown''
                     in if map_of acc rid = None
                        then acc @ [(rid, case map_of rep_name_map rid of None \<Rightarrow> rid | Some n \<Rightarrow> n)]
                        else acc) [] all_units"

text \<open>\<^verbatim>\<open>upsert_sales_reps\<close> exists in Boulevard only.\<close>

definition upsert_sales_reps :: "parsed_unit list \<Rightarrow> loader \<times> db \<Rightarrow> loader \<times> db" where
  "upsert_sales_reps all_units st =
     foldl (\<lambda>s batch. let a = upsert_many sales_reps_conflict batch (sales_reps (snd s), next_id (snd s))
                       in (fst s, (snd s)\<lparr> sales_reps := fst (fst a), next_id := snd (fst a) \<rparr>))
           st
           (batched (map (\<lambda>(rid, name). \<lparr> r_id = rid, r_name = name \<rparr>) (unique_reps all_units))
                    BATCH_SIZE)"

fun join_str :: "string \<Rightarrow> string list \<Rightarrow> string" where
  "join_str sep [] = []"
| "join_str sep [x] = x"
| "join_str sep (x # y # ys) = x @ sep @ join_str sep (y # ys)"

text \<open>The date part of \<^verbatim>\<open>_build_sale_row\<close>: the text written to \<^verbatim>\<open>sale_date\<close>, or
  \<open>None\<close> where Santa Elisa returns \<^verbatim>\<open>None\<close> for the whole row. Boulevard writes the
  reservation date or the fixed text \<^verbatim>\<open>"2023-03-01"\<close>.\<close>

definition sale_date_of :: "project \<Rightarrow> parsed_unit \<Rightarrow> string option" where
  "sale_date_of proj u =
     (case proj of
        Boulevard \<Rightarrow>
          Some (case fecha_reserva u of Some d \<Rightarrow> isoformat d | None \<Rightarrow> ''2023-03-01'')
      | SantaElisa \<Rightarrow>
          (case fecha_reserva u of
             Some d \<Rightarrow> Some (isoformat d)
           | None \<Rightarrow> if actual_payments u \<noteq> []
                     then Some (isoformat (min_list (map fst (actual_payments u))))
                     else None))"

definition notes_parts :: "project \<Rightarrow> parsed_unit \<Rightarrow> string list" where
  "notes_parts proj u =
     (if source_section u \<noteq> ''main'' then [''Source: '' @ source_section u] else []) @
     (if proj = SantaElisa \<and> fecha_reserva u = None \<and> actual_payments u \<noteq> []
      then [''sale_date derived from earliest payment''] else [])"

definition build_sale_row :: "project \<Rightarrow> loader \<Rightarrow> parsed_unit \<Rightarrow> sale_row option" where
  "build_sale_row proj L u =
     (case unit_ids L (apto u) of
        None \<Rightarrow> None
      | Some unit_id \<Rightarrow>
         (case (if truthy (cliente u) then client_ids L (the (cliente u)) else None) of
            None \<Rightarrow> None
          | Some client_id \<Rightarrow>
             (case sale_date_of proj u of
                None \<Rightarrow> None
              | Some sale_date \<Rightarrow>
                 (let financed =
                        (if or0 (saldo_financiar u) \<noteq> 0 then or0 (saldo_financiar u)
                         else if or0 (precio_venta u) \<noteq> 0
                              then round2 (or0 (precio_venta u) - or0 (enganche u)) else 0);
                      sale_status =
                        (if proj = SantaElisa \<and> source_section u = ''devolucion'' then ''cancelled''
                         else or_str (normalize_sale_status proj (estatus_raw u)) ''active'');
                      precio = or0 (precio_venta u);
                      tax = round2 (or0 (iva u) + or0 (timbres u));
                      np = join_str ''; '' (filter (\<lambda>x. x \<noteq> []) (notes_parts proj u))
                  in Some \<lparr> s_project_id = project_id L,
                            s_unit_id = unit_id,
                            s_client_id = client_id,
                            s_sales_rep_id =
                              or_str (normalize_vendedor proj (vendedor u))
                                     (case proj of Boulevard \<Rightarrow> ''unknown'' | SantaElisa \<Rightarrow> ''Unknown''),
                            s_sale_date = sale_date,
                            s_price_with_tax = precio,
                            s_price_without_tax =
                              (case proj of
                                 Boulevard \<Rightarrow> round2 (precio - tax)
                               | SantaElisa \<Rightarrow> if precio \<noteq> 0 then round2 (precio / TAX_DIVISOR) else 0),
                            s_down_payment_amount = or0 (enganche u),
                            s_financed_amount = financed,
                            s_status = sale_status,
                            s_referral_applies = False,
                            s_caso_especial = (proj = Boulevard \<and> caso_especial u \<noteq> None),
                            s_caso_especial_type = boulevard_only proj (caso_especial u),
                            s_observaciones = boulevard_only proj (observaciones u),
                            s_notas =
                              (let txt = (case proj of
                                            Boulevard \<Rightarrow>
                                              join_str ''; ''
                                                (map the (filter truthy
                                                   [notas u,
                                                    if notes_parts proj u \<noteq> []
                                                    then Some (join_str ''; '' (notes_parts proj u))
                                                    else None]))
                                          | SantaElisa \<Rightarrow> np)
                               in if txt \<noteq> [] then Some txt else None) \<rparr>))))"

text \<open>The filter \<^verbatim>\<open>sellable\<close> of \<^verbatim>\<open>insert_sales\<close>.\<close>

definition is_sellable :: "project \<Rightarrow> parsed_unit \<Rightarrow> bool" where
  "is_sellable proj u =
     (normalize_sale_status proj (estatus_raw u) \<noteq> None \<or>
      (proj = SantaElisa \<and> source_section u = ''devolucion''))"

type_synonym built_sale = "nat \<times> parsed_unit \<times> sale_row"

definition built_sales :: "project \<Rightarrow> loader \<Rightarrow> parsed_unit list \<Rightarrow> built_sale list" where
  "built_sales proj L all_units =
     List.map_filter (\<lambda>(i, u). case build_sale_row proj L u of
                                  None \<Rightarrow> None
                                | Some row \<Rightarrow> Some (i, u, row))
                     (filter (\<lambda>(i, u). is_sellable proj u) (enumerate 0 all_units))"

text \<open>One batch of the active sales: the upsert, the dictionary \<^verbatim>\<open>returned\<close> from unit
  identifier to sale identifier, and the assignment of the sale identifiers.\<close>

definition upsert_active_batch :: "loader \<times> db \<Rightarrow> built_sale list \<Rightarrow> loader \<times> db" where
  "upsert_active_batch st batch =
     (let a = upsert_many sales_conflict (map (\<lambda>(i, u, row). row) batch)
                          (sales (snd st), next_id (snd st));
          returned = foldl (\<lambda>m r. m(s_unit_id (snd r) \<mapsto> fst r)) Map.empty (snd a);
          ids = foldl (\<lambda>m (i, u, row).
                         case unit_ids (fst st) (apto u) of
                           None \<Rightarrow> m
                         | Some unit_id \<Rightarrow> (case returned unit_id of
                                              None \<Rightarrow> m
                                            | Some sid \<Rightarrow> m(i \<mapsto> sid)))
                      (sale_ids (fst st)) batch
      in ((fst st)\<lparr> sale_ids := ids \<rparr>,
          (snd st)\<lparr> sales := fst (fst a), next_id := snd (fst a) \<rparr>))"

text \<open>One cancelled sale: the query for a cancelled sale of the same unit and client (the
  first such row stands for \<^verbatim>\<open>limit(1)\<close>), then reuse or insert.\<close>

definition insert_cancelled :: "loader \<times> db \<Rightarrow> built_sale \<Rightarrow> loader \<times> db" where
  "insert_cancelled st b =
     (case b of (i, u, row) \<Rightarrow>
        (case find (\<lambda>x. s_unit_id (snd x) = s_unit_id row \<and> s_client_id (snd x) = s_client_id row \<and>
                        s_status (snd x) = ''cancelled'') (sales (snd st)) of
           Some x \<Rightarrow> ((fst st)\<lparr> sale_ids := (sale_ids (fst st))(i \<mapsto> fst x) \<rparr>, snd st)
         | None \<Rightarrow>
             (let a = insert_one row (sales (snd st), next_id (snd st))
              in ((fst st)\<lparr> sale_ids := (sale_ids (fst st))(i \<mapsto> fst (snd a)) \<rparr>,
                  (snd st)\<lparr> sales := fst (fst a), next_id := snd (fst a) \<rparr>))))"

definition insert_sales :: "project \<Rightarrow> parsed_unit list \<Rightarrow> loader \<times> db \<Rightarrow> loader \<times> db" where
  "insert_sales proj all_units st =
     (let built = built_sales proj (fst st) all_units;
          active_units = filter (\<lambda>(i, u, row). s_status row = ''active'') built;
          cancelled_units = filter (\<lambda>(i, u, row). s_status row \<noteq> ''active'') built
      in foldl insert_cancelled
               (foldl upsert_active_batch st (batched active_units BATCH_SIZE))
               cancelled_units)"

text \<open>The rows one record contributes in \<^verbatim>\<open>insert_payments\<close>. The reimbursement branch
  exists in Santa Elisa only.\<close>

definition payment_rows :: "project \<Rightarrow> nat \<Rightarrow> parsed_unit \<Rightarrow> payment_row list" where
  "payment_rows proj sale_id u =
     map (\<lambda>(idx, (pdate, amount)).
            \<lparr> pay_sale_id = sale_id,
              pay_payment_date = isoformat pdate,
              pay_amount = (if proj = SantaElisa \<and> source_section u = ''devolucion''
                            then - \<bar>amount\<bar> else amount),
              pay_payment_type = (if proj = SantaElisa \<and> source_section u = ''devolucion''
                                  then ''reimbursement''
                                  else if idx = 0 then ''reservation'' else ''down_payment''),
              pay_notes = ''ETL import from '' @ source_section u \<rparr>)
         (enumerate 0 (sort (actual_payments u)))"

definition all_payment_rows :: "project \<Rightarrow> loader \<Rightarrow> parsed_unit list \<Rightarrow> payment_row list" where
  "all_payment_rows proj L all_units =
     concat (map (\<lambda>(i, u). if actual_payments u = [] then []
                            else (case sale_ids L i of
                                    None \<Rightarrow> []
                                  | Some sale_id \<Rightarrow> payment_rows proj sale_id u))
                 (enumerate 0 all_units))"

definition insert_payments :: "project \<Rightarrow> parsed_unit list \<Rightarrow> loader \<times> db \<Rightarrow> loader \<times> db" where
  "insert_payments proj all_units st =
     foldl (\<lambda>s batch. let a = insert_many batch (payments (snd s), next_id (snd s))
                       in (fst s, (snd s)\<lparr> payments := fst (fst a), next_id := snd (fst a) \<rparr>))
           st (batched (all_payment_rows proj (fst st) all_units) BATCH_SIZE)"

text \<open>\<^verbatim>\<open>by_apto\<close>: the records grouped by unit key, groups in the order of the first
  occurrence of their key, records in their order of arrival. One step is
  \<^verbatim>\<open>by_apto.setdefault(r.apto, []).append(r)\<close>.\<close>

definition by_apto_step ::
  "(string \<times> parsed_expected list) list \<Rightarrow> parsed_expected \<Rightarrow>
   (string \<times> parsed_expected list) list" where
  "by_apto_step m r =
     (case map_of m (e_apto r) of
        None \<Rightarrow> m @ [(e_apto r, [r])]
      | Some rs \<Rightarrow> AList.update (e_apto r) (rs @ [r]) m)"

definition by_apto :: "parsed_expected list \<Rightarrow> (string \<times> parsed_expected list) list" where
  "by_apto expected = foldl by_apto_step [] expected"

definition expected_rows :: "loader \<Rightarrow> parsed_expected list \<Rightarrow> expected_row list" where
  "expected_rows L expected =
     concat (map (\<lambda>(a, records).
                    map (\<lambda>(idx, r). \<lparr> x_project_id = project_id L,
                                       x_unit_number = a,
                                       x_due_date = isoformat (e_due_date r),
                                       x_amount = e_amount r,
                                       x_installment_number = idx,
                                       x_schedule_type = ''budget'' \<rparr>)
                        (enumerate 1 (sort_key e_due_date records)))
                 (by_apto expected))"

definition upsert_expected_payments :: "parsed_expected list \<Rightarrow> loader \<times> db \<Rightarrow> loader \<times> db" where
  "upsert_expected_payments expected st =
     foldl (\<lambda>s batch. let a = upsert_many expected_conflict batch
                                           (expected_payments (snd s), next_id (snd s))
                       in (fst s, (snd s)\<lparr> expected_payments := fst (fst a), next_id := snd (fst a) \<rparr>))
           st (batched (expected_rows (fst st) expected) BATCH_SIZE)"

text \<open>The write sequence of \<^verbatim>\<open>main\<close>, from a fresh \<^verbatim>\<open>SupabaseLoader\<close>. The read-back of
  \<^verbatim>\<open>verify\<close> writes nothing and is left out.\<close>

definition load ::
  "project \<Rightarrow> parsed_unit list \<Rightarrow> parsed_unit list \<Rightarrow> parsed_unit list \<Rightarrow> parsed_expected list \<Rightarrow>
   db \<Rightarrow> loader \<times> db" where
  "load proj main_units desist_units third_units expected d =
     (let all_units = main_units @ desist_units @ third_units;
          st1 = upsert_project proj (new_loader, d);
          st2 = upsert_units proj main_units st1;
          st3 = upsert_clients all_units st2;
          st4 = (if proj = Boulevard then upsert_sales_reps all_units st3 else st3);
          st5 = insert_sales proj all_units st4;
          st6 = insert_payments proj all_units st5
      in upsert_expected_payments expected st6)"

section \<open>The entry point\<close>

record workbook =
  ws_actuals :: worksheet
  ws_budget :: worksheet

record run_args =
  file_exists :: bool
  execute :: bool
  SUPABASE_URL :: "string option"
  SUPABASE_KEY :: "string option"

text \<open>The parse phase of \<^verbatim>\<open>main\<close>: the main section, the two historical sections with
  the month columns of the main header, the status of every historical record set to
  \<^verbatim>\<open>"Desistimiento"\<close>, and the budget sheet.\<close>

definition force_desist :: "parsed_unit \<Rightarrow> parsed_unit" where
  "force_desist u = u\<lparr> estatus_raw := Some ''Desistimiento'' \<rparr>"

definition parse_workbook ::
  "project \<Rightarrow> workbook \<Rightarrow> parsed_unit list \<times> parsed_unit list \<times> parsed_unit list \<times> parsed_expected list" where
  "parse_workbook proj wb =
     (case proj of
        Boulevard \<Rightarrow>
          (let ws = ws_actuals wb;
               main_month_cols = snd (discover_headers ws 6 2 84 B5_HEADER_PATTERNS False)
           in (parse_b5_section ws 6 7 304 2 84 ''main'' None,
               map force_desist
                   (parse_b5_section ws 319 320 351 2 84 ''desistimiento'' (Some main_month_cols)),
               map force_desist
                   (parse_b5_section ws 357 358 366 2 84 ''prob_desistimiento'' (Some main_month_cols)),
               parse_ppto Boulevard (ws_budget wb)))
      | SantaElisa \<Rightarrow>
          (let ws = ws_actuals wb;
               main_month_cols = snd (discover_headers ws 4 2 62 SE_HEADER_PATTERNS False)
           in (parse_actuals_section ws 4 5 79 2 62 ''main'' None,
               map force_desist
                   (parse_actuals_section ws 4 85 100 2 62 ''desistimiento'' (Some main_month_cols)),
               map force_desist
                   (parse_actuals_section ws 4 103 106 2 62 ''devolucion'' (Some main_month_cols)),
               parse_ppto SantaElisa (ws_budget wb))))"

text \<open>\<^verbatim>\<open>main\<close>: the exit code and the store after the run.\<close>

definition main :: "project \<Rightarrow> run_args \<Rightarrow> workbook \<Rightarrow> db \<Rightarrow> int \<times> db" where
  "main proj args wb d =
     (if \<not> file_exists args then (1, d)
      else (case parse_workbook proj wb of
              (main_units, desist_units, third_units, expected) \<Rightarrow>
                if has_errors (validate proj main_units desist_units third_units expected) then (1, d)
                else if \<not> execute args then (0, d)
                else if \<not> truthy (SUPABASE_URL args) \<or> \<not> truthy (SUPABASE_KEY args) then (1, d)
                else (0, snd (load proj main_units desist_units third_units expected d))))"

section \<open>Notions used in the statements\<close>

text \<open>A header cell that cannot claim a logical name with the patterns \<open>pats\<close>: it is
  empty, or a date, or its normalized text contains none of the patterns.\<close>

definition header_inert :: "worksheet \<Rightarrow> nat \<Rightarrow> string list \<Rightarrow> nat \<Rightarrow> bool" where
  "header_inert ws header_row pats col =
     (ws header_row col = CNone \<or> safe_date (ws header_row col) \<noteq> None \<or>
      (case normalize_header (ws header_row col) of
         None \<Rightarrow> True
       | Some h \<Rightarrow> list_all (\<lambda>p. \<not> sublist p h) pats))"

text \<open>The validation report and the store written for a workbook, as \<^verbatim>\<open>main\<close> computes
  them from the parsed sections.\<close>

definition validation_of :: "project \<Rightarrow> workbook \<Rightarrow> validation_report" where
  "validation_of proj wb =
     (case parse_workbook proj wb of
        (main_units, desist_units, third_units, expected) \<Rightarrow>
          validate proj main_units desist_units third_units expected)"

definition load_workbook :: "project \<Rightarrow> workbook \<Rightarrow> db \<Rightarrow> db" where
  "load_workbook proj wb d =
     (case parse_workbook proj wb of
        (main_units, desist_units, third_units, expected) \<Rightarrow>
          snd (load proj main_units desist_units third_units expected d))"

text \<open>One execute run on parsed sections: the store it leaves.\<close>

definition run :: "project \<Rightarrow> parsed_unit list \<Rightarrow> parsed_unit list \<Rightarrow> parsed_unit list \<Rightarrow>
                   parsed_expected list \<Rightarrow> db \<Rightarrow> db" where
  "run proj main_units desist_units third_units expected d =
     snd (load proj main_units desist_units third_units expected d)"

definition count_sales :: "string \<Rightarrow> db \<Rightarrow> nat" where
  "count_sales st d = length (filter (\<lambda>x. s_status (snd x) = st) (sales d))"

text \<open>The identifiers of a table with the conflict key of each row, the identifier of
  the first row with a given key, and the effect of an upsert on these: a key that is
  present changes nothing, a new key is appended under the next identifier.\<close>

definition keys_of :: "('r \<Rightarrow> 'k) \<Rightarrow> 'r table \<Rightarrow> (nat \<times> 'k) list" where
  "keys_of key t = map (\<lambda>x. (fst x, key (snd x))) t"

definition key_id :: "(nat \<times> 'k) list \<Rightarrow> 'k \<Rightarrow> nat option" where
  "key_id sh k = map_option fst (find (\<lambda>x. snd x = k) sh)"

definition ensure :: "(nat \<times> 'k) list \<times> nat \<Rightarrow> 'k \<Rightarrow> (nat \<times> 'k) list \<times> nat" where
  "ensure s k = (if k \<in> snd ` set (fst s) then s else (fst s @ [(snd s, k)], Suc (snd s)))"

definition unit_row_key :: "unit_row \<Rightarrow> nat option \<times> string" where
  "unit_row_key r = (u_project_id r, u_unit_number r)"

text \<open>The key under which a sale is found again: the unit for an active sale (the
  partial unique index), the unit and the client for any other one (the query before the
  insert of a cancelled sale).\<close>

definition sale_key :: "sale_row \<Rightarrow> nat \<times> string \<times> nat option" where
  "sale_key r = (s_unit_id r, s_status r,
                 if s_status r = ''active'' then None else Some (s_client_id r))"

text \<open>The records whose sale resolves in a run, and the number of payment rows a run
  writes: the observed payments of these records.\<close>

definition sale_resolves :: "project \<Rightarrow> parsed_unit list \<Rightarrow> parsed_unit \<Rightarrow> bool" where
  "sale_resolves proj main_units u =
     (is_sellable proj u \<and> apto u \<in> apto ` set main_units \<and> truthy (cliente u) \<and>
      sale_date_of proj u \<noteq> None)"

definition payments_per_run :: "project \<Rightarrow> parsed_unit list \<Rightarrow> parsed_unit list \<Rightarrow> nat" where
  "payments_per_run proj main_units all_units =
     sum_list (map (\<lambda>u. length (actual_payments u))
                   (filter (sale_resolves proj main_units) all_units))"

text \<open>The loader as the sales phase of a run on the store \<open>d\<close> finds it: after the
  project, the units and the clients were upserted. And the keys of the sale rows that
  phase writes, the active ones first.\<close>

definition loader_before_sales ::
  "project \<Rightarrow> parsed_unit list \<Rightarrow> parsed_unit list \<Rightarrow> db \<Rightarrow> loader" where
  "loader_before_sales proj main_units all_units d =
     fst (upsert_clients all_units
            (upsert_units proj main_units (upsert_project proj (new_loader, d))))"

definition sale_keys_written ::
  "project \<Rightarrow> loader \<Rightarrow> parsed_unit list \<Rightarrow> (nat \<times> string \<times> nat option) list" where
  "sale_keys_written proj L all_units =
     map (\<lambda>b. sale_key (snd (snd b)))
         (filter (\<lambda>(i, u, row). s_status row = ''active'') (built_sales proj L all_units) @
          filter (\<lambda>(i, u, row). s_status row \<noteq> ''active'') (built_sales proj L all_units))"

section \<open>Concrete inputs\<close>

text \<open>A worksheet given by its non-empty cells, and a \<^verbatim>\<open>ParsedUnit\<close> with the defaults of
  the dataclass.\<close>

definition sheet_of :: "((nat \<times> nat) \<times> cell) list \<Rightarrow> worksheet" where
  "sheet_of cells r c = (case map_of cells (r, c) of None \<Rightarrow> CNone | Some v \<Rightarrow> v)"

definition default_unit :: "string \<Rightarrow> string \<Rightarrow> parsed_unit" where
  "default_unit a sec =
     \<lparr> apto = a, tipo = None, vendedor = None, cliente = None, fecha_reserva = None,
       estatus_raw = None, precio_venta = None, enganche = None, saldo_financiar = None,
       cuotas_pactadas = None, monto_reserva_pactado = None, monto_cuota_pactada = None,
       cuotas_pagadas = None, caso_especial = None, observaciones = None, notas = None,
       iva = None, timbres = None, actual_payments = [], source_section = sec \<rparr>"

text \<open>A unit key that occurs in the cancellation section only.\<close>

definition desist_only_unit :: parsed_unit where
  "desist_only_unit =
     (default_unit ''905'' ''desistimiento'')
       \<lparr> cliente := Some ''Ana Ruiz'', fecha_reserva := Some (2023, 5, 10),
         estatus_raw := Some ''Desistimiento'',
         actual_payments := [((2023, 6, 30), 1500)] \<rparr>"

text \<open>Two sold units without a reservation date, the first with a payment, the second
  without any.\<close>

definition undated_paid_unit :: parsed_unit where
  "undated_paid_unit =
     (default_unit ''101'' ''main'')
       \<lparr> cliente := Some ''Jane Doe'', estatus_raw := Some ''4.plan de pagos'',
         actual_payments := [((2024, 1, 31), 5000)] \<rparr>"

definition undated_unpaid_unit :: parsed_unit where
  "undated_unpaid_unit =
     (default_unit ''102'' ''main'')
       \<lparr> cliente := Some ''John Roe'', estatus_raw := Some ''4.plan de pagos'' \<rparr>"


text \<open>A header row with the headers of the source comment.\<close>

definition plan_type_sheet :: worksheet where
  "plan_type_sheet =
     sheet_of [((6, 2), CStr ''Apto''), ((6, 3), CStr ''Tipo de Plan''), ((6, 4), CStr ''Tipo'')]"

text \<open>Budget sheets whose unit-key cell holds blanks next to an amount.\<close>

definition blank_key_budget_b5 :: worksheet where
  "blank_key_budget_b5 =
     sheet_of [((1, 1), CStr ''Apto''), ((1, 2), CDateTime (2024, 1, 1)),
               ((2, 1), CStr ''   ''), ((2, 2), CInt 1000)]"

definition blank_key_budget_se :: worksheet where
  "blank_key_budget_se =
     sheet_of [((4, 1), CStr ''Apto''), ((4, 2), CStr ''ene.24''),
               ((5, 1), CStr ''   ''), ((5, 2), CInt 1000)]"

text \<open>The budget sheet of the scenario: unit 205 with 1000 in January and in March 2024,
  February empty.\<close>

definition budget_205_sheet :: worksheet where
  "budget_205_sheet =
     sheet_of [((1, 1), CStr ''Apto''), ((1, 2), CDateTime (2024, 1, 1)),
               ((1, 3), CDateTime (2024, 2, 1)), ((1, 4), CDateTime (2024, 3, 1)),
               ((2, 1), CInt 205), ((2, 2), CInt 1000), ((2, 4), CInt 1000)]"

text \<open>A refund record of Santa Elisa with the amount 2000 in March 2024.\<close>

definition refund_unit :: parsed_unit where
  "refund_unit =
     (default_unit ''101'' ''devolucion'')
       \<lparr> cliente := Some ''Jane Doe'', estatus_raw := Some ''Desistimiento'',
         actual_payments := [((2024, 3, 31), 2000)] \<rparr>"

text \<open>Two Santa Elisa workbooks: in the first the key 101 occurs twice in the main
  section; the second has one sold unit without a client and an empty budget sheet, which
  gives warnings only. And the arguments of an execute run with credentials.\<close>

definition dup_key_workbook :: workbook where
  "dup_key_workbook =
     \<lparr> ws_actuals = sheet_of [((4, 2), CStr ''Apto''), ((4, 3), CStr ''Estatus''),
                              ((5, 2), CInt 101), ((5, 3), CStr ''4.Plan de pagos''),
                              ((6, 2), CInt 101), ((6, 3), CStr ''1.Disponible'')],
       ws_budget = sheet_of [] \<rparr>"

definition advisory_workbook :: workbook where
  "advisory_workbook =
     \<lparr> ws_actuals = sheet_of [((4, 2), CStr ''Apto''), ((4, 3), CStr ''Estatus''),
                              ((4, 4), CStr ''Cliente''), ((4, 5), CDateTime (2024, 1, 1)),
                              ((5, 2), CInt 101), ((5, 3), CStr ''4.Plan de pagos''),
                              ((5, 5), CInt 5000)],
       ws_budget = sheet_of [] \<rparr>"

definition execute_args :: run_args where
  "execute_args = \<lparr> file_exists = True, execute = True,
                     SUPABASE_URL = Some ''https://example.supabase.co'',
                     SUPABASE_KEY = Some ''service-role-key'' \<rparr>"

text \<open>The scenario of a resold unit in Santa Elisa: the current owner of unit 101 with
  two payments, an earlier owner who cancelled, with one payment, and the refund paid to
  that earlier owner.\<close>

definition resold_main :: "parsed_unit list" where
  "resold_main =
     [(default_unit ''101'' ''main'')
        \<lparr> cliente := Some ''Jane Doe'', fecha_reserva := Some (2024, 1, 15),
          estatus_raw := Some ''4.plan de pagos'', precio_venta := Some 100000,
          actual_payments := [((2024, 1, 31), 5000), ((2024, 2, 29), 2500)] \<rparr>]"

definition resold_desist :: "parsed_unit list" where
  "resold_desist =
     [(default_unit ''101'' ''desistimiento'')
        \<lparr> cliente := Some ''Bob Poe'', fecha_reserva := Some (2023, 3, 10),
          estatus_raw := Some ''Desistimiento'',
          actual_payments := [((2023, 3, 31), 3000)] \<rparr>]"

definition resold_devol :: "parsed_unit list" where
  "resold_devol =
     [(default_unit ''101'' ''devolucion'')
        \<lparr> cliente := Some ''Bob Poe'', estatus_raw := Some ''Desistimiento'',
          actual_payments := [((2023, 5, 31), 2000)] \<rparr>]"

text \<open>A Boulevard actuals sheet with one sold unit and one payment.\<close>

definition paid_sheet :: worksheet where
  "paid_sheet =
     sheet_of [((6, 2), CStr ''Apto''), ((6, 3), CStr ''Estatus''), ((6, 4), CDateTime (2024, 1, 1)),
               ((7, 2), CFloat 101), ((7, 3), CStr ''4.Plan de pagos''), ((7, 4), CInt 5000)]"

section \<open>Properties of the parsers\<close>



lemma parse_unit_row_Some:
  "parse_unit_row proj ws named months sec c row = Some u \<Longrightarrow>
     apto u \<noteq> [] \<and> actual_payments u = month_payments ws row months \<and> source_section u = sec"
  by (auto simp: parse_unit_row_def Let_def split: if_splits)

lemma map_filter_mem: "y \<in> set (List.map_filter g xs) \<Longrightarrow> \<exists>x \<in> set xs. g x = Some y"
  by (auto simp: map_filter_def)

lemma parse_unit_section_mem:
  assumes "u \<in> set (parse_unit_section proj ws hr ds de cs ce sec ovr)"
  shows "\<exists>row c. ds \<le> row \<and> row \<le> de \<and>
           parse_unit_row proj ws (fst (discover_headers ws hr cs ce (unit_header_patterns proj) False))
              (case ovr of None \<Rightarrow> snd (discover_headers ws hr cs ce (unit_header_patterns proj) False) | Some m \<Rightarrow> m)
              sec c row = Some u"
proof (cases "map_of (fst (discover_headers ws hr cs ce (unit_header_patterns proj) False)) ''apto''")
  case None
  with assms show ?thesis by (simp add: parse_unit_section_def Let_def)
next
  case (Some c)
  with assms have "u \<in> set (List.map_filter
       (parse_unit_row proj ws (fst (discover_headers ws hr cs ce (unit_header_patterns proj) False))
          (case ovr of None \<Rightarrow> snd (discover_headers ws hr cs ce (unit_header_patterns proj) False) | Some m \<Rightarrow> m)
          sec c) [ds ..< de + 1])"
    by (simp add: parse_unit_section_def Let_def)
  from map_filter_mem[OF this] show ?thesis by auto
qed




text \<open>
  Claim C10. The budget parser has no check for an empty key: on the two budget sheets
  above, whose key cell holds three blanks next to the amount 1000, \<^verbatim>\<open>parse_ppto\<close> emits
  one record with the empty unit key (Boulevard and Santa Elisa). The unit-section parser
  never emits a record with an empty key, whatever the sheet and the section.
\<close>

theorem C10_budget_parser_emits_empty_key:
  "parse_ppto Boulevard blank_key_budget_b5 =
     [\<lparr> e_apto = [], e_due_date = (2024, 1, 31), e_amount = 1000 \<rparr>] \<and>
   parse_ppto SantaElisa blank_key_budget_se =
     [\<lparr> e_apto = [], e_due_date = (2024, 1, 31), e_amount = 1000 \<rparr>] \<and>
   (\<forall>u \<in> set (parse_unit_section proj ws hr ds de cs ce sec ovr). apto u \<noteq> [])"
proof -
  have "parse_ppto Boulevard blank_key_budget_b5 =
     [\<lparr> e_apto = [], e_due_date = (2024, 1, 31), e_amount = 1000 \<rparr>]"
    by code_simp
  moreover have "parse_ppto SantaElisa blank_key_budget_se =
     [\<lparr> e_apto = [], e_due_date = (2024, 1, 31), e_amount = 1000 \<rparr>]"
    by code_simp
  moreover have "\<forall>u \<in> set (parse_unit_section proj ws hr ds de cs ce sec ovr). apto u \<noteq> []"
    using parse_unit_section_mem parse_unit_row_Some by blast
  ultimately show ?thesis by blast
qed

text \<open>The theorem at \<open>paid_sheet\<close>, whose main section has a record.\<close>

theorem C10_budget_parser_witness:
  "parse_b5_section paid_sheet 6 7 8 2 4 ''main'' None \<noteq> [] \<and>
   apto (hd (parse_b5_section paid_sheet 6 7 8 2 4 ''main'' None)) \<noteq> []"
proof -
  have ne: "parse_b5_section paid_sheet 6 7 8 2 4 ''main'' None \<noteq> []"
    by code_simp
  then have "hd (parse_b5_section paid_sheet 6 7 8 2 4 ''main'' None)
               \<in> set (parse_unit_section Boulevard paid_sheet 6 7 8 2 4 ''main'' None)"
    by (simp add: parse_b5_section_def)
  with C10_budget_parser_emits_empty_key [of Boulevard paid_sheet 6 7 8 2 4 "''main''" None] ne
  show ?thesis by blast
qed

section \<open>Properties of header discovery\<close>

lemma exact_pass_find:
  "exact_pass named h pats =
     map_option fst (find (\<lambda>(l, ps). map_of named l = None \<and> h \<in> set ps) pats)"
  by (induction named h pats rule: exact_pass.induct) (auto simp: list_ex_iff)

lemma substring_pass_find:
  "substring_pass named h pats =
     map_option fst (find (\<lambda>(l, ps). map_of named l = None \<and> (\<exists>p \<in> set ps. 4 < length p \<and> sublist p h)) pats)"
  by (induction named h pats rule: substring_pass.induct) (auto simp: list_ex_iff)

lemma exact_pass_Some:
  "exact_pass named h pats = Some l \<Longrightarrow>
     map_of named l = None \<and> (\<exists>ps. (l, ps) \<in> set pats \<and> h \<in> set ps)"
  by (induction named h pats rule: exact_pass.induct) (fastforce simp: list_ex_iff split: if_splits)+

lemma substring_pass_Some:
  "substring_pass named h pats = Some l \<Longrightarrow>
     map_of named l = None \<and>
     (\<exists>ps p. (l, ps) \<in> set pats \<and> p \<in> set ps \<and> 4 < length p \<and> sublist p h)"
  by (induction named h pats rule: substring_pass.induct) (fastforce simp: list_ex_iff split: if_splits)+

lemma match_header_Some:
  "match_header named h pats = Some l \<Longrightarrow>
     map_of named l = None \<and> (\<exists>ps p. (l, ps) \<in> set pats \<and> p \<in> set ps \<and> sublist p h)"
  unfolding match_header_def
  by (auto split: option.splits dest!: exact_pass_Some substring_pass_Some)

lemma exact_pass_unique:
  assumes "(L, psL) \<in> set pats" "pl \<in> set psL" "map_of named L = None"
    and "\<forall>x \<in> set pats. pl \<in> set (snd x) \<longrightarrow> fst x = L"
  shows "exact_pass named pl pats = Some L"
  using assms by (induction pats) (auto simp: list_ex_iff)

lemma header_step_named:
  "fst (header_step ws hr pats psm st c) = fst st \<or>
   (\<exists>h l. normalize_header (ws hr c) = Some h \<and> ws hr c \<noteq> CNone \<and> safe_date (ws hr c) = None \<and>
          match_header (fst st) h pats = Some l \<and>
          fst (header_step ws hr pats psm st c) = AList.update l c (fst st))"
  by (cases st) (auto simp: header_step_def Let_def split: option.splits)

lemma header_step_exact:
  assumes "ws hr c \<noteq> CNone" "safe_date (ws hr c) = None" "normalize_header (ws hr c) = Some h"
    and "psm \<longrightarrow> parse_spanish_month_header (strip (py_str (ws hr c))) = None"
    and "exact_pass (fst st) h pats = Some l"
  shows "fst (header_step ws hr pats psm st c) = AList.update l c (fst st)"
  using assms by (cases st) (auto simp: header_step_def match_header_def Let_def split: option.splits)

lemma header_step_inert:
  assumes "header_inert ws hr ps c" "(l, ps) \<in> set pats" "distinct (map fst pats)"
  shows "map_of (fst (header_step ws hr pats psm st c)) l = map_of (fst st) l"
proof -
  from header_step_named[of ws hr pats psm st c]
  show ?thesis
  proof
    assume "fst (header_step ws hr pats psm st c) = fst st"
    then show ?thesis by simp
  next
    assume "\<exists>h l. normalize_header (ws hr c) = Some h \<and> ws hr c \<noteq> CNone \<and> safe_date (ws hr c) = None \<and>
          match_header (fst st) h pats = Some l \<and>
          fst (header_step ws hr pats psm st c) = AList.update l c (fst st)"
    then obtain h l' where h: "normalize_header (ws hr c) = Some h" "ws hr c \<noteq> CNone"
        "safe_date (ws hr c) = None" and m: "match_header (fst st) h pats = Some l'"
        and e: "fst (header_step ws hr pats psm st c) = AList.update l' c (fst st)" by blast
    from match_header_Some[OF m] obtain ps' p where
      p: "(l', ps') \<in> set pats" "p \<in> set ps'" "sublist p h" by blast
    from assms(1) h have "\<forall>q \<in> set ps. \<not> sublist q h"
      by (simp add: header_inert_def list_all_iff)
    with p have "ps' \<noteq> ps" by blast
    with p(1) assms(2,3) have "l' \<noteq> l"
      by (metis eq_key_imp_eq_value)
    then show ?thesis by (simp add: e update_conv')
  qed
qed

lemma find_fst_unique:
  assumes "x0 \<in> set xs" "P x0" "\<forall>x \<in> set xs. P x \<longrightarrow> fst x = fst x0"
  shows "map_option fst (find P xs) = Some (fst x0)"
proof -
  from assms(1,2) have "find P xs \<noteq> None"
    unfolding find_None_iff by blast
  then obtain y where y: "find P xs = Some y" by blast
  then have "P y" "y \<in> set xs"
    by (auto simp: find_Some_iff)
  with assms(3) have "fst y = fst x0" by blast
  with y show ?thesis by simp
qed

lemma match_header_unique:
  assumes d: "distinct (map fst pats)"
    and L: "(L, psL) \<in> set pats" "pl \<in> set psL" "4 < length pl" "sublist pl h"
    and un: "map_of named L = None"
    and uL: "\<forall>x \<in> set pats. fst x \<noteq> L \<longrightarrow>
               h \<notin> set (snd x) \<and> (\<forall>p \<in> set (snd x). 4 < length p \<longrightarrow> \<not> sublist p h)"
  shows "match_header named h pats = Some L"
proof (cases "h \<in> set psL")
  case True
  have "map_option fst (find (\<lambda>(l, ps). map_of named l = None \<and> h \<in> set ps) pats) = Some (fst (L, psL))"
    by (rule find_fst_unique[OF L(1)]) (use True un uL in auto)
  then have "exact_pass named h pats = Some L" by (simp add: exact_pass_find)
  then show ?thesis by (simp add: match_header_def)
next
  case False
  have "\<And>x. x \<in> set pats \<Longrightarrow> \<not> (case x of (l, ps) \<Rightarrow> map_of named l = None \<and> h \<in> set ps)"
  proof -
    fix x assume x: "x \<in> set pats"
    show "\<not> (case x of (l, ps) \<Rightarrow> map_of named l = None \<and> h \<in> set ps)"
    proof (cases "fst x = L")
      case True
      from True x have "(L, snd x) \<in> set pats" by (metis prod.collapse)
      from eq_key_imp_eq_value[OF d this L(1)] have "snd x = psL" .
      with False show ?thesis by (simp add: case_prod_beta)
    next
      case False
      with uL x show ?thesis by (auto split: prod.splits)
    qed
  qed
  then have e: "find (\<lambda>(l, ps). map_of named l = None \<and> h \<in> set ps) pats = None"
    unfolding find_None_iff by blast
  have "map_option fst (find (\<lambda>(l, ps). map_of named l = None \<and> (\<exists>p \<in> set ps. 4 < length p \<and> sublist p h)) pats)
          = Some (fst (L, psL))"
    by (rule find_fst_unique[OF L(1)]) (use L un uL in auto)
  with e have "exact_pass named h pats = None" "substring_pass named h pats = Some L"
    by (simp_all add: exact_pass_find substring_pass_find)
  then show ?thesis by (simp add: match_header_def)
qed

lemma header_step_text:
  assumes "ws hr c \<noteq> CNone" "safe_date (ws hr c) = None" "normalize_header (ws hr c) = Some h"
    and "psm \<longrightarrow> parse_spanish_month_header (strip (py_str (ws hr c))) = None"
    and "match_header (fst st) h pats = Some l"
  shows "fst (header_step ws hr pats psm st c) = AList.update l c (fst st)"
  using assms by (cases st) (auto simp: header_step_def Let_def split: option.splits)

lemma discover_headers_two:
  assumes d: "distinct (map fst pats)"
    and L: "(L, psL) \<in> set pats" "pl \<in> set psL" "4 < length pl" "sublist pl hL"
    and S: "(S, psS) \<in> set pats" "ps \<in> set psS"
    and LS: "L \<noteq> S" "i \<noteq> j"
    and uL: "\<forall>x \<in> set pats. fst x \<noteq> L \<longrightarrow>
               hL \<notin> set (snd x) \<and> (\<forall>p \<in> set (snd x). 4 < length p \<longrightarrow> \<not> sublist p hL)"
    and uS: "\<forall>x \<in> set pats. ps \<in> set (snd x) \<longrightarrow> fst x = S"
    and hi: "ws hr i \<noteq> CNone" "safe_date (ws hr i) = None" "normalize_header (ws hr i) = Some hL"
            "psm \<longrightarrow> parse_spanish_month_header (strip (py_str (ws hr i))) = None"
    and hj: "ws hr j \<noteq> CNone" "safe_date (ws hr j) = None" "normalize_header (ws hr j) = Some ps"
            "psm \<longrightarrow> parse_spanish_month_header (strip (py_str (ws hr j))) = None"
    and others: "\<forall>k \<in> set cols. k \<noteq> i \<and> k \<noteq> j \<longrightarrow> header_inert ws hr (psL @ psS) k"
    and dc: "distinct cols"
    and init: "map_of (fst st0) L = None" "map_of (fst st0) S = None"
  shows "map_of (fst (foldl (header_step ws hr pats psm) st0 cols)) L = (if i \<in> set cols then Some i else None)
       \<and> map_of (fst (foldl (header_step ws hr pats psm) st0 cols)) S = (if j \<in> set cols then Some j else None)"
  using others dc
proof (induction cols rule: rev_induct)
  case Nil
  then show ?case using init by simp
next
  case (snoc c cols)
  let ?st = "foldl (header_step ws hr pats psm) st0 cols"
  from snoc have IH: "map_of (fst ?st) L = (if i \<in> set cols then Some i else None)"
      "map_of (fst ?st) S = (if j \<in> set cols then Some j else None)"
    and c: "c \<notin> set cols" by auto
  consider (i) "c = i" | (j) "c = j" "c \<noteq> i" | (o) "c \<noteq> i" "c \<noteq> j" by blast
  then show ?case
  proof cases
    case i
    with c IH have un: "map_of (fst ?st) L = None" by simp
    have m: "match_header (fst ?st) hL pats = Some L"
      by (rule match_header_unique[OF d L un uL])
    have "fst (header_step ws hr pats psm ?st c) = AList.update L c (fst ?st)"
      using header_step_text[where ws=ws and hr=hr and c=i, OF hi m] i by simp
    with i IH LS c show ?thesis by (auto simp: update_conv')
  next
    case j
    with c IH have un: "map_of (fst ?st) S = None" by simp
    have "exact_pass (fst ?st) ps pats = Some S"
      by (rule exact_pass_unique[OF S un uS])
    then have m: "match_header (fst ?st) ps pats = Some S" by (simp add: match_header_def)
    have "fst (header_step ws hr pats psm ?st c) = AList.update S c (fst ?st)"
      using header_step_text[where ws=ws and hr=hr and c=j, OF hj m] j by simp
    with j IH LS c show ?thesis by (auto simp: update_conv')
  next
    case o
    with snoc.prems have inert: "header_inert ws hr (psL @ psS) c" by simp
    then have iL: "header_inert ws hr psL c" and iS: "header_inert ws hr psS c"
      by (auto simp: header_inert_def split: option.splits)
    from header_step_inert[OF iL L(1) d] header_step_inert[OF iS S(1) d] o IH
    show ?thesis by simp
  qed
qed

text \<open>
  Claim C6 (header matching precedence). For every header text and every state of the
  claimed names, the matcher returns the first unclaimed logical name one of whose
  patterns equals the header; only when there is none, the first unclaimed logical name
  one of whose patterns is longer than four characters and contained in the header.
  Hence, in a header row where column \<open>i\<close> holds a header containing the long pattern
  \<open>pl\<close> of the logical name \<open>L\<close> and column \<open>j\<close> holds the short pattern \<open>ps\<close> of
  another logical name \<open>S\<close> (no other logical name matches the first header exactly or by
  a long pattern, none but \<open>S\<close> has \<open>ps\<close>, and no other header of the row contains a
  pattern of \<open>L\<close> or \<open>S\<close>), \<open>L\<close> gets column \<open>i\<close> and \<open>S\<close> gets column \<open>j\<close>, in
  whichever order the two columns come; \<open>ps\<close> may well be contained in the long header.
\<close>

theorem C6_header_precedence:
  assumes d: "distinct (map fst pats)"
    and L: "(L, psL) \<in> set pats" "pl \<in> set psL" "4 < length pl" "sublist pl hL"
    and S: "(S, psS) \<in> set pats" "ps \<in> set psS"
    and LS: "L \<noteq> S" "i \<noteq> j"
    and uL: "\<forall>x \<in> set pats. fst x \<noteq> L \<longrightarrow>
               hL \<notin> set (snd x) \<and> (\<forall>p \<in> set (snd x). 4 < length p \<longrightarrow> \<not> sublist p hL)"
    and uS: "\<forall>x \<in> set pats. ps \<in> set (snd x) \<longrightarrow> fst x = S"
    and ij: "i \<in> set [cs ..< ce + 1]" "j \<in> set [cs ..< ce + 1]"
    and hi: "ws hr i \<noteq> CNone" "safe_date (ws hr i) = None" "normalize_header (ws hr i) = Some hL"
            "psm \<longrightarrow> parse_spanish_month_header (strip (py_str (ws hr i))) = None"
    and hj: "ws hr j \<noteq> CNone" "safe_date (ws hr j) = None" "normalize_header (ws hr j) = Some ps"
            "psm \<longrightarrow> parse_spanish_month_header (strip (py_str (ws hr j))) = None"
    and others: "\<forall>k \<in> set [cs ..< ce + 1]. k \<noteq> i \<and> k \<noteq> j \<longrightarrow> header_inert ws hr (psL @ psS) k"
  shows "map_of (fst (discover_headers ws hr cs ce pats psm)) L = Some i
       \<and> map_of (fst (discover_headers ws hr cs ce pats psm)) S = Some j
       \<and> (\<forall>named h. match_header named h pats =
             (case find (\<lambda>(l, qs). map_of named l = None \<and> h \<in> set qs) pats of
                Some x \<Rightarrow> Some (fst x)
              | None \<Rightarrow>
                 map_option fst (find (\<lambda>(l, qs). map_of named l = None \<and>
                                         (\<exists>p \<in> set qs. 4 < length p \<and> sublist p h)) pats)))"
proof -
  have "distinct [cs ..< ce + 1]" by simp
  from discover_headers_two[OF d L S LS uL uS hi hj others this, of "([], [])"] ij
  have "map_of (fst (discover_headers ws hr cs ce pats psm)) L = Some i
       \<and> map_of (fst (discover_headers ws hr cs ce pats psm)) S = Some j"
    unfolding discover_headers_def by simp
  moreover have "\<And>named h. match_header named h pats =
             (case find (\<lambda>(l, qs). map_of named l = None \<and> h \<in> set qs) pats of
                Some x \<Rightarrow> Some (fst x)
              | None \<Rightarrow>
                 map_option fst (find (\<lambda>(l, qs). map_of named l = None \<and>
                                         (\<exists>p \<in> set qs. 4 < length p \<and> sublist p h)) pats))"
    by (simp add: match_header_def exact_pass_find substring_pass_find split: option.splits)
  ultimately show ?thesis by blast
qed

text \<open>The theorem at \<open>plan_type_sheet\<close> with Boulevard's patterns: the header
  \<^verbatim>\<open>"Tipo de Plan"\<close> in column 3 goes to \<^verbatim>\<open>estatus\<close>, the header \<^verbatim>\<open>"Tipo"\<close> in column 4
  to \<^verbatim>\<open>tipo\<close>.\<close>

theorem C6_header_precedence_witness:
  "map_of (fst (discover_headers plan_type_sheet 6 2 84 B5_HEADER_PATTERNS False)) ''estatus'' = Some 3 \<and>
   map_of (fst (discover_headers plan_type_sheet 6 2 84 B5_HEADER_PATTERNS False)) ''tipo'' = Some 4"
proof -
  have d: "distinct (map fst B5_HEADER_PATTERNS)" by code_simp
  have L: "(''estatus'', [''estatus'', ''tipo de plan'']) \<in> set B5_HEADER_PATTERNS"
          "''tipo de plan'' \<in> set [''estatus'', ''tipo de plan'']"
          "4 < length ''tipo de plan''" "sublist ''tipo de plan'' ''tipo de plan''"
    by code_simp+
  have S: "(''tipo'', [''tipo'', ''tipo.'', ''modelo'']) \<in> set B5_HEADER_PATTERNS"
          "''tipo'' \<in> set [''tipo'', ''tipo.'', ''modelo'']"
    by code_simp+
  have LS: "''estatus'' \<noteq> ''tipo''" "(3::nat) \<noteq> 4" by simp_all
  have uL: "\<forall>x \<in> set B5_HEADER_PATTERNS. fst x \<noteq> ''estatus'' \<longrightarrow>
              ''tipo de plan'' \<notin> set (snd x) \<and>
              (\<forall>p \<in> set (snd x). 4 < length p \<longrightarrow> \<not> sublist p ''tipo de plan'')"
    by code_simp
  have uS: "\<forall>x \<in> set B5_HEADER_PATTERNS. ''tipo'' \<in> set (snd x) \<longrightarrow> fst x = ''tipo''"
    by code_simp
  have ij: "(3::nat) \<in> set [2 ..< 84 + 1]" "(4::nat) \<in> set [2 ..< 84 + 1]" by simp_all
  have hi: "plan_type_sheet 6 3 \<noteq> CNone" "safe_date (plan_type_sheet 6 3) = None"
           "normalize_header (plan_type_sheet 6 3) = Some ''tipo de plan''"
           "False \<longrightarrow> parse_spanish_month_header (strip (py_str (plan_type_sheet 6 3))) = None"
    by code_simp+
  have hj: "plan_type_sheet 6 4 \<noteq> CNone" "safe_date (plan_type_sheet 6 4) = None"
           "normalize_header (plan_type_sheet 6 4) = Some ''tipo''"
           "False \<longrightarrow> parse_spanish_month_header (strip (py_str (plan_type_sheet 6 4))) = None"
    by code_simp+
  have others: "\<forall>k \<in> set [2 ..< 84 + 1]. k \<noteq> 3 \<and> k \<noteq> 4 \<longrightarrow>
                  header_inert plan_type_sheet 6 ([''estatus'', ''tipo de plan''] @ [''tipo'', ''tipo.'', ''modelo'']) k"
    by code_simp
  from C6_header_precedence [OF d L S LS uL uS ij hi hj others]
  show ?thesis by blast
qed

section \<open>Properties of the store operations and of batching\<close>

lemma concat_batched: "0 < n \<Longrightarrow> concat (batched xs n) = xs"
proof (induction xs n rule: batched.induct)
  case (1 items sz)
  show ?case
  proof (cases "items = []")
    case True
    then show ?thesis by (simp add: batched.simps)
  next
    case False
    with 1 have "concat (batched (drop sz items) sz) = drop sz items" by simp
    with False 1(2) show ?thesis by (subst batched.simps) simp
  qed
qed

lemma foldl_batches:
  assumes "\<And>s. step s [] = s"
    and "\<And>s xs ys. step (step s xs) ys = step s (xs @ ys)"
  shows "foldl step s bs = step s (concat bs)"
proof (induction bs arbitrary: s)
  case Nil
  show ?case by (simp add: assms(1))
next
  case (Cons b bs)
  show ?case by (simp add: Cons.IH assms(2))
qed

lemma foldl_batched:
  assumes "\<And>s. step s [] = s"
    and "\<And>s xs ys. step (step s xs) ys = step s (xs @ ys)"
  shows "foldl step s (batched rows BATCH_SIZE) = step s rows"
proof -
  have "0 < BATCH_SIZE" by (simp add: BATCH_SIZE_def)
  then show ?thesis
    by (simp add: foldl_batches[of step, OF assms] concat_batched)
qed

lemma insert_many_append:
  "insert_many (xs @ ys) st =
     (fst (insert_many ys (fst (insert_many xs st))),
      snd (insert_many xs st) @ snd (insert_many ys (fst (insert_many xs st))))"
  by (induction xs arbitrary: st) (simp_all add: Let_def)

lemma insert_many_table:
  "fst (fst (insert_many rs st)) = fst st @ zip [snd st ..< snd st + length rs] rs \<and>
   snd (fst (insert_many rs st)) = snd st + length rs"
proof (induction rs arbitrary: st)
  case Nil
  show ?case by simp
next
  case (Cons r rs)
  have "[snd st ..< snd st + length (r # rs)] = snd st # [Suc (snd st) ..< Suc (snd st) + length rs]"
    by (simp add: upt_rec)
  then show ?case
    by (simp add: Let_def Cons.IH insert_one_def)
qed

lemma upsert_many_append:
  "upsert_many c (xs @ ys) st =
     (fst (upsert_many c ys (fst (upsert_many c xs st))),
      snd (upsert_many c xs st) @ snd (upsert_many c ys (fst (upsert_many c xs st))))"
  by (induction xs arbitrary: st) (simp_all add: Let_def)

lemma upsert_many_returns: "map snd (snd (upsert_many c rs st)) = rs"
  by (induction rs arbitrary: st) (simp_all add: Let_def upsert_one_def split: option.splits)

section \<open>Properties of the payment phase\<close>

lemma insert_payments_eq:
  "insert_payments proj all_units st =
     (fst st,
      (snd st)\<lparr> payments := payments (snd st) @
                     zip [next_id (snd st) ..<
                          next_id (snd st) + length (all_payment_rows proj (fst st) all_units)]
                         (all_payment_rows proj (fst st) all_units),
                next_id := next_id (snd st) + length (all_payment_rows proj (fst st) all_units) \<rparr>)"
proof -
  let ?step = "\<lambda>s batch. let a = insert_many batch (payments (snd s), next_id (snd s))
                 in (fst s, (snd s)\<lparr> payments := fst (fst a), next_id := snd (fst a) \<rparr>)"
  have a: "\<And>s. ?step s [] = s" by simp
  have b: "\<And>s xs ys. ?step (?step s xs) ys = ?step s (xs @ ys)"
    by (simp add: Let_def insert_many_append)
  have "insert_payments proj all_units st = ?step st (all_payment_rows proj (fst st) all_units)"
    unfolding insert_payments_def by (rule foldl_batched[of ?step, OF a b])
  then show ?thesis
    by (simp add: Let_def insert_many_table)
qed

lemma payment_rows_Nil: "actual_payments u = [] \<Longrightarrow> payment_rows proj sid u = []"
  by (simp add: payment_rows_def enumerate_eq_zip)

lemma all_payment_rows_eq:
  "all_payment_rows proj L all_units =
     concat (map (\<lambda>(i, u). case sale_ids L i of
                              None \<Rightarrow> []
                            | Some sale_id \<Rightarrow> payment_rows proj sale_id u)
                 (enumerate 0 all_units))"
proof -
  have "(\<lambda>(i, u). if actual_payments u = [] then []
                   else (case sale_ids L i of None \<Rightarrow> [] | Some sale_id \<Rightarrow> payment_rows proj sale_id u))
        = (\<lambda>(i, u). case sale_ids L i of None \<Rightarrow> [] | Some sale_id \<Rightarrow> payment_rows proj sale_id u)"
    by (auto simp: fun_eq_iff payment_rows_Nil split: option.splits)
  then show ?thesis unfolding all_payment_rows_def by simp
qed

lemma sorted_map_fst:
  fixes xs :: "('a::linorder \<times> 'b::linorder) list"
  shows "sorted xs \<Longrightarrow> sorted (map fst xs)"
  by (induction xs) (auto simp: less_eq_prod_def)

lemma enumerate_types_tail:
  "map (\<lambda>x. if fst x = 0 then a else b) (enumerate (Suc n) xs) = replicate (length xs) b"
  by (induction xs arbitrary: n) simp_all

lemma enumerate_types:
  "map (\<lambda>x. if fst x = 0 then a else b) (enumerate 0 xs) =
     (case xs of [] \<Rightarrow> [] | x # rest \<Rightarrow> a # replicate (length rest) b)"
  by (cases xs) (simp_all add: enumerate_types_tail)

lemma map_enumerate_snd: "map (\<lambda>x. f (snd x)) (enumerate n xs) = map f xs"
  by (induction xs arbitrary: n) simp_all

lemma map_if_const: "map (\<lambda>p. if c then f p else g p) xs = (if c then map f xs else map g xs)"
  by simp

text \<open>
  Claim C4 (payment classification). The rows written for a record with the resolved sale
  \<open>sale_id\<close> follow its payments sorted by date (the sorted list is a permutation of the
  observed one, its dates ascend, and the rows carry these dates in this order under that
  sale). For a record of the refund section \<^verbatim>\<open>devolucion\<close> (which exists in Santa Elisa
  only) every row has type \<^verbatim>\<open>reimbursement\<close> and the amount \<open>- \<bar>amount\<bar>\<close>, whatever the
  sign in the sheet; for any other record the first row has type \<^verbatim>\<open>reservation\<close>, every
  later one \<^verbatim>\<open>down_payment\<close>, and the amounts are unchanged. \<^verbatim>\<open>insert_payments\<close> appends
  exactly these rows, record after record, for the records whose sale resolved.
\<close>

theorem C4_payment_classification:
  "mset (sort (actual_payments u)) = mset (actual_payments u) \<and>
   sorted (map fst (sort (actual_payments u))) \<and>
   map pay_payment_date (payment_rows proj sale_id u) =
     map (\<lambda>p. isoformat (fst p)) (sort (actual_payments u)) \<and>
   map pay_sale_id (payment_rows proj sale_id u) = replicate (length (actual_payments u)) sale_id \<and>
   (if proj = SantaElisa \<and> source_section u = ''devolucion''
    then map pay_payment_type (payment_rows proj sale_id u) =
           replicate (length (actual_payments u)) ''reimbursement'' \<and>
         map pay_amount (payment_rows proj sale_id u) =
           map (\<lambda>p. - \<bar>snd p\<bar>) (sort (actual_payments u))
    else map pay_payment_type (payment_rows proj sale_id u) =
           (case sort (actual_payments u) of
              [] \<Rightarrow> []
            | p # rest \<Rightarrow> ''reservation'' # replicate (length rest) ''down_payment'') \<and>
         map pay_amount (payment_rows proj sale_id u) = map snd (sort (actual_payments u))) \<and>
   map snd (payments (snd (insert_payments proj all_units st))) =
     map snd (payments (snd st)) @
     concat (map (\<lambda>(i, r). case sale_ids (fst st) i of
                              None \<Rightarrow> []
                            | Some sid \<Rightarrow> payment_rows proj sid r)
                 (enumerate 0 all_units))"
proof -
  let ?ps = "sort (actual_payments u)"
  have 1: "mset ?ps = mset (actual_payments u)" by simp
  have 2: "sorted (map fst ?ps)" by (rule sorted_map_fst) simp
  have 3: "map pay_payment_date (payment_rows proj sale_id u) = map (\<lambda>p. isoformat (fst p)) ?ps"
    by (simp add: payment_rows_def comp_def case_prod_beta map_enumerate_snd[of "\<lambda>p. isoformat (fst p)"])
  have 4: "map pay_sale_id (payment_rows proj sale_id u) = replicate (length (actual_payments u)) sale_id"
    by (simp add: payment_rows_def comp_def case_prod_beta map_replicate_const)
  have 5: "map pay_amount (payment_rows proj sale_id u) =
             (if proj = SantaElisa \<and> source_section u = ''devolucion''
              then map (\<lambda>p. - \<bar>snd p\<bar>) ?ps else map snd ?ps)"
  proof -
    have "map pay_amount (payment_rows proj sale_id u) =
            map (\<lambda>p. if proj = SantaElisa \<and> source_section u = ''devolucion''
                      then - \<bar>snd p\<bar> else snd p) ?ps"
      by (simp add: payment_rows_def comp_def case_prod_beta
            map_enumerate_snd[of "\<lambda>p. if proj = SantaElisa \<and> source_section u = ''devolucion''
                                      then - \<bar>snd p\<bar> else snd p"])
    then show ?thesis by (simp only: map_if_const)
  qed
  have 6: "map pay_payment_type (payment_rows proj sale_id u) =
             (if proj = SantaElisa \<and> source_section u = ''devolucion''
              then replicate (length (actual_payments u)) ''reimbursement''
              else (case ?ps of [] \<Rightarrow> [] | p # rest \<Rightarrow> ''reservation'' # replicate (length rest) ''down_payment''))"
  proof -
    have "map pay_payment_type (payment_rows proj sale_id u) =
            (if proj = SantaElisa \<and> source_section u = ''devolucion''
             then map (\<lambda>x. ''reimbursement'') (enumerate 0 ?ps)
             else map (\<lambda>x. if fst x = 0 then ''reservation'' else ''down_payment'') (enumerate 0 ?ps))"
      by (simp add: payment_rows_def comp_def case_prod_beta)
    moreover have "map (\<lambda>x. ''reimbursement'') (enumerate 0 ?ps) =
                     replicate (length (actual_payments u)) ''reimbursement''"
      by (simp add: map_replicate_const)
    ultimately show ?thesis by (simp only: enumerate_types)
  qed
  have 7: "map snd (payments (snd (insert_payments proj all_units st))) =
     map snd (payments (snd st)) @
     concat (map (\<lambda>(i, r). case sale_ids (fst st) i of
                              None \<Rightarrow> []
                            | Some sid \<Rightarrow> payment_rows proj sid r)
                 (enumerate 0 all_units))"
    by (simp add: insert_payments_eq all_payment_rows_eq[symmetric])
  from 1 2 3 4 5 6 7 show ?thesis by presburger
qed

text \<open>The theorem at the refund record of the scenario: one row, dated 2024-03-31, of
  type \<^verbatim>\<open>reimbursement\<close> and amount -2000.\<close>

theorem C4_payment_classification_witness:
  "map pay_payment_type (payment_rows SantaElisa 7 refund_unit) = [''reimbursement''] \<and>
   map pay_amount (payment_rows SantaElisa 7 refund_unit) = [- 2000] \<and>
   map pay_payment_date (payment_rows SantaElisa 7 refund_unit) = [''2024-03-31'']"
proof -
  have c: "SantaElisa = SantaElisa \<and> source_section refund_unit = ''devolucion''"
    by code_simp
  have p: "sort (actual_payments refund_unit) = [((2024, 3, 31), 2000)]"
          "length (actual_payments refund_unit) = 1"
    by code_simp+
  have i: "isoformat (2024, 3, 31) = ''2024-03-31''" by code_simp
  from C4_payment_classification [of refund_unit SantaElisa 7 "[]" "(new_loader, empty_db)"] c
  show ?thesis
    unfolding p by (simp add: i)
qed

section \<open>Properties of the expected-installment phase\<close>

lemma by_apto_snoc: "by_apto (xs @ [r]) = by_apto_step (by_apto xs) r"
  by (simp add: by_apto_def)

lemma by_apto_inv:
  "distinct (map fst (by_apto xs)) \<and>
   (\<forall>a. map_of (by_apto xs) a =
          (if a \<in> e_apto ` set xs then Some (filter (\<lambda>r. e_apto r = a) xs) else None))"
proof (induction xs rule: rev_induct)
  case Nil
  show ?case by (simp add: by_apto_def)
next
  case (snoc r xs)
  let ?m = "by_apto xs"
  from snoc have d: "distinct (map fst ?m)"
    and m: "\<And>a. map_of ?m a = (if a \<in> e_apto ` set xs then Some (filter (\<lambda>r. e_apto r = a) xs) else None)"
    by auto
  show ?case
  proof (cases "map_of ?m (e_apto r)")
    case None
    then have s: "by_apto (xs @ [r]) = ?m @ [(e_apto r, [r])]"
      by (simp add: by_apto_snoc by_apto_step_def)
    from None have nk: "e_apto r \<notin> fst ` set ?m" by (simp add: map_of_eq_None_iff)
    have nx: "e_apto r \<notin> e_apto ` set xs"
      using None m[of "e_apto r"] by (simp split: if_splits)
    then have f: "filter (\<lambda>x. e_apto x = e_apto r) xs = []"
      unfolding filter_empty_conv by (metis imageI)
    have "distinct (map fst (by_apto (xs @ [r])))" using d nk by (simp add: s)
    moreover have "\<And>a. map_of (by_apto (xs @ [r])) a =
          (if a \<in> e_apto ` set (xs @ [r]) then Some (filter (\<lambda>x. e_apto x = a) (xs @ [r])) else None)"
    proof -
      fix a
      show "map_of (by_apto (xs @ [r])) a =
          (if a \<in> e_apto ` set (xs @ [r]) then Some (filter (\<lambda>x. e_apto x = a) (xs @ [r])) else None)"
      proof (cases "a = e_apto r")
        case True
        with None f show ?thesis by (simp add: s map_add_def)
      next
        case False
        then have "e_apto r \<noteq> a" by blast
        with False m[of a] show ?thesis by (simp add: s map_add_def split: option.splits)
      qed
    qed
    ultimately show ?thesis by blast
  next
    case (Some rs)
    then have s: "by_apto (xs @ [r]) = AList.update (e_apto r) (rs @ [r]) ?m"
      by (simp add: by_apto_snoc by_apto_step_def)
    have rs: "rs = filter (\<lambda>x. e_apto x = e_apto r) xs"
      and ix: "e_apto r \<in> e_apto ` set xs"
      using Some m[of "e_apto r"] by (simp_all split: if_splits)
    have "distinct (map fst (by_apto (xs @ [r])))" using d by (simp add: s distinct_update)
    moreover have "\<And>a. map_of (by_apto (xs @ [r])) a =
          (if a \<in> e_apto ` set (xs @ [r]) then Some (filter (\<lambda>x. e_apto x = a) (xs @ [r])) else None)"
    proof -
      fix a
      show "map_of (by_apto (xs @ [r])) a =
          (if a \<in> e_apto ` set (xs @ [r]) then Some (filter (\<lambda>x. e_apto x = a) (xs @ [r])) else None)"
      proof (cases "a = e_apto r")
        case True
        with rs show ?thesis by (simp add: s update_conv')
      next
        case False
        then have "e_apto r \<noteq> a" by blast
        with False m[of a] show ?thesis by (simp add: s update_conv')
      qed
    qed
    ultimately show ?thesis by blast
  qed
qed

lemma filter_concat_groups:
  assumes "distinct (map fst m)" "\<And>k v x. x \<in> set (f (k, v)) \<Longrightarrow> key x = k"
  shows "filter (\<lambda>x. key x = a) (concat (map f m)) =
           (case map_of m a of None \<Rightarrow> [] | Some v \<Rightarrow> f (a, v))"
  using assms(1)
proof (induction m)
  case Nil
  show ?case by simp
next
  case (Cons p m)
  obtain k v where p: "p = (k, v)" by (cases p)
  have all: "\<And>k v. filter (\<lambda>x. key x = a) (f (k, v)) = (if k = a then f (k, v) else [])"
    using assms(2) by (auto simp: filter_empty_conv filter_id_conv)
  show ?case
  proof (cases "k = a")
    case True
    with Cons.prems p have "map_of m a = None" by (simp add: map_of_eq_None_iff)
    with Cons True p show ?thesis by (simp add: all)
  next
    case False
    with Cons p show ?thesis by (simp add: all)
  qed
qed

lemma expected_rows_of_key:
  "filter (\<lambda>x. x_unit_number x = a) (expected_rows L expected) =
     map (\<lambda>(idx, r). \<lparr> x_project_id = project_id L, x_unit_number = a,
                         x_due_date = isoformat (e_due_date r), x_amount = e_amount r,
                         x_installment_number = idx, x_schedule_type = ''budget'' \<rparr>)
         (enumerate 1 (sort_key e_due_date (filter (\<lambda>r. e_apto r = a) expected)))"
proof -
  let ?f = "\<lambda>(k, records).
              map (\<lambda>(idx, r). \<lparr> x_project_id = project_id L, x_unit_number = k,
                                  x_due_date = isoformat (e_due_date r), x_amount = e_amount r,
                                  x_installment_number = idx, x_schedule_type = ''budget'' \<rparr>)
                  (enumerate 1 (sort_key e_due_date records))"
  from by_apto_inv[of expected] have d: "distinct (map fst (by_apto expected))"
    and m: "map_of (by_apto expected) a =
              (if a \<in> e_apto ` set expected then Some (filter (\<lambda>r. e_apto r = a) expected) else None)"
    by blast+
  have k: "\<And>k v x. x \<in> set (?f (k, v)) \<Longrightarrow> x_unit_number x = k" by auto
  have "filter (\<lambda>x. x_unit_number x = a) (expected_rows L expected) =
          (case map_of (by_apto expected) a of None \<Rightarrow> [] | Some v \<Rightarrow> ?f (a, v))"
    unfolding expected_rows_def by (rule filter_concat_groups[OF d k])
  also have "\<dots> = ?f (a, filter (\<lambda>r. e_apto r = a) expected)"
  proof (cases "a \<in> e_apto ` set expected")
    case True
    with m show ?thesis by simp
  next
    case False
    then have "filter (\<lambda>r. e_apto r = a) expected = []"
      unfolding filter_empty_conv by (metis imageI)
    with False m show ?thesis by simp
  qed
  finally show ?thesis by simp
qed

lemma upsert_expected_payments_eq:
  "expected_payments (snd (upsert_expected_payments expected st)) =
     fst (fst (upsert_many expected_conflict (expected_rows (fst st) expected)
                           (expected_payments (snd st), next_id (snd st))))"
proof -
  let ?step = "\<lambda>s batch. let a = upsert_many expected_conflict batch
                                           (expected_payments (snd s), next_id (snd s))
                 in (fst s, (snd s)\<lparr> expected_payments := fst (fst a), next_id := snd (fst a) \<rparr>)"
  have a: "\<And>s. ?step s [] = s" by simp
  have b: "\<And>s xs ys. ?step (?step s xs) ys = ?step s (xs @ ys)"
    by (simp add: Let_def upsert_many_append)
  have "upsert_expected_payments expected st = ?step st (expected_rows (fst st) expected)"
    unfolding upsert_expected_payments_def by (rule foldl_batched[of ?step, OF a b])
  then show ?thesis by (simp add: Let_def)
qed

text \<open>
  Claim C8 (expected installments). The rows built for a unit key \<open>a\<close> are the budget
  records of that key sorted by due date (a stable sort, so a permutation with ascending
  dates), numbered 1, 2, ... in that order, with their dates and amounts; the rows go to
  the store through one upsert whose conflict test compares project, unit number, due
  date and schedule type. In the scenario sheet (unit 205, 1000 in January and March 2024,
  February empty) the parser yields no record for February, and the two rows get the
  numbers 1 and 2.
\<close>

theorem C8_expected_installments:
  "map x_installment_number (filter (\<lambda>x. x_unit_number x = a) (expected_rows L expected)) =
     [1 ..< Suc (length (filter (\<lambda>r. e_apto r = a) expected))] \<and>
   map x_due_date (filter (\<lambda>x. x_unit_number x = a) (expected_rows L expected)) =
     map (\<lambda>r. isoformat (e_due_date r)) (sort_key e_due_date (filter (\<lambda>r. e_apto r = a) expected)) \<and>
   map x_amount (filter (\<lambda>x. x_unit_number x = a) (expected_rows L expected)) =
     map e_amount (sort_key e_due_date (filter (\<lambda>r. e_apto r = a) expected)) \<and>
   sorted (map e_due_date (sort_key e_due_date (filter (\<lambda>r. e_apto r = a) expected))) \<and>
   mset (sort_key e_due_date (filter (\<lambda>r. e_apto r = a) expected)) =
     mset (filter (\<lambda>r. e_apto r = a) expected) \<and>
   expected_payments (snd (upsert_expected_payments expected st)) =
     fst (fst (upsert_many expected_conflict (expected_rows (fst st) expected)
                           (expected_payments (snd st), next_id (snd st)))) \<and>
   expected_conflict new old =
     ((x_project_id new, x_unit_number new, x_due_date new, x_schedule_type new) =
      (x_project_id old, x_unit_number old, x_due_date old, x_schedule_type old)) \<and>
   map (\<lambda>x. (x_unit_number x, x_due_date x, x_amount x, x_installment_number x, x_schedule_type x))
       (expected_rows new_loader (parse_ppto Boulevard budget_205_sheet)) =
     [(''205'', ''2024-01-31'', 1000, 1, ''budget''), (''205'', ''2024-03-31'', 1000, 2, ''budget'')]"
proof -
  let ?recs = "sort_key e_due_date (filter (\<lambda>r. e_apto r = a) expected)"
  note e = expected_rows_of_key[of a L expected]
  have 1: "map x_installment_number (filter (\<lambda>x. x_unit_number x = a) (expected_rows L expected)) =
             [1 ..< Suc (length (filter (\<lambda>r. e_apto r = a) expected))]"
    by (simp add: e comp_def case_prod_beta map_fst_enumerate[unfolded comp_def, symmetric] del: upt_Suc)
  have 2: "map x_due_date (filter (\<lambda>x. x_unit_number x = a) (expected_rows L expected)) =
             map (\<lambda>r. isoformat (e_due_date r)) ?recs"
    by (simp add: e comp_def case_prod_beta map_enumerate_snd[of "\<lambda>r. isoformat (e_due_date r)"])
  have 3: "map x_amount (filter (\<lambda>x. x_unit_number x = a) (expected_rows L expected)) =
             map e_amount ?recs"
    by (simp add: e comp_def case_prod_beta map_enumerate_snd[of e_amount])
  have 4: "sorted (map e_due_date ?recs)" by simp
  have 5: "mset ?recs = mset (filter (\<lambda>r. e_apto r = a) expected)" by simp
  note 6 = upsert_expected_payments_eq[of expected st]
  have 7: "expected_conflict new old =
     ((x_project_id new, x_unit_number new, x_due_date new, x_schedule_type new) =
      (x_project_id old, x_unit_number old, x_due_date old, x_schedule_type old))"
    by (auto simp: expected_conflict_def)
  have 8: "map (\<lambda>x. (x_unit_number x, x_due_date x, x_amount x, x_installment_number x, x_schedule_type x))
       (expected_rows new_loader (parse_ppto Boulevard budget_205_sheet)) =
     [(''205'', ''2024-01-31'', 1000, 1, ''budget''), (''205'', ''2024-03-31'', 1000, 2, ''budget'')]"
    by code_simp
  from 1 2 3 4 5 6 7 8 show ?thesis by blast
qed

section \<open>Properties of validation and of the entry point\<close>

lemma count_list_gt1_iff: "(\<exists>a \<in> set xs. 1 < count_list xs a) \<longleftrightarrow> \<not> distinct xs"
proof (induction xs)
  case Nil
  show ?case by simp
next
  case (Cons x xs)
  have "x \<in> set xs \<longleftrightarrow> 0 < count_list xs x"
    using count_list_0_iff[of xs x] by auto
  with Cons show ?case by auto
qed

lemma has_errors_validate:
  "has_errors (validate proj main_units desist_units third_units expected) \<longleftrightarrow>
     \<not> distinct (map apto main_units) \<or>
     (\<exists>u \<in> set main_units. \<exists>r. estatus_raw u = Some r \<and> r \<noteq> [] \<and>
          map_of (STATUS_TO_UNIT_STATUS proj) (lower (strip r)) = None)"
proof -
  let ?aptos = "map apto main_units"
  have d: "filter (\<lambda>a. 1 < count_list ?aptos a) (remdups ?aptos) \<noteq> [] \<longleftrightarrow> \<not> distinct ?aptos"
    unfolding count_list_gt1_iff[symmetric] by (auto simp: filter_empty_conv)
  let ?f = "\<lambda>u. case estatus_raw u of
                  None \<Rightarrow> []
                | Some r \<Rightarrow>
                    if r \<noteq> [] \<and> map_of (STATUS_TO_UNIT_STATUS proj) (lower (strip r)) = None
                    then [UnknownStatus (apto u) r] else []"
  have f: "\<And>u. ?f u \<noteq> [] \<longleftrightarrow>
             (\<exists>r. estatus_raw u = Some r \<and> r \<noteq> [] \<and>
                  map_of (STATUS_TO_UNIT_STATUS proj) (lower (strip r)) = None)"
    by (simp split: option.splits)
  have "concat (map ?f main_units) \<noteq> [] \<longleftrightarrow> (\<exists>u \<in> set main_units. ?f u \<noteq> [])"
    by simp
  then have u: "concat (map ?f main_units) \<noteq> [] \<longleftrightarrow>
           (\<exists>u \<in> set main_units. \<exists>r. estatus_raw u = Some r \<and> r \<noteq> [] \<and>
               map_of (STATUS_TO_UNIT_STATUS proj) (lower (strip r)) = None)"
    unfolding f .
  show ?thesis
    unfolding has_errors_def validate_def Let_def
    using d u by (simp del: count_list.simps)
qed

text \<open>
  Claim C7 (validation gating). The validator reports a fatal finding exactly when a unit
  key occurs twice in the main section or a main record has a non-empty status text that
  is not in the status table. With a fatal finding \<^verbatim>\<open>main\<close> returns the exit code 1 and
  the store is the one it started from; without one, an execute run with credentials
  returns 0 and leaves the store written by the load, whatever the warnings are.
\<close>

theorem C7_validation_gating:
  assumes "file_exists args"
  shows "(has_errors (validation_of proj wb) \<longleftrightarrow>
            \<not> distinct (map apto (fst (parse_workbook proj wb))) \<or>
            (\<exists>u \<in> set (fst (parse_workbook proj wb)). \<exists>r. estatus_raw u = Some r \<and> r \<noteq> [] \<and>
                 map_of (STATUS_TO_UNIT_STATUS proj) (lower (strip r)) = None)) \<and>
         (has_errors (validation_of proj wb) \<longrightarrow> main proj args wb d = (1, d)) \<and>
         (\<not> has_errors (validation_of proj wb) \<and> execute args \<and>
            truthy (SUPABASE_URL args) \<and> truthy (SUPABASE_KEY args) \<longrightarrow>
          main proj args wb d = (0, load_workbook proj wb d))"
proof -
  obtain m ds t e where p: "parse_workbook proj wb = (m, ds, t, e)"
    by (cases "parse_workbook proj wb") auto
  have v: "validation_of proj wb = validate proj m ds t e"
    by (simp add: validation_of_def p)
  show ?thesis
    using assms has_errors_validate[of proj m ds t e]
    by (simp add: v main_def load_workbook_def p)
qed

text \<open>The theorem at the two workbooks above: the duplicate key stops the run with exit
  code 1 and an untouched store; the workbook with warnings only is loaded (the project
  row is written) with exit code 0.\<close>

theorem C7_validation_gating_witness:
  "main SantaElisa execute_args dup_key_workbook empty_db = (1, empty_db) \<and>
   warnings (validation_of SantaElisa advisory_workbook) \<noteq> [] \<and>
   main SantaElisa execute_args advisory_workbook empty_db =
     (0, load_workbook SantaElisa advisory_workbook empty_db) \<and>
   projects (load_workbook SantaElisa advisory_workbook empty_db) \<noteq> []"
proof -
  have a: "file_exists execute_args" by (simp add: execute_args_def)
  have x: "execute execute_args \<and> truthy (SUPABASE_URL execute_args) \<and> truthy (SUPABASE_KEY execute_args)"
    by (simp add: execute_args_def truthy_def)
  have e1: "has_errors (validation_of SantaElisa dup_key_workbook)" by code_simp
  have e2: "\<not> has_errors (validation_of SantaElisa advisory_workbook)" by code_simp
  have w: "warnings (validation_of SantaElisa advisory_workbook) \<noteq> []" by code_simp
  have l: "projects (load_workbook SantaElisa advisory_workbook empty_db) \<noteq> []" by code_simp
  from C7_validation_gating [OF a, of SantaElisa dup_key_workbook empty_db] e1
  have 1: "main SantaElisa execute_args dup_key_workbook empty_db = (1, empty_db)" by blast
  from C7_validation_gating [OF a, of SantaElisa advisory_workbook empty_db] e2 x
  have 2: "main SantaElisa execute_args advisory_workbook empty_db =
             (0, load_workbook SantaElisa advisory_workbook empty_db)" by blast
  from 1 w 2 l show ?thesis by blast
qed

section \<open>The load at concrete records\<close>

text \<open>
  Claim C2 (a unit key of a cancellation section that is absent from the main section gets
  a synthesized unit, so that its sale can be created). At the record
  \<open>desist_only_unit\<close> (key 905, with client, reservation date and a payment) and an
  empty main section the validator announces the unit in its warning, and the record has
  the sale status \<^verbatim>\<open>cancelled\<close>, yet the load writes no unit, no sale and no payment in either project: units
  are upserted from the main section only, and the sale is skipped for want of a unit
  identifier.
\<close>

theorem C2_desist_only_unit_not_created:
  "normalize_sale_status Boulevard (estatus_raw desist_only_unit) = Some ''cancelled'' \<and>
   normalize_sale_status SantaElisa (estatus_raw desist_only_unit) = Some ''cancelled'' \<and>
   DesistNotInMain [''905''] \<in> set (warnings (validate Boulevard [] [desist_only_unit] [] [])) \<and>
   DesistNotInMain [''905''] \<in> set (warnings (validate SantaElisa [] [desist_only_unit] [] [])) \<and>
   units (run Boulevard [] [desist_only_unit] [] [] empty_db) = [] \<and>
   sales (run Boulevard [] [desist_only_unit] [] [] empty_db) = [] \<and>
   payments (run Boulevard [] [desist_only_unit] [] [] empty_db) = [] \<and>
   units (run SantaElisa [] [desist_only_unit] [] [] empty_db) = [] \<and>
   sales (run SantaElisa [] [desist_only_unit] [] [] empty_db) = [] \<and>
   payments (run SantaElisa [] [desist_only_unit] [] [] empty_db) = []"
  by code_simp

text \<open>Santa Elisa's date derivation: the reservation date when there is one, else the
  earliest payment date, else no row at all.\<close>

lemma santa_elisa_sale_date:
  "sale_date_of SantaElisa u =
     (case fecha_reserva u of
        Some d \<Rightarrow> Some (isoformat d)
      | None \<Rightarrow> if actual_payments u = [] then None
                else Some (isoformat (Min (fst ` set (actual_payments u)))))"
  by (simp add: sale_date_of_def min_list_Min split: option.splits)

lemma santa_elisa_undated_dropped:
  "fecha_reserva u = None \<Longrightarrow> actual_payments u = [] \<Longrightarrow> build_sale_row SantaElisa L u = None"
  by (simp add: build_sale_row_def sale_date_of_def split: option.splits)

text \<open>
  Claim C3 (sale-date derivation). Boulevard does not follow it: for the two sold records
  without a reservation date, the first with a payment on 2024-01-31 and the second
  without any payment, it writes two sales dated \<^verbatim>\<open>2023-03-01\<close>. Santa Elisa, on the
  same records, dates the first sale 2024-01-31 and writes no sale for the second.
\<close>

theorem C3_boulevard_substitute_sale_date:
  "fecha_reserva undated_paid_unit = None \<and> fecha_reserva undated_unpaid_unit = None \<and>
   map (s_sale_date \<circ> snd)
       (sales (run Boulevard [undated_paid_unit, undated_unpaid_unit] [] [] [] empty_db)) =
     [''2023-03-01'', ''2023-03-01''] \<and>
   map (s_sale_date \<circ> snd)
       (sales (run SantaElisa [undated_paid_unit, undated_unpaid_unit] [] [] [] empty_db)) =
     [''2024-01-31'']"
  by code_simp

section \<open>Upserts seen through the conflict keys\<close>

lemma key_id_append:
  "key_id (sh @ sh') k = (case key_id sh k of Some i \<Rightarrow> Some i | None \<Rightarrow> key_id sh' k)"
  by (induction sh) (auto simp: key_id_def)

lemma key_id_None_iff: "key_id sh k = None \<longleftrightarrow> k \<notin> snd ` set sh"
  by (force simp: key_id_def find_None_iff)

lemma replace_first_None:
  "replace_first P r t = None \<longleftrightarrow> (\<forall>x \<in> set t. \<not> P (snd x))"
  by (induction t) (auto split: option.splits)

lemma replace_first_Some:
  assumes "replace_first P r t = Some res" "\<And>old. P old \<longleftrightarrow> key old = key r"
  shows "keys_of key (fst res) = keys_of key t \<and> key_id (keys_of key t) (key r) = Some (snd res)"
  using assms(1)
proof (induction t arbitrary: res)
  case Nil
  then show ?case by simp
next
  case (Cons x t)
  show ?case
  proof (cases "P (snd x)")
    case True
    with Cons.prems have "res = ((fst x, r) # t, fst x)" by simp
    with True assms(2) show ?thesis by (simp add: keys_of_def key_id_def)
  next
    case False
    with Cons.prems obtain res' where r': "replace_first P r t = Some res'"
      and res: "res = (x # fst res', snd res')"
      by (auto split: option.splits)
    from Cons.IH[OF r'] False assms(2) res show ?thesis
      by (simp add: keys_of_def key_id_def)
  qed
qed

lemma upsert_one_keys:
  assumes "\<And>old. conflict r old \<longleftrightarrow> key old = key r"
  shows "(keys_of key (fst (fst (upsert_one conflict r st))), snd (fst (upsert_one conflict r st))) =
           ensure (keys_of key (fst st), snd st) (key r)"
    and "key_id (keys_of key (fst (fst (upsert_one conflict r st)))) (key r) =
           Some (fst (snd (upsert_one conflict r st)))"
    and "snd (snd (upsert_one conflict r st)) = r"
proof -
  show "snd (snd (upsert_one conflict r st)) = r"
    by (simp add: upsert_one_def split: option.splits)
  show "(keys_of key (fst (fst (upsert_one conflict r st))), snd (fst (upsert_one conflict r st))) =
           ensure (keys_of key (fst st), snd st) (key r)"
  proof (cases "replace_first (conflict r) r (fst st)")
    case None
    then have "\<forall>x \<in> set (fst st). key (snd x) \<noteq> key r"
      using assms by (simp add: replace_first_None)
    then have "key r \<notin> snd ` set (keys_of key (fst st))"
      by (auto simp: keys_of_def)
    with None show ?thesis
      by (simp add: upsert_one_def ensure_def keys_of_def)
  next
    case (Some res)
    from replace_first_Some[OF Some, of key] assms
    have k: "keys_of key (fst res) = keys_of key (fst st)"
      and i: "key_id (keys_of key (fst st)) (key r) = Some (snd res)" by simp_all
    from i have "key r \<in> snd ` set (keys_of key (fst st))"
      using key_id_None_iff[of "keys_of key (fst st)" "key r"] by simp
    with Some k show ?thesis
      by (simp add: upsert_one_def ensure_def)
  qed
  show "key_id (keys_of key (fst (fst (upsert_one conflict r st)))) (key r) =
           Some (fst (snd (upsert_one conflict r st)))"
  proof (cases "replace_first (conflict r) r (fst st)")
    case None
    then have "\<forall>x \<in> set (fst st). key (snd x) \<noteq> key r"
      using assms by (simp add: replace_first_None)
    then have "key_id (keys_of key (fst st)) (key r) = None"
      by (auto simp: key_id_None_iff keys_of_def)
    with None show ?thesis
      by (simp add: upsert_one_def keys_of_def key_id_append) (simp add: key_id_def)
  next
    case (Some res)
    from replace_first_Some[OF Some, of key] assms
    have k: "keys_of key (fst res) = keys_of key (fst st)"
      and i: "key_id (keys_of key (fst st)) (key r) = Some (snd res)" by simp_all
    with Some show ?thesis by (simp add: upsert_one_def)
  qed
qed

lemma ensure_prefix: "\<exists>sh'. fst (ensure s k) = fst s @ sh'"
  by (simp add: ensure_def)

lemma ensure_keys: "snd ` set (fst (ensure s k)) = insert k (snd ` set (fst s))"
  by (auto simp: ensure_def)

lemma foldl_ensure_prefix: "\<exists>sh'. fst (foldl ensure s ks) = fst s @ sh'"
proof (induction ks arbitrary: s)
  case Nil
  show ?case by simp
next
  case (Cons k ks)
  from Cons[of "ensure s k"] ensure_prefix[of s k] show ?case by auto
qed

lemma foldl_ensure_keys: "snd ` set (fst (foldl ensure s ks)) = snd ` set (fst s) \<union> set ks"
  by (induction ks arbitrary: s) (auto simp: ensure_keys)

lemma foldl_ensure_covered: "set ks \<subseteq> snd ` set (fst s) \<Longrightarrow> foldl ensure s ks = s"
  by (induction ks arbitrary: s) (auto simp: ensure_def)

lemma key_id_stable:
  assumes "key_id (fst s) k = Some i"
  shows "key_id (fst (foldl ensure s ks)) k = Some i"
proof -
  from foldl_ensure_prefix[of s ks] obtain sh' where "fst (foldl ensure s ks) = fst s @ sh'" ..
  with assms show ?thesis by (simp add: key_id_append)
qed

lemma upsert_many_keys:
  assumes "\<forall>r \<in> set rs. \<forall>old. conflict r old \<longleftrightarrow> key old = key r"
  shows "(keys_of key (fst (fst (upsert_many conflict rs st))), snd (fst (upsert_many conflict rs st))) =
           foldl ensure (keys_of key (fst st), snd st) (map key rs) \<and>
         (\<forall>x \<in> set (snd (upsert_many conflict rs st)).
           key_id (keys_of key (fst (fst (upsert_many conflict rs st)))) (key (snd x)) = Some (fst x))"
  using assms
proof (induction rs arbitrary: st)
  case Nil
  show ?case by simp
next
  case (Cons r rs)
  let ?a = "upsert_one conflict r st"
  let ?b = "upsert_many conflict rs (fst ?a)"
  have c: "\<And>old. conflict r old \<longleftrightarrow> key old = key r"
    and cs: "\<forall>r' \<in> set rs. \<forall>old. conflict r' old \<longleftrightarrow> key old = key r'"
    using Cons.prems by auto
  note one = upsert_one_keys[of conflict r key st, OF c]
  from Cons.IH[of "fst ?a", OF cs]
  have many1: "(keys_of key (fst (fst ?b)), snd (fst ?b)) =
                 foldl ensure (keys_of key (fst (fst ?a)), snd (fst ?a)) (map key rs)"
    and many2: "\<forall>x \<in> set (snd ?b). key_id (keys_of key (fst (fst ?b))) (key (snd x)) = Some (fst x)"
    by blast+
  have 1: "(keys_of key (fst (fst (upsert_many conflict (r # rs) st))),
            snd (fst (upsert_many conflict (r # rs) st))) =
           foldl ensure (keys_of key (fst st), snd st) (map key (r # rs))"
    using one(1) many1 by (simp add: Let_def)
  have "key_id (fst (foldl ensure (keys_of key (fst (fst ?a)), snd (fst ?a)) (map key rs))) (key r)
          = Some (fst (snd ?a))"
    by (rule key_id_stable) (simp add: one(2))
  then have "key_id (keys_of key (fst (fst ?b))) (key r) = Some (fst (snd ?a))"
    using many1 by (metis fst_conv)
  with many2 one(3) have 2: "\<forall>x \<in> set (snd (upsert_many conflict (r # rs) st)).
           key_id (keys_of key (fst (fst (upsert_many conflict (r # rs) st)))) (key (snd x)) = Some (fst x)"
    by (simp add: Let_def)
  from 1 2 show ?case by blast
qed

section \<open>The phases of the load\<close>

lemma foldl_inv:
  assumes "\<And>s x. x \<in> set xs \<Longrightarrow> P (f s x) = P s"
  shows "P (foldl f s xs) = P s"
  using assms by (induction xs arbitrary: s) simp_all

lemma set_batched: "x \<in> set (batched xs BATCH_SIZE) \<Longrightarrow> set x \<subseteq> set xs"
proof -
  assume "x \<in> set (batched xs BATCH_SIZE)"
  then have "set x \<subseteq> set (concat (batched xs BATCH_SIZE))" by auto
  then show ?thesis by (simp add: concat_batched BATCH_SIZE_def)
qed

lemma upsert_units_eq:
  "upsert_units proj main_units st =
     upsert_units_batch st (map (build_unit_row proj (fst st)) main_units)"
proof -
  have a: "\<And>s. upsert_units_batch s [] = s" by (simp add: upsert_units_batch_def)
  have b: "\<And>s xs ys. upsert_units_batch (upsert_units_batch s xs) ys = upsert_units_batch s (xs @ ys)"
    by (simp add: upsert_units_batch_def Let_def upsert_many_append)
  show ?thesis
    unfolding upsert_units_def by (rule foldl_batched[of upsert_units_batch, OF a b])
qed

lemma upsert_clients_eq:
  "upsert_clients all_units st =
     upsert_clients_batch st (map (\<lambda>name. \<lparr> c_full_name = name \<rparr>) (unique_clients all_units))"
proof -
  have a: "\<And>s. upsert_clients_batch s [] = s" by (simp add: upsert_clients_batch_def)
  have b: "\<And>s xs ys. upsert_clients_batch (upsert_clients_batch s xs) ys = upsert_clients_batch s (xs @ ys)"
    by (simp add: upsert_clients_batch_def Let_def upsert_many_append)
  show ?thesis
    unfolding upsert_clients_def by (rule foldl_batched[of upsert_clients_batch, OF a b])
qed

lemma upsert_sales_reps_eq:
  "upsert_sales_reps all_units st =
     (fst st,
      (snd st)\<lparr> sales_reps :=
                  fst (fst (upsert_many sales_reps_conflict
                              (map (\<lambda>(rid, name). \<lparr> r_id = rid, r_name = name \<rparr>) (unique_reps all_units))
                              (sales_reps (snd st), next_id (snd st)))),
                next_id :=
                  snd (fst (upsert_many sales_reps_conflict
                              (map (\<lambda>(rid, name). \<lparr> r_id = rid, r_name = name \<rparr>) (unique_reps all_units))
                              (sales_reps (snd st), next_id (snd st)))) \<rparr>)"
proof -
  let ?step = "\<lambda>s batch. let a = upsert_many sales_reps_conflict batch (sales_reps (snd s), next_id (snd s))
                 in (fst s, (snd s)\<lparr> sales_reps := fst (fst a), next_id := snd (fst a) \<rparr>)"
  have a: "\<And>s. ?step s [] = s" by simp
  have b: "\<And>s xs ys. ?step (?step s xs) ys = ?step s (xs @ ys)"
    by (simp add: Let_def upsert_many_append)
  have "upsert_sales_reps all_units st =
          ?step st (map (\<lambda>(rid, name). \<lparr> r_id = rid, r_name = name \<rparr>) (unique_reps all_units))"
    unfolding upsert_sales_reps_def by (rule foldl_batched[of ?step, OF a b])
  then show ?thesis by (simp add: Let_def)
qed

lemma upsert_expected_payments_frame:
  "fst (upsert_expected_payments expected st) = fst st \<and>
   projects (snd (upsert_expected_payments expected st)) = projects (snd st) \<and>
   units (snd (upsert_expected_payments expected st)) = units (snd st) \<and>
   clients (snd (upsert_expected_payments expected st)) = clients (snd st) \<and>
   sales (snd (upsert_expected_payments expected st)) = sales (snd st) \<and>
   payments (snd (upsert_expected_payments expected st)) = payments (snd st)"
proof -
  let ?P = "\<lambda>s. (fst s, projects (snd s), units (snd s), clients (snd s), sales (snd s), payments (snd s))"
  have "?P (upsert_expected_payments expected st) = ?P st"
    unfolding upsert_expected_payments_def
    by (rule foldl_inv[of _ ?P]) (simp add: Let_def)
  then show ?thesis by simp
qed

text \<open>The dictionary built from the rows an upsert returns.\<close>

lemma foldl_dict:
  assumes "\<forall>x \<in> set ret. g x = G (f x)"
  shows "foldl (\<lambda>m x. m(f x \<mapsto> g x)) m0 ret = (\<lambda>a. if a \<in> f ` set ret then Some (G a) else m0 a)"
  using assms
proof (induction ret rule: rev_induct)
  case Nil
  show ?case by simp
next
  case (snoc x ret)
  have IH: "foldl (\<lambda>m x. m(f x \<mapsto> g x)) m0 ret = (\<lambda>a. if a \<in> f ` set ret then Some (G a) else m0 a)"
    by (rule snoc.IH) (use snoc.prems in auto)
  have gx: "g x = G (f x)" using snoc.prems by simp
  show ?case unfolding foldl_append foldl_Cons foldl_Nil IH
    by (auto simp: fun_eq_iff gx)
qed

lemma foldl_dict_dom: "dom (foldl (\<lambda>m x. m(f x \<mapsto> g x)) m0 ret) = dom m0 \<union> f ` set ret"
  by (induction ret arbitrary: m0) auto

section \<open>The sales phase\<close>

lemma sale_status_values:
  "normalize_sale_status proj raw = Some v \<Longrightarrow> v = ''active'' \<or> v = ''cancelled''"
  by (cases proj; cases raw)
     (auto simp: normalize_sale_status_def STATUS_TO_SALE_STATUS_def split: if_splits)

lemma build_sale_row_Some:
  assumes "build_sale_row proj L u = Some row"
  shows "unit_ids L (apto u) = Some (s_unit_id row) \<and>
         (s_status row = ''active'' \<or> s_status row = ''cancelled'')"
proof -
  have st: "or_str (normalize_sale_status proj (estatus_raw u)) ''active'' = ''active'' \<or>
            or_str (normalize_sale_status proj (estatus_raw u)) ''active'' = ''cancelled''"
    using sale_status_values[of proj "estatus_raw u"]
    by (cases "normalize_sale_status proj (estatus_raw u)") (auto simp: or_str_def truthy_def)
  from assms st show ?thesis
    by (auto simp: build_sale_row_def Let_def split: option.splits if_splits)
qed

lemma build_sale_row_None_iff:
  "build_sale_row proj L u = None \<longleftrightarrow>
     unit_ids L (apto u) = None \<or> \<not> truthy (cliente u) \<or>
     client_ids L (the (cliente u)) = None \<or> sale_date_of proj u = None"
  by (auto simp: build_sale_row_def Let_def split: option.splits if_splits)

lemma build_sale_row_cong:
  assumes "project_id L = project_id L'" "unit_ids L = unit_ids L'" "client_ids L = client_ids L'"
  shows "build_sale_row proj L u = build_sale_row proj L' u"
  by (simp only: build_sale_row_def assms)

lemma built_sales_cong:
  assumes "project_id L = project_id L'" "unit_ids L = unit_ids L'" "client_ids L = client_ids L'"
  shows "built_sales proj L all_units = built_sales proj L' all_units"
  by (simp only: built_sales_def build_sale_row_cong[OF assms])

lemma built_sales_mem:
  assumes "b \<in> set (built_sales proj L all_units)"
  shows "fst b < length all_units \<and> fst (snd b) = all_units ! fst b \<and>
         is_sellable proj (fst (snd b)) \<and>
         build_sale_row proj L (fst (snd b)) = Some (snd (snd b))"
proof -
  from assms obtain x where x: "x \<in> set (filter (\<lambda>(i, u). is_sellable proj u) (enumerate 0 all_units))"
    and b: "(case x of (i, u) \<Rightarrow> case build_sale_row proj L u of
                                    None \<Rightarrow> None
                                  | Some row \<Rightarrow> Some (i, u, row)) = Some b"
    unfolding built_sales_def by (blast dest: map_filter_mem)
  obtain i u where xu: "x = (i, u)" by (cases x)
  from x xu have "i < length all_units" "u = all_units ! i" "is_sellable proj u"
    by (auto simp: in_set_enumerate_eq)
  with b xu show ?thesis by (auto split: option.splits)
qed

lemma built_sales_indices:
  "fst ` set (built_sales proj L all_units) =
     {i. i < length all_units \<and> is_sellable proj (all_units ! i) \<and>
         build_sale_row proj L (all_units ! i) \<noteq> None}"
proof (intro set_eqI iffI)
  fix i assume "i \<in> fst ` set (built_sales proj L all_units)"
  then obtain b where "b \<in> set (built_sales proj L all_units)" "i = fst b" by blast
  with built_sales_mem[of b proj L all_units]
  show "i \<in> {i. i < length all_units \<and> is_sellable proj (all_units ! i) \<and>
         build_sale_row proj L (all_units ! i) \<noteq> None}" by auto
next
  fix i assume "i \<in> {i. i < length all_units \<and> is_sellable proj (all_units ! i) \<and>
         build_sale_row proj L (all_units ! i) \<noteq> None}"
  then have i: "i < length all_units" "is_sellable proj (all_units ! i)"
    and "build_sale_row proj L (all_units ! i) \<noteq> None" by auto
  then obtain row where row: "build_sale_row proj L (all_units ! i) = Some row" by auto
  from i have "(i, all_units ! i) \<in> set (filter (\<lambda>(i, u). is_sellable proj u) (enumerate 0 all_units))"
    by (simp add: in_set_enumerate_eq)
  with row have "(i, all_units ! i, row) \<in> set (built_sales proj L all_units)"
    unfolding built_sales_def map_filter_def by force
  then show "i \<in> fst ` set (built_sales proj L all_units)" by force
qed

lemma sales_conflict_key:
  "s_status r = ''active'' \<Longrightarrow> sales_conflict r old \<longleftrightarrow> sale_key old = sale_key r"
  by (auto simp: sales_conflict_def sale_key_def)

lemma ids_dom:
  assumes "\<forall>b \<in> set bs. \<exists>uid sid. U (apto (fst (snd b))) = Some uid \<and> R uid = Some sid"
  shows "dom (foldl (\<lambda>m (i, u, row).
                      case U (apto u) of
                        None \<Rightarrow> m
                      | Some unit_id \<Rightarrow> (case R unit_id of None \<Rightarrow> m | Some sid \<Rightarrow> m(i \<mapsto> sid)))
                    m0 bs) = dom m0 \<union> fst ` set bs"
  using assms
proof (induction bs arbitrary: m0)
  case Nil
  show ?case by simp
next
  case (Cons b bs)
  obtain i u row where b: "b = (i, u, row)" by (cases b)
  from Cons.prems b obtain uid sid where "U (apto u) = Some uid" "R uid = Some sid" by auto
  with Cons b show ?case by auto
qed

lemma upsert_active_batch_char:
  assumes "\<forall>b \<in> set batch. s_status (snd (snd b)) = ''active'' \<and>
             unit_ids (fst st) (apto (fst (snd b))) = Some (s_unit_id (snd (snd b)))"
  shows "(keys_of sale_key (sales (snd (upsert_active_batch st batch))),
          next_id (snd (upsert_active_batch st batch))) =
           foldl ensure (keys_of sale_key (sales (snd st)), next_id (snd st))
                 (map (\<lambda>b. sale_key (snd (snd b))) batch) \<and>
         dom (sale_ids (fst (upsert_active_batch st batch))) = dom (sale_ids (fst st)) \<union> fst ` set batch \<and>
         project_id (fst (upsert_active_batch st batch)) = project_id (fst st) \<and>
         unit_ids (fst (upsert_active_batch st batch)) = unit_ids (fst st) \<and>
         client_ids (fst (upsert_active_batch st batch)) = client_ids (fst st) \<and>
         projects (snd (upsert_active_batch st batch)) = projects (snd st) \<and>
         units (snd (upsert_active_batch st batch)) = units (snd st) \<and>
         clients (snd (upsert_active_batch st batch)) = clients (snd st) \<and>
         payments (snd (upsert_active_batch st batch)) = payments (snd st)"
proof -
  let ?rows = "map (\<lambda>(i, u, row). row) batch"
  let ?a = "upsert_many sales_conflict ?rows (sales (snd st), next_id (snd st))"
  let ?returned = "foldl (\<lambda>m r. m(s_unit_id (snd r) \<mapsto> fst r)) Map.empty (snd ?a)"
  have rows: "?rows = map (\<lambda>b. snd (snd b)) batch" by (simp add: case_prod_beta)
  have c: "\<forall>r \<in> set ?rows. \<forall>old. sales_conflict r old \<longleftrightarrow> sale_key old = sale_key r"
    using assms by (auto simp: sales_conflict_key)
  from upsert_many_keys[OF c, of "(sales (snd st), next_id (snd st))"]
  have k: "(keys_of sale_key (fst (fst ?a)), snd (fst ?a)) =
             foldl ensure (keys_of sale_key (sales (snd st)), next_id (snd st)) (map sale_key ?rows)"
    by simp
  have "dom ?returned = s_unit_id ` snd ` set (snd ?a)"
    by (simp add: foldl_dict_dom image_image)
  also have "\<dots> = s_unit_id ` set ?rows"
    using upsert_many_returns[of sales_conflict ?rows "(sales (snd st), next_id (snd st))"]
    by (metis set_map)
  finally have dr: "dom ?returned = s_unit_id ` set ?rows" .
  have "\<forall>b \<in> set batch. \<exists>uid sid. unit_ids (fst st) (apto (fst (snd b))) = Some uid \<and> ?returned uid = Some sid"
  proof
    fix b assume b: "b \<in> set batch"
    with assms have u: "unit_ids (fst st) (apto (fst (snd b))) = Some (s_unit_id (snd (snd b)))" by blast
    from b have "s_unit_id (snd (snd b)) \<in> s_unit_id ` set ?rows" by (force simp: rows)
    then have "s_unit_id (snd (snd b)) \<in> dom ?returned" using dr by blast
    with u show "\<exists>uid sid. unit_ids (fst st) (apto (fst (snd b))) = Some uid \<and> ?returned uid = Some sid"
      by blast
  qed
  from ids_dom[OF this, of "sale_ids (fst st)"]
  have d: "dom (sale_ids (fst (upsert_active_batch st batch))) = dom (sale_ids (fst st)) \<union> fst ` set batch"
    by (simp add: upsert_active_batch_def Let_def)
  from k have k': "(keys_of sale_key (sales (snd (upsert_active_batch st batch))),
          next_id (snd (upsert_active_batch st batch))) =
           foldl ensure (keys_of sale_key (sales (snd st)), next_id (snd st))
                 (map (\<lambda>b. sale_key (snd (snd b))) batch)"
    by (simp add: upsert_active_batch_def Let_def rows comp_def)
  have f: "project_id (fst (upsert_active_batch st batch)) = project_id (fst st) \<and>
         unit_ids (fst (upsert_active_batch st batch)) = unit_ids (fst st) \<and>
         client_ids (fst (upsert_active_batch st batch)) = client_ids (fst st) \<and>
         projects (snd (upsert_active_batch st batch)) = projects (snd st) \<and>
         units (snd (upsert_active_batch st batch)) = units (snd st) \<and>
         clients (snd (upsert_active_batch st batch)) = clients (snd st) \<and>
         payments (snd (upsert_active_batch st batch)) = payments (snd st)"
    by (simp add: upsert_active_batch_def Let_def)
  from k' d f show ?thesis by blast
qed

lemma active_fold_char:
  assumes "\<forall>batch \<in> set bs. \<forall>b \<in> set batch. s_status (snd (snd b)) = ''active'' \<and>
             unit_ids (fst st) (apto (fst (snd b))) = Some (s_unit_id (snd (snd b)))"
  shows "(keys_of sale_key (sales (snd (foldl upsert_active_batch st bs))),
          next_id (snd (foldl upsert_active_batch st bs))) =
           foldl ensure (keys_of sale_key (sales (snd st)), next_id (snd st))
                 (map (\<lambda>b. sale_key (snd (snd b))) (concat bs)) \<and>
         dom (sale_ids (fst (foldl upsert_active_batch st bs))) =
           dom (sale_ids (fst st)) \<union> fst ` set (concat bs) \<and>
         project_id (fst (foldl upsert_active_batch st bs)) = project_id (fst st) \<and>
         unit_ids (fst (foldl upsert_active_batch st bs)) = unit_ids (fst st) \<and>
         client_ids (fst (foldl upsert_active_batch st bs)) = client_ids (fst st) \<and>
         projects (snd (foldl upsert_active_batch st bs)) = projects (snd st) \<and>
         units (snd (foldl upsert_active_batch st bs)) = units (snd st) \<and>
         clients (snd (foldl upsert_active_batch st bs)) = clients (snd st) \<and>
         payments (snd (foldl upsert_active_batch st bs)) = payments (snd st)"
  using assms
proof (induction bs arbitrary: st)
  case Nil
  show ?case by simp
next
  case (Cons batch bs)
  let ?s = "upsert_active_batch st batch"
  from Cons.prems have h: "\<forall>b \<in> set batch. s_status (snd (snd b)) = ''active'' \<and>
             unit_ids (fst st) (apto (fst (snd b))) = Some (s_unit_id (snd (snd b)))" by simp
  note one = upsert_active_batch_char[OF h]
  from one have u: "unit_ids (fst ?s) = unit_ids (fst st)" by blast
  from Cons.prems have "\<forall>batch \<in> set bs. \<forall>b \<in> set batch. s_status (snd (snd b)) = ''active'' \<and>
             unit_ids (fst ?s) (apto (fst (snd b))) = Some (s_unit_id (snd (snd b)))"
    unfolding u by simp
  note rest = Cons.IH[OF this]
  from one have o: "(keys_of sale_key (sales (snd ?s)), next_id (snd ?s)) =
           foldl ensure (keys_of sale_key (sales (snd st)), next_id (snd st))
                 (map (\<lambda>b. sale_key (snd (snd b))) batch)" by blast
  have 1: "(keys_of sale_key (sales (snd (foldl upsert_active_batch st (batch # bs)))),
          next_id (snd (foldl upsert_active_batch st (batch # bs)))) =
           foldl ensure (keys_of sale_key (sales (snd st)), next_id (snd st))
                 (map (\<lambda>b. sale_key (snd (snd b))) (concat (batch # bs)))"
    using rest unfolding o by simp
  have 2: "dom (sale_ids (fst (foldl upsert_active_batch st (batch # bs)))) =
           dom (sale_ids (fst st)) \<union> fst ` set (concat (batch # bs))"
    using one rest by (simp add: Un_assoc image_Un)
  have 3: "project_id (fst (foldl upsert_active_batch st (batch # bs))) = project_id (fst st) \<and>
         unit_ids (fst (foldl upsert_active_batch st (batch # bs))) = unit_ids (fst st) \<and>
         client_ids (fst (foldl upsert_active_batch st (batch # bs))) = client_ids (fst st) \<and>
         projects (snd (foldl upsert_active_batch st (batch # bs))) = projects (snd st) \<and>
         units (snd (foldl upsert_active_batch st (batch # bs))) = units (snd st) \<and>
         clients (snd (foldl upsert_active_batch st (batch # bs))) = clients (snd st) \<and>
         payments (snd (foldl upsert_active_batch st (batch # bs))) = payments (snd st)"
    using one rest by simp
  from 1 2 3 show ?case by blast
qed

lemma insert_cancelled_char:
  assumes "s_status (snd (snd b)) = ''cancelled''"
  shows "(keys_of sale_key (sales (snd (insert_cancelled st b))), next_id (snd (insert_cancelled st b))) =
           ensure (keys_of sale_key (sales (snd st)), next_id (snd st)) (sale_key (snd (snd b))) \<and>
         dom (sale_ids (fst (insert_cancelled st b))) = insert (fst b) (dom (sale_ids (fst st))) \<and>
         project_id (fst (insert_cancelled st b)) = project_id (fst st) \<and>
         unit_ids (fst (insert_cancelled st b)) = unit_ids (fst st) \<and>
         client_ids (fst (insert_cancelled st b)) = client_ids (fst st) \<and>
         projects (snd (insert_cancelled st b)) = projects (snd st) \<and>
         units (snd (insert_cancelled st b)) = units (snd st) \<and>
         clients (snd (insert_cancelled st b)) = clients (snd st) \<and>
         payments (snd (insert_cancelled st b)) = payments (snd st)"
proof -
  obtain i u row where b: "b = (i, u, row)" by (cases b)
  with assms have c: "s_status row = ''cancelled''" by simp
  then have p: "\<And>x. (s_unit_id (snd x) = s_unit_id row \<and> s_client_id (snd x) = s_client_id row \<and>
                       s_status (snd x) = ''cancelled'') \<longleftrightarrow> sale_key (snd x) = sale_key row"
    by (auto simp: sale_key_def split: if_splits)
  let ?P = "\<lambda>x. s_unit_id (snd x) = s_unit_id row \<and> s_client_id (snd x) = s_client_id row \<and>
                 s_status (snd x) = ''cancelled''"
  show ?thesis
  proof (cases "find ?P (sales (snd st))")
    case None
    then have n: "\<forall>x \<in> set (sales (snd st)). sale_key (snd x) \<noteq> sale_key row"
      unfolding find_None_iff p by blast
    have "sale_key row \<notin> snd ` set (keys_of sale_key (sales (snd st)))"
    proof
      assume "sale_key row \<in> snd ` set (keys_of sale_key (sales (snd st)))"
      then obtain x where "x \<in> set (sales (snd st))" "sale_key (snd x) = sale_key row"
        by (auto simp: keys_of_def)
      with n show False by blast
    qed
    with None b show ?thesis
      by (simp add: insert_cancelled_def Let_def insert_one_def ensure_def keys_of_def)
  next
    case (Some x)
    then have "x \<in> set (sales (snd st))" "sale_key (snd x) = sale_key row"
      unfolding find_Some_iff p by (auto simp: in_set_conv_nth)
    then have "sale_key row \<in> snd ` set (keys_of sale_key (sales (snd st)))"
      by (force simp: keys_of_def)
    with Some b show ?thesis
      by (simp add: insert_cancelled_def ensure_def)
  qed
qed

lemma cancelled_fold_char:
  assumes "\<forall>b \<in> set bs. s_status (snd (snd b)) = ''cancelled''"
  shows "(keys_of sale_key (sales (snd (foldl insert_cancelled st bs))),
          next_id (snd (foldl insert_cancelled st bs))) =
           foldl ensure (keys_of sale_key (sales (snd st)), next_id (snd st))
                 (map (\<lambda>b. sale_key (snd (snd b))) bs) \<and>
         dom (sale_ids (fst (foldl insert_cancelled st bs))) = dom (sale_ids (fst st)) \<union> fst ` set bs \<and>
         project_id (fst (foldl insert_cancelled st bs)) = project_id (fst st) \<and>
         unit_ids (fst (foldl insert_cancelled st bs)) = unit_ids (fst st) \<and>
         client_ids (fst (foldl insert_cancelled st bs)) = client_ids (fst st) \<and>
         projects (snd (foldl insert_cancelled st bs)) = projects (snd st) \<and>
         units (snd (foldl insert_cancelled st bs)) = units (snd st) \<and>
         clients (snd (foldl insert_cancelled st bs)) = clients (snd st) \<and>
         payments (snd (foldl insert_cancelled st bs)) = payments (snd st)"
  using assms
proof (induction bs arbitrary: st)
  case Nil
  show ?case by simp
next
  case (Cons b bs)
  from Cons.prems have h: "s_status (snd (snd b)) = ''cancelled''" by simp
  note one = insert_cancelled_char[OF h, of st]
  from Cons.prems have "\<forall>b \<in> set bs. s_status (snd (snd b)) = ''cancelled''" by simp
  note rest = Cons.IH[OF this, of "insert_cancelled st b"]
  from one have o: "(keys_of sale_key (sales (snd (insert_cancelled st b))), next_id (snd (insert_cancelled st b))) =
           ensure (keys_of sale_key (sales (snd st)), next_id (snd st)) (sale_key (snd (snd b)))" by blast
  have 1: "(keys_of sale_key (sales (snd (foldl insert_cancelled st (b # bs)))),
          next_id (snd (foldl insert_cancelled st (b # bs)))) =
           foldl ensure (keys_of sale_key (sales (snd st)), next_id (snd st))
                 (map (\<lambda>b. sale_key (snd (snd b))) (b # bs))"
    using rest unfolding o by simp
  have 2: "dom (sale_ids (fst (foldl insert_cancelled st (b # bs)))) =
             dom (sale_ids (fst st)) \<union> fst ` set (b # bs)"
    using one rest by auto
  have 3: "project_id (fst (foldl insert_cancelled st (b # bs))) = project_id (fst st) \<and>
         unit_ids (fst (foldl insert_cancelled st (b # bs))) = unit_ids (fst st) \<and>
         client_ids (fst (foldl insert_cancelled st (b # bs))) = client_ids (fst st) \<and>
         projects (snd (foldl insert_cancelled st (b # bs))) = projects (snd st) \<and>
         units (snd (foldl insert_cancelled st (b # bs))) = units (snd st) \<and>
         clients (snd (foldl insert_cancelled st (b # bs))) = clients (snd st) \<and>
         payments (snd (foldl insert_cancelled st (b # bs))) = payments (snd st)"
    using one rest by simp
  from 1 2 3 show ?case by blast
qed

lemma insert_sales_char:
  "(keys_of sale_key (sales (snd (insert_sales proj all_units st))),
    next_id (snd (insert_sales proj all_units st))) =
     foldl ensure (keys_of sale_key (sales (snd st)), next_id (snd st))
       (map (\<lambda>b. sale_key (snd (snd b)))
            (filter (\<lambda>(i, u, row). s_status row = ''active'') (built_sales proj (fst st) all_units) @
             filter (\<lambda>(i, u, row). s_status row \<noteq> ''active'') (built_sales proj (fst st) all_units))) \<and>
   dom (sale_ids (fst (insert_sales proj all_units st))) =
     dom (sale_ids (fst st)) \<union> fst ` set (built_sales proj (fst st) all_units) \<and>
   project_id (fst (insert_sales proj all_units st)) = project_id (fst st) \<and>
   unit_ids (fst (insert_sales proj all_units st)) = unit_ids (fst st) \<and>
   client_ids (fst (insert_sales proj all_units st)) = client_ids (fst st) \<and>
   projects (snd (insert_sales proj all_units st)) = projects (snd st) \<and>
   units (snd (insert_sales proj all_units st)) = units (snd st) \<and>
   clients (snd (insert_sales proj all_units st)) = clients (snd st) \<and>
   payments (snd (insert_sales proj all_units st)) = payments (snd st)"
proof -
  let ?built = "built_sales proj (fst st) all_units"
  let ?act = "filter (\<lambda>(i, u, row). s_status row = ''active'') ?built"
  let ?can = "filter (\<lambda>(i, u, row). s_status row \<noteq> ''active'') ?built"
  let ?s1 = "foldl upsert_active_batch st (batched ?act BATCH_SIZE)"
  have e: "insert_sales proj all_units st = foldl insert_cancelled ?s1 ?can"
    by (simp add: insert_sales_def Let_def)
  have bm: "\<And>b. b \<in> set ?built \<Longrightarrow>
              unit_ids (fst st) (apto (fst (snd b))) = Some (s_unit_id (snd (snd b))) \<and>
              (s_status (snd (snd b)) = ''active'' \<or> s_status (snd (snd b)) = ''cancelled'')"
    using built_sales_mem build_sale_row_Some by blast
  have "\<forall>batch \<in> set (batched ?act BATCH_SIZE). \<forall>b \<in> set batch.
          s_status (snd (snd b)) = ''active'' \<and>
          unit_ids (fst st) (apto (fst (snd b))) = Some (s_unit_id (snd (snd b)))"
  proof (intro ballI)
    fix batch b assume "batch \<in> set (batched ?act BATCH_SIZE)" "b \<in> set batch"
    with set_batched have "b \<in> set ?act" by blast
    then have "b \<in> set ?built" "s_status (snd (snd b)) = ''active''" by auto
    with bm show "s_status (snd (snd b)) = ''active'' \<and>
          unit_ids (fst st) (apto (fst (snd b))) = Some (s_unit_id (snd (snd b)))" by blast
  qed
  note A = active_fold_char[OF this]
  have cb: "concat (batched ?act BATCH_SIZE) = ?act"
    by (simp add: concat_batched BATCH_SIZE_def)
  have "\<forall>b \<in> set ?can. s_status (snd (snd b)) = ''cancelled''"
  proof
    fix b assume "b \<in> set ?can"
    then have "b \<in> set ?built" "s_status (snd (snd b)) \<noteq> ''active''" by auto
    with bm show "s_status (snd (snd b)) = ''cancelled''" by blast
  qed
  note C = cancelled_fold_char[OF this, of ?s1]
  from A have a1: "(keys_of sale_key (sales (snd ?s1)), next_id (snd ?s1)) =
           foldl ensure (keys_of sale_key (sales (snd st)), next_id (snd st))
                 (map (\<lambda>b. sale_key (snd (snd b))) ?act)"
    unfolding cb by blast
  have 1: "(keys_of sale_key (sales (snd (insert_sales proj all_units st))),
            next_id (snd (insert_sales proj all_units st))) =
     foldl ensure (keys_of sale_key (sales (snd st)), next_id (snd st))
       (map (\<lambda>b. sale_key (snd (snd b))) (?act @ ?can))"
    using C unfolding e a1 by simp
  have "set ?act \<union> set ?can = set ?built" by auto
  then have "fst ` set ?act \<union> fst ` set ?can = fst ` set ?built" by (metis image_Un)
  moreover from A have "dom (sale_ids (fst ?s1)) = dom (sale_ids (fst st)) \<union> fst ` set ?act"
    unfolding cb by blast
  moreover from C have "dom (sale_ids (fst (foldl insert_cancelled ?s1 ?can))) =
                          dom (sale_ids (fst ?s1)) \<union> fst ` set ?can" by blast
  ultimately have 2: "dom (sale_ids (fst (insert_sales proj all_units st))) =
     dom (sale_ids (fst st)) \<union> fst ` set ?built"
    unfolding e by (simp add: Un_assoc)
  have 3: "project_id (fst (insert_sales proj all_units st)) = project_id (fst st) \<and>
   unit_ids (fst (insert_sales proj all_units st)) = unit_ids (fst st) \<and>
   client_ids (fst (insert_sales proj all_units st)) = client_ids (fst st) \<and>
   projects (snd (insert_sales proj all_units st)) = projects (snd st) \<and>
   units (snd (insert_sales proj all_units st)) = units (snd st) \<and>
   clients (snd (insert_sales proj all_units st)) = clients (snd st) \<and>
   payments (snd (insert_sales proj all_units st)) = payments (snd st)"
    using A C unfolding e by simp
  from 1 2 3 show ?thesis by blast
qed

lemma upsert_project_char:
  "(keys_of p_name (projects (snd (upsert_project proj st))), next_id (snd (upsert_project proj st))) =
     ensure (keys_of p_name (projects (snd st)), next_id (snd st)) (PROJECT_NAME proj) \<and>
   project_id (fst (upsert_project proj st)) =
     key_id (keys_of p_name (projects (snd (upsert_project proj st)))) (PROJECT_NAME proj) \<and>
   project_id (fst (upsert_project proj st)) \<noteq> None \<and>
   unit_ids (fst (upsert_project proj st)) = unit_ids (fst st) \<and>
   client_ids (fst (upsert_project proj st)) = client_ids (fst st) \<and>
   sale_ids (fst (upsert_project proj st)) = sale_ids (fst st) \<and>
   units (snd (upsert_project proj st)) = units (snd st) \<and>
   clients (snd (upsert_project proj st)) = clients (snd st) \<and>
   sales (snd (upsert_project proj st)) = sales (snd st) \<and>
   payments (snd (upsert_project proj st)) = payments (snd st)"
proof -
  let ?r = "\<lparr> p_name = PROJECT_NAME proj, p_display_name = PROJECT_DISPLAY_NAME proj \<rparr>"
  have c: "\<And>old. projects_conflict ?r old \<longleftrightarrow> p_name old = p_name ?r"
    by (auto simp: projects_conflict_def)
  note k = upsert_one_keys[of projects_conflict ?r p_name "(projects (snd st), next_id (snd st))", OF c]
  from k(1) k(2) show ?thesis
    by (simp add: upsert_project_def Let_def)
qed

lemma upsert_units_char:
  "(keys_of unit_row_key (units (snd (upsert_units proj main_units st))),
    next_id (snd (upsert_units proj main_units st))) =
     foldl ensure (keys_of unit_row_key (units (snd st)), next_id (snd st))
           (map (\<lambda>u. (project_id (fst st), apto u)) main_units) \<and>
   unit_ids (fst (upsert_units proj main_units st)) =
     (\<lambda>a. if a \<in> apto ` set main_units
           then key_id (keys_of unit_row_key (units (snd (upsert_units proj main_units st))))
                       (project_id (fst st), a)
           else unit_ids (fst st) a) \<and>
   dom (unit_ids (fst (upsert_units proj main_units st))) = dom (unit_ids (fst st)) \<union> apto ` set main_units \<and>
   project_id (fst (upsert_units proj main_units st)) = project_id (fst st) \<and>
   client_ids (fst (upsert_units proj main_units st)) = client_ids (fst st) \<and>
   sale_ids (fst (upsert_units proj main_units st)) = sale_ids (fst st) \<and>
   projects (snd (upsert_units proj main_units st)) = projects (snd st) \<and>
   clients (snd (upsert_units proj main_units st)) = clients (snd st) \<and>
   sales (snd (upsert_units proj main_units st)) = sales (snd st) \<and>
   payments (snd (upsert_units proj main_units st)) = payments (snd st)"
proof -
  let ?rows = "map (build_unit_row proj (fst st)) main_units"
  let ?a = "upsert_many units_conflict ?rows (units (snd st), next_id (snd st))"
  let ?final = "keys_of unit_row_key (fst (fst ?a))"
  let ?pid = "project_id (fst st)"
  have e: "upsert_units proj main_units st = upsert_units_batch st ?rows"
    by (rule upsert_units_eq)
  have c: "\<forall>r \<in> set ?rows. \<forall>old. units_conflict r old \<longleftrightarrow> unit_row_key old = unit_row_key r"
    by (auto simp: units_conflict_def unit_row_key_def)
  have kr: "map unit_row_key ?rows = map (\<lambda>u. (?pid, apto u)) main_units"
    by (simp add: unit_row_key_def build_unit_row_def Let_def)
  from upsert_many_keys[OF c, of "(units (snd st), next_id (snd st))"]
  have k: "(?final, snd (fst ?a)) =
             foldl ensure (keys_of unit_row_key (units (snd st)), next_id (snd st))
                   (map (\<lambda>u. (?pid, apto u)) main_units)"
    and ids: "\<forall>x \<in> set (snd ?a). key_id ?final (unit_row_key (snd x)) = Some (fst x)"
    unfolding kr by simp_all
  have rs: "map snd (snd ?a) = ?rows" by (rule upsert_many_returns)
  have pr: "\<forall>x \<in> set (snd ?a). unit_row_key (snd x) = (?pid, u_unit_number (snd x))"
  proof
    fix x assume "x \<in> set (snd ?a)"
    then have "snd x \<in> set ?rows" using rs by (metis image_eqI set_map)
    then show "unit_row_key (snd x) = (?pid, u_unit_number (snd x))"
      by (auto simp: unit_row_key_def build_unit_row_def Let_def)
  qed
  have "\<forall>x \<in> set (snd ?a). fst x = the (key_id ?final (?pid, u_unit_number (snd x)))"
    using ids pr by simp
  from foldl_dict[of "snd ?a" fst "\<lambda>a. the (key_id ?final (?pid, a))" "\<lambda>x. u_unit_number (snd x)", OF this]
  have d: "foldl (\<lambda>m row. m(u_unit_number (snd row) \<mapsto> fst row)) (unit_ids (fst st)) (snd ?a) =
             (\<lambda>a. if a \<in> (\<lambda>x. u_unit_number (snd x)) ` set (snd ?a)
                   then Some (the (key_id ?final (?pid, a))) else unit_ids (fst st) a)" .
  have im: "(\<lambda>x. u_unit_number (snd x)) ` set (snd ?a) = apto ` set main_units"
  proof -
    have "(\<lambda>x. u_unit_number (snd x)) ` set (snd ?a) = u_unit_number ` set (map snd (snd ?a))"
      by (simp add: image_image)
    also have "\<dots> = u_unit_number ` set ?rows" unfolding rs ..
    also have "\<dots> = apto ` set main_units"
      by (simp add: image_image build_unit_row_def Let_def)
    finally show ?thesis .
  qed
  have pres: "\<And>a. a \<in> apto ` set main_units \<Longrightarrow> key_id ?final (?pid, a) \<noteq> None"
  proof -
    fix a assume "a \<in> apto ` set main_units"
    then have "(?pid, a) \<in> set (map (\<lambda>u. (?pid, apto u)) main_units)" by auto
    then have "(?pid, a) \<in> snd ` set ?final"
      using foldl_ensure_keys[of "(keys_of unit_row_key (units (snd st)), next_id (snd st))"
                                "map (\<lambda>u. (?pid, apto u)) main_units"]
      unfolding k[symmetric] by simp
    then show "key_id ?final (?pid, a) \<noteq> None" by (simp add: key_id_None_iff)
  qed
  have u: "unit_ids (fst (upsert_units proj main_units st)) =
     (\<lambda>a. if a \<in> apto ` set main_units then key_id ?final (?pid, a) else unit_ids (fst st) a)"
    unfolding e using pres by (auto simp: upsert_units_batch_def Let_def d im fun_eq_iff)
  have t: "units (snd (upsert_units proj main_units st)) = fst (fst ?a)"
          "next_id (snd (upsert_units proj main_units st)) = snd (fst ?a)"
    unfolding e by (simp_all add: upsert_units_batch_def Let_def)
  have dm: "dom (unit_ids (fst (upsert_units proj main_units st))) =
              dom (unit_ids (fst st)) \<union> apto ` set main_units"
    unfolding u using pres by (auto simp: dom_def split: if_splits)
  have f: "project_id (fst (upsert_units proj main_units st)) = project_id (fst st) \<and>
   client_ids (fst (upsert_units proj main_units st)) = client_ids (fst st) \<and>
   sale_ids (fst (upsert_units proj main_units st)) = sale_ids (fst st) \<and>
   projects (snd (upsert_units proj main_units st)) = projects (snd st) \<and>
   clients (snd (upsert_units proj main_units st)) = clients (snd st) \<and>
   sales (snd (upsert_units proj main_units st)) = sales (snd st) \<and>
   payments (snd (upsert_units proj main_units st)) = payments (snd st)"
    unfolding e by (simp add: upsert_units_batch_def Let_def)
  from k u dm f show ?thesis unfolding t by blast
qed

lemma unique_clients_set:
  "set (unique_clients all_units) = {c. \<exists>u \<in> set all_units. cliente u = Some c \<and> c \<noteq> []}"
proof -
  have "set (foldl (\<lambda>acc u. if truthy (cliente u) \<and> the (cliente u) \<notin> set acc
                              then acc @ [the (cliente u)] else acc) acc0 all_units) =
          set acc0 \<union> {c. \<exists>u \<in> set all_units. cliente u = Some c \<and> c \<noteq> []}" for acc0
  proof (induction all_units arbitrary: acc0)
    case Nil
    show ?case by simp
  next
    case (Cons u us)
    show ?case
      unfolding foldl_Cons Cons.IH
      by (cases "cliente u") (auto simp: truthy_def)
  qed
  from this[of "[]"] show ?thesis by (simp add: unique_clients_def)
qed

lemma upsert_clients_char:
  "(keys_of c_full_name (clients (snd (upsert_clients all_units st))),
    next_id (snd (upsert_clients all_units st))) =
     foldl ensure (keys_of c_full_name (clients (snd st)), next_id (snd st)) (unique_clients all_units) \<and>
   client_ids (fst (upsert_clients all_units st)) =
     (\<lambda>a. if a \<in> set (unique_clients all_units)
           then key_id (keys_of c_full_name (clients (snd (upsert_clients all_units st)))) a
           else client_ids (fst st) a) \<and>
   dom (client_ids (fst (upsert_clients all_units st))) =
     dom (client_ids (fst st)) \<union> set (unique_clients all_units) \<and>
   project_id (fst (upsert_clients all_units st)) = project_id (fst st) \<and>
   unit_ids (fst (upsert_clients all_units st)) = unit_ids (fst st) \<and>
   sale_ids (fst (upsert_clients all_units st)) = sale_ids (fst st) \<and>
   projects (snd (upsert_clients all_units st)) = projects (snd st) \<and>
   units (snd (upsert_clients all_units st)) = units (snd st) \<and>
   sales (snd (upsert_clients all_units st)) = sales (snd st) \<and>
   payments (snd (upsert_clients all_units st)) = payments (snd st)"
proof -
  let ?names = "unique_clients all_units"
  let ?rows = "map (\<lambda>name. \<lparr> c_full_name = name \<rparr>) ?names"
  let ?a = "upsert_many clients_conflict ?rows (clients (snd st), next_id (snd st))"
  let ?final = "keys_of c_full_name (fst (fst ?a))"
  have e: "upsert_clients all_units st = upsert_clients_batch st ?rows"
    by (rule upsert_clients_eq)
  have c: "\<forall>r \<in> set ?rows. \<forall>old. clients_conflict r old \<longleftrightarrow> c_full_name old = c_full_name r"
    by (auto simp: clients_conflict_def)
  have kr: "map c_full_name ?rows = ?names" by (simp add: comp_def)
  from upsert_many_keys[OF c, of "(clients (snd st), next_id (snd st))"]
  have k: "(?final, snd (fst ?a)) =
             foldl ensure (keys_of c_full_name (clients (snd st)), next_id (snd st)) ?names"
    and ids: "\<forall>x \<in> set (snd ?a). key_id ?final (c_full_name (snd x)) = Some (fst x)"
    unfolding kr by simp_all
  have rs: "map snd (snd ?a) = ?rows" by (rule upsert_many_returns)
  have "\<forall>x \<in> set (snd ?a). fst x = the (key_id ?final (c_full_name (snd x)))"
    using ids by simp
  from foldl_dict[of "snd ?a" fst "\<lambda>a. the (key_id ?final a)" "\<lambda>x. c_full_name (snd x)", OF this]
  have d: "foldl (\<lambda>m row. m(c_full_name (snd row) \<mapsto> fst row)) (client_ids (fst st)) (snd ?a) =
             (\<lambda>a. if a \<in> (\<lambda>x. c_full_name (snd x)) ` set (snd ?a)
                   then Some (the (key_id ?final a)) else client_ids (fst st) a)" .
  have im: "(\<lambda>x. c_full_name (snd x)) ` set (snd ?a) = set ?names"
  proof -
    have "(\<lambda>x. c_full_name (snd x)) ` set (snd ?a) = c_full_name ` set (map snd (snd ?a))"
      by (simp add: image_image)
    also have "\<dots> = c_full_name ` set ?rows" unfolding rs ..
    also have "\<dots> = set ?names" by (simp add: image_image)
    finally show ?thesis .
  qed
  have pres: "\<And>a. a \<in> set ?names \<Longrightarrow> key_id ?final a \<noteq> None"
  proof -
    fix a assume "a \<in> set ?names"
    then have "a \<in> snd ` set ?final"
      using foldl_ensure_keys[of "(keys_of c_full_name (clients (snd st)), next_id (snd st))" ?names]
      unfolding k[symmetric] by simp
    then show "key_id ?final a \<noteq> None" by (simp add: key_id_None_iff)
  qed
  have u: "client_ids (fst (upsert_clients all_units st)) =
     (\<lambda>a. if a \<in> set ?names then key_id ?final a else client_ids (fst st) a)"
    unfolding e using pres by (auto simp: upsert_clients_batch_def Let_def d im fun_eq_iff)
  have t: "clients (snd (upsert_clients all_units st)) = fst (fst ?a)"
          "next_id (snd (upsert_clients all_units st)) = snd (fst ?a)"
    unfolding e by (simp_all add: upsert_clients_batch_def Let_def)
  have dm: "dom (client_ids (fst (upsert_clients all_units st))) =
              dom (client_ids (fst st)) \<union> set ?names"
    unfolding u using pres by (auto simp: dom_def split: if_splits)
  have f: "project_id (fst (upsert_clients all_units st)) = project_id (fst st) \<and>
   unit_ids (fst (upsert_clients all_units st)) = unit_ids (fst st) \<and>
   sale_ids (fst (upsert_clients all_units st)) = sale_ids (fst st) \<and>
   projects (snd (upsert_clients all_units st)) = projects (snd st) \<and>
   units (snd (upsert_clients all_units st)) = units (snd st) \<and>
   sales (snd (upsert_clients all_units st)) = sales (snd st) \<and>
   payments (snd (upsert_clients all_units st)) = payments (snd st)"
    unfolding e by (simp add: upsert_clients_batch_def Let_def)
  from k u dm f show ?thesis unfolding t by blast
qed

lemma upsert_sales_reps_frame:
  "fst (upsert_sales_reps all_units st) = fst st \<and>
   projects (snd (upsert_sales_reps all_units st)) = projects (snd st) \<and>
   units (snd (upsert_sales_reps all_units st)) = units (snd st) \<and>
   clients (snd (upsert_sales_reps all_units st)) = clients (snd st) \<and>
   sales (snd (upsert_sales_reps all_units st)) = sales (snd st) \<and>
   payments (snd (upsert_sales_reps all_units st)) = payments (snd st)"
  by (simp add: upsert_sales_reps_eq)

text \<open>The state in which the sales phase starts, for a run on the store \<open>d\<close>.\<close>

lemma before_sales:
  fixes proj main_units all_units d
  defines "s3 \<equiv> upsert_clients all_units (upsert_units proj main_units (upsert_project proj (new_loader, d)))"
  defines "s4 \<equiv> (if proj = Boulevard then upsert_sales_reps all_units s3 else s3)"
  shows "fst s4 = fst s3 \<and>
         projects (snd s4) = projects (snd s3) \<and> units (snd s4) = units (snd s3) \<and>
         clients (snd s4) = clients (snd s3) \<and> sales (snd s4) = sales (snd s3) \<and>
         payments (snd s4) = payments (snd s3) \<and>
         sales (snd s3) = sales d \<and> payments (snd s3) = payments d \<and>
         sale_ids (fst s3) = Map.empty \<and>
         dom (unit_ids (fst s3)) = apto ` set main_units \<and>
         dom (client_ids (fst s3)) = set (unique_clients all_units)"
proof -
  let ?s1 = "upsert_project proj (new_loader, d)"
  let ?s2 = "upsert_units proj main_units ?s1"
  note p1 = upsert_project_char[of proj "(new_loader, d)"]
  note p2 = upsert_units_char[of proj main_units ?s1]
  note p3 = upsert_clients_char[of all_units ?s2]
  have a: "fst s4 = fst s3 \<and>
         projects (snd s4) = projects (snd s3) \<and> units (snd s4) = units (snd s3) \<and>
         clients (snd s4) = clients (snd s3) \<and> sales (snd s4) = sales (snd s3) \<and>
         payments (snd s4) = payments (snd s3)"
    unfolding s4_def using upsert_sales_reps_frame[of all_units s3] by simp
  from p1 have q1: "unit_ids (fst ?s1) = unit_ids (fst (new_loader, d))"
      "client_ids (fst ?s1) = client_ids (fst (new_loader, d))"
      "sale_ids (fst ?s1) = sale_ids (fst (new_loader, d))"
      "sales (snd ?s1) = sales (snd (new_loader, d))"
      "payments (snd ?s1) = payments (snd (new_loader, d))" by blast+
  from p2 have q2: "dom (unit_ids (fst ?s2)) = dom (unit_ids (fst ?s1)) \<union> apto ` set main_units"
      "client_ids (fst ?s2) = client_ids (fst ?s1)"
      "sale_ids (fst ?s2) = sale_ids (fst ?s1)"
      "sales (snd ?s2) = sales (snd ?s1)"
      "payments (snd ?s2) = payments (snd ?s1)" by blast+
  from p3 have q3: "dom (client_ids (fst s3)) = dom (client_ids (fst ?s2)) \<union> set (unique_clients all_units)"
      "unit_ids (fst s3) = unit_ids (fst ?s2)"
      "sale_ids (fst s3) = sale_ids (fst ?s2)"
      "sales (snd s3) = sales (snd ?s2)"
      "payments (snd s3) = payments (snd ?s2)" unfolding s3_def by blast+
  have b: "sales (snd s3) = sales d" "payments (snd s3) = payments d"
    unfolding q3 q2 q1 by simp_all
  have c: "sale_ids (fst s3) = Map.empty"
    unfolding q3 q2 q1 by (simp add: new_loader_def)
  have d1: "dom (unit_ids (fst s3)) = apto ` set main_units"
    unfolding q3 q2 q1 by (simp add: new_loader_def)
  have d2: "dom (client_ids (fst s3)) = set (unique_clients all_units)"
    unfolding q3 q2 q1 by (simp add: new_loader_def)
  from a b c d1 d2 show ?thesis by blast
qed

section \<open>Payments across runs\<close>

lemma length_payment_rows: "length (payment_rows proj sid u) = length (actual_payments u)"
  by (simp add: payment_rows_def)

lemma all_payment_rows_length:
  assumes "\<And>i. i < length all_units \<Longrightarrow> sale_ids L i \<noteq> None \<longleftrightarrow> R (all_units ! i)"
  shows "length (all_payment_rows proj L all_units) =
           sum_list (map (\<lambda>u. length (actual_payments u)) (filter R all_units))"
proof -
  have "map (\<lambda>x. length (case x of (i, u) \<Rightarrow>
                             case sale_ids L i of None \<Rightarrow> [] | Some sid \<Rightarrow> payment_rows proj sid u))
            (enumerate 0 all_units) =
        map (\<lambda>u. if R u then length (actual_payments u) else 0) all_units"
  proof (rule nth_equalityI)
    show "length (map (\<lambda>x. length (case x of (i, u) \<Rightarrow>
                             case sale_ids L i of None \<Rightarrow> [] | Some sid \<Rightarrow> payment_rows proj sid u))
            (enumerate 0 all_units)) =
          length (map (\<lambda>u. if R u then length (actual_payments u) else 0) all_units)"
      by simp
  next
    fix i assume "i < length (map (\<lambda>x. length (case x of (i, u) \<Rightarrow>
                             case sale_ids L i of None \<Rightarrow> [] | Some sid \<Rightarrow> payment_rows proj sid u))
            (enumerate 0 all_units))"
    then have i: "i < length all_units" by simp
    with assms[OF i] show "map (\<lambda>x. length (case x of (i, u) \<Rightarrow>
                             case sale_ids L i of None \<Rightarrow> [] | Some sid \<Rightarrow> payment_rows proj sid u))
            (enumerate 0 all_units) ! i =
          map (\<lambda>u. if R u then length (actual_payments u) else 0) all_units ! i"
      by (auto simp: nth_enumerate_eq length_payment_rows split: option.splits)
  qed
  then show ?thesis
    by (simp add: all_payment_rows_eq length_concat comp_def sum_list_map_filter')
qed

lemma run_payments:
  "\<exists>new. payments (run proj main_units desist_units third_units expected d) = payments d @ new \<and>
          length new = payments_per_run proj main_units (main_units @ desist_units @ third_units)"
proof -
  let ?all = "main_units @ desist_units @ third_units"
  let ?s3 = "upsert_clients ?all (upsert_units proj main_units (upsert_project proj (new_loader, d)))"
  let ?s4 = "if proj = Boulevard then upsert_sales_reps ?all ?s3 else ?s3"
  let ?s5 = "insert_sales proj ?all ?s4"
  let ?s6 = "insert_payments proj ?all ?s5"
  let ?rows = "all_payment_rows proj (fst ?s5) ?all"
  have r: "run proj main_units desist_units third_units expected d =
             snd (upsert_expected_payments expected ?s6)"
    by (simp add: run_def load_def Let_def)
  note b = before_sales[of proj ?all main_units d]
  from b have L: "fst ?s4 = fst ?s3" and p4: "payments (snd ?s4) = payments d"
    and si: "sale_ids (fst ?s3) = Map.empty"
    and du: "dom (unit_ids (fst ?s3)) = apto ` set main_units"
    and dc: "dom (client_ids (fst ?s3)) = set (unique_clients ?all)"
    by (simp_all only:)
  note s = insert_sales_char[of proj ?all ?s4]
  from s have p5: "payments (snd ?s5) = payments (snd ?s4)"
    and d5: "dom (sale_ids (fst ?s5)) = dom (sale_ids (fst ?s4)) \<union> fst ` set (built_sales proj (fst ?s4) ?all)"
    by blast+
  have d5': "dom (sale_ids (fst ?s5)) =
               {i. i < length ?all \<and> is_sellable proj (?all ! i) \<and>
                   build_sale_row proj (fst ?s3) (?all ! i) \<noteq> None}"
    unfolding d5 L si built_sales_indices by simp
  have res: "\<And>i. i < length ?all \<Longrightarrow>
               sale_ids (fst ?s5) i \<noteq> None \<longleftrightarrow> sale_resolves proj main_units (?all ! i)"
  proof -
    fix i assume i: "i < length ?all"
    let ?u = "?all ! i"
    have mem: "?u \<in> set ?all" using i by (rule nth_mem)
    have u1: "unit_ids (fst ?s3) (apto ?u) \<noteq> None \<longleftrightarrow> apto ?u \<in> apto ` set main_units"
      using du by (auto simp: dom_def)
    have u2: "truthy (cliente ?u) \<Longrightarrow> client_ids (fst ?s3) (the (cliente ?u)) \<noteq> None"
    proof -
      assume "truthy (cliente ?u)"
      then obtain c where "cliente ?u = Some c" "c \<noteq> []"
        by (cases "cliente ?u") (auto simp: truthy_def)
      with mem have "the (cliente ?u) \<in> set (unique_clients ?all)"
        unfolding unique_clients_set by force
      with dc show ?thesis by (auto simp: dom_def)
    qed
    have "sale_ids (fst ?s5) i \<noteq> None \<longleftrightarrow> i \<in> dom (sale_ids (fst ?s5))" by (auto simp: dom_def)
    also have "\<dots> \<longleftrightarrow> is_sellable proj ?u \<and> build_sale_row proj (fst ?s3) ?u \<noteq> None"
      unfolding d5' using i by simp
    also have "\<dots> \<longleftrightarrow> sale_resolves proj main_units ?u"
      unfolding build_sale_row_None_iff sale_resolves_def using u1 u2 by blast
    finally show "sale_ids (fst ?s5) i \<noteq> None \<longleftrightarrow> sale_resolves proj main_units ?u" .
  qed
  have len: "length ?rows = payments_per_run proj main_units ?all"
    unfolding payments_per_run_def by (rule all_payment_rows_length[OF res])
  have "payments (snd ?s6) =
          payments (snd ?s5) @ zip [next_id (snd ?s5) ..< next_id (snd ?s5) + length ?rows] ?rows"
    by (simp add: insert_payments_eq)
  moreover have "payments (snd (upsert_expected_payments expected ?s6)) = payments (snd ?s6)"
    using upsert_expected_payments_frame[of expected ?s6] by blast
  ultimately have "payments (run proj main_units desist_units third_units expected d) =
          payments d @ zip [next_id (snd ?s5) ..< next_id (snd ?s5) + length ?rows] ?rows"
    unfolding r p5 p4 by simp
  moreover have "length (zip [next_id (snd ?s5) ..< next_id (snd ?s5) + length ?rows] ?rows) =
                   payments_per_run proj main_units ?all"
    using len by simp
  ultimately show ?thesis by blast
qed

text \<open>
  Claim C9 (payments are not idempotent). Starting from any store \<open>d\<close>, one execute run
  keeps the payment rows of \<open>d\<close> and appends as many rows as the records whose sale
  resolves have observed payments; so two runs append that number twice, and two runs on
  the empty store leave twice the payment rows of one run.
\<close>

theorem C9_payments_double:
  "(\<exists>new. payments (run proj main_units desist_units third_units expected d) = payments d @ new \<and>
          length new = payments_per_run proj main_units (main_units @ desist_units @ third_units)) \<and>
   length (payments (run proj main_units desist_units third_units expected
                      (run proj main_units desist_units third_units expected d))) =
     length (payments d) + 2 * payments_per_run proj main_units (main_units @ desist_units @ third_units) \<and>
   length (payments (run proj main_units desist_units third_units expected
                      (run proj main_units desist_units third_units expected empty_db))) =
     2 * length (payments (run proj main_units desist_units third_units expected empty_db))"
proof -
  let ?k = "payments_per_run proj main_units (main_units @ desist_units @ third_units)"
  have one: "\<And>d. length (payments (run proj main_units desist_units third_units expected d)) =
                 length (payments d) + ?k"
    using run_payments[of proj main_units desist_units third_units expected] by (metis length_append)
  have two: "\<And>d. length (payments (run proj main_units desist_units third_units expected
                      (run proj main_units desist_units third_units expected d))) =
        length (payments d) + 2 * ?k"
    by (simp add: one)
  have "length (payments empty_db) = 0" by (simp add: empty_db_def)
  with one[of empty_db] two[of empty_db]
  have three: "length (payments (run proj main_units desist_units third_units expected
                      (run proj main_units desist_units third_units expected empty_db))) =
     2 * length (payments (run proj main_units desist_units third_units expected empty_db))"
    by simp
  from run_payments[of proj main_units desist_units third_units expected d] two[of d] three
  show ?thesis by blast
qed

text \<open>The theorem at the resold unit of Santa Elisa: four payment rows after one run on
  the empty store, eight after two.\<close>

theorem C9_payments_double_witness:
  "length (payments (run SantaElisa resold_main resold_desist resold_devol [] empty_db)) = 4 \<and>
   length (payments (run SantaElisa resold_main resold_desist resold_devol []
                      (run SantaElisa resold_main resold_desist resold_devol [] empty_db))) = 8"
proof -
  have one: "length (payments (run SantaElisa resold_main resold_desist resold_devol [] empty_db)) = 4"
    by code_simp
  from C9_payments_double [of SantaElisa resold_main resold_desist resold_devol "[]" empty_db]
  have "length (payments (run SantaElisa resold_main resold_desist resold_devol []
                      (run SantaElisa resold_main resold_desist resold_devol [] empty_db))) =
     2 * length (payments (run SantaElisa resold_main resold_desist resold_devol [] empty_db))"
    by blast
  with one show ?thesis by simp
qed

section \<open>Idempotence of the load\<close>

lemma run_char:
  fixes proj main_units desist_units third_units expected d
  defines "all_units \<equiv> main_units @ desist_units @ third_units"
  defines "L \<equiv> loader_before_sales proj main_units all_units d"
  defines "d' \<equiv> run proj main_units desist_units third_units expected d"
  shows "(\<exists>n. keys_of p_name (projects d') =
               fst (ensure (keys_of p_name (projects d), n) (PROJECT_NAME proj))) \<and>
         project_id L = key_id (keys_of p_name (projects d')) (PROJECT_NAME proj) \<and>
         (\<exists>n. keys_of unit_row_key (units d') =
               fst (foldl ensure (keys_of unit_row_key (units d), n)
                          (map (\<lambda>u. (project_id L, apto u)) main_units))) \<and>
         unit_ids L = (\<lambda>a. if a \<in> apto ` set main_units
                            then key_id (keys_of unit_row_key (units d')) (project_id L, a)
                            else None) \<and>
         (\<exists>n. keys_of c_full_name (clients d') =
               fst (foldl ensure (keys_of c_full_name (clients d), n) (unique_clients all_units))) \<and>
         client_ids L = (\<lambda>a. if a \<in> set (unique_clients all_units)
                              then key_id (keys_of c_full_name (clients d')) a
                              else None) \<and>
         (\<exists>n. keys_of sale_key (sales d') =
               fst (foldl ensure (keys_of sale_key (sales d), n) (sale_keys_written proj L all_units)))"
proof -
  let ?s0 = "(new_loader, d)"
  let ?s1 = "upsert_project proj ?s0"
  let ?s2 = "upsert_units proj main_units ?s1"
  let ?s3 = "upsert_clients all_units ?s2"
  let ?s4 = "if proj = Boulevard then upsert_sales_reps all_units ?s3 else ?s3"
  let ?s5 = "insert_sales proj all_units ?s4"
  let ?s6 = "insert_payments proj all_units ?s5"
  let ?s7 = "upsert_expected_payments expected ?s6"
  have r: "d' = snd ?s7"
    by (simp add: d'_def run_def load_def Let_def all_units_def)
  have Ldef: "L = fst ?s3" by (simp add: L_def loader_before_sales_def)
  note p1 = upsert_project_char[of proj ?s0]
  note p2 = upsert_units_char[of proj main_units ?s1]
  note p3 = upsert_clients_char[of all_units ?s2]
  note p4 = upsert_sales_reps_frame[of all_units ?s3]
  note p5 = insert_sales_char[of proj all_units ?s4]
  note p7 = upsert_expected_payments_frame[of expected ?s6]
  have f4: "fst ?s4 = fst ?s3" "projects (snd ?s4) = projects (snd ?s3)"
      "units (snd ?s4) = units (snd ?s3)" "clients (snd ?s4) = clients (snd ?s3)"
      "sales (snd ?s4) = sales (snd ?s3)"
    using before_sales[of proj all_units main_units d] by blast+
  have f6: "projects (snd ?s6) = projects (snd ?s5)" "units (snd ?s6) = units (snd ?s5)"
      "clients (snd ?s6) = clients (snd ?s5)" "sales (snd ?s6) = sales (snd ?s5)"
    by (simp_all add: insert_payments_eq)
  from p7 have f7: "projects (snd ?s7) = projects (snd ?s6)" "units (snd ?s7) = units (snd ?s6)"
      "clients (snd ?s7) = clients (snd ?s6)" "sales (snd ?s7) = sales (snd ?s6)"
    by blast+
  from p5 have f5: "projects (snd ?s5) = projects (snd ?s4)" "units (snd ?s5) = units (snd ?s4)"
      "clients (snd ?s5) = clients (snd ?s4)" by blast+
  from p3 have f3: "projects (snd ?s3) = projects (snd ?s2)" "units (snd ?s3) = units (snd ?s2)"
      "sales (snd ?s3) = sales (snd ?s2)" "project_id (fst ?s3) = project_id (fst ?s2)"
      "unit_ids (fst ?s3) = unit_ids (fst ?s2)" by blast+
  from p2 have f2: "projects (snd ?s2) = projects (snd ?s1)" "clients (snd ?s2) = clients (snd ?s1)"
      "sales (snd ?s2) = sales (snd ?s1)" "project_id (fst ?s2) = project_id (fst ?s1)"
      "client_ids (fst ?s2) = client_ids (fst ?s1)" by blast+
  from p1 have f1: "units (snd ?s1) = units d" "clients (snd ?s1) = clients d"
      "sales (snd ?s1) = sales d" "unit_ids (fst ?s1) = Map.empty" "client_ids (fst ?s1) = Map.empty"
    by (simp_all add: new_loader_def)
  have tp: "projects d' = projects (snd ?s1)" unfolding r f7 f6 f5 f4 f3 f2 ..
  have tu: "units d' = units (snd ?s2)" unfolding r f7 f6 f5 f4 f3 ..
  have tc: "clients d' = clients (snd ?s3)" unfolding r f7 f6 f5 f4 ..
  have ts: "sales d' = sales (snd ?s5)" unfolding r f7 f6 ..
  have pid: "project_id L = project_id (fst ?s1)" unfolding Ldef f3 f2 ..
  from p1 have 1: "\<exists>n. keys_of p_name (projects d') =
               fst (ensure (keys_of p_name (projects d), n) (PROJECT_NAME proj))"
    unfolding tp by (metis fst_conv snd_conv)
  from p1 have 2: "project_id L = key_id (keys_of p_name (projects d')) (PROJECT_NAME proj)"
    unfolding tp pid by blast
  from p2 have "(keys_of unit_row_key (units (snd ?s2)), next_id (snd ?s2)) =
     foldl ensure (keys_of unit_row_key (units (snd ?s1)), next_id (snd ?s1))
           (map (\<lambda>u. (project_id (fst ?s1), apto u)) main_units)" by blast
  then have 3: "\<exists>n. keys_of unit_row_key (units d') =
               fst (foldl ensure (keys_of unit_row_key (units d), n)
                          (map (\<lambda>u. (project_id L, apto u)) main_units))"
    unfolding tu pid f1 by (metis fst_conv)
  from p2 have "unit_ids (fst ?s2) =
     (\<lambda>a. if a \<in> apto ` set main_units
           then key_id (keys_of unit_row_key (units (snd ?s2))) (project_id (fst ?s1), a)
           else unit_ids (fst ?s1) a)" by blast
  then have 4: "unit_ids L = (\<lambda>a. if a \<in> apto ` set main_units
                            then key_id (keys_of unit_row_key (units d')) (project_id L, a)
                            else None)"
    unfolding Ldef f3(5) tu f3(4) f2(4) f1 by simp
  from p3 have "(keys_of c_full_name (clients (snd ?s3)), next_id (snd ?s3)) =
     foldl ensure (keys_of c_full_name (clients (snd ?s2)), next_id (snd ?s2)) (unique_clients all_units)"
    by blast
  then have 5: "\<exists>n. keys_of c_full_name (clients d') =
               fst (foldl ensure (keys_of c_full_name (clients d), n) (unique_clients all_units))"
    unfolding tc f2 f1 by (metis fst_conv)
  from p3 have "client_ids (fst ?s3) =
     (\<lambda>a. if a \<in> set (unique_clients all_units)
           then key_id (keys_of c_full_name (clients (snd ?s3))) a
           else client_ids (fst ?s2) a)" by blast
  then have 6: "client_ids L = (\<lambda>a. if a \<in> set (unique_clients all_units)
                              then key_id (keys_of c_full_name (clients d')) a
                              else None)"
    unfolding Ldef tc f2 f1 by simp
  from p5 have "(keys_of sale_key (sales (snd ?s5)), next_id (snd ?s5)) =
     foldl ensure (keys_of sale_key (sales (snd ?s4)), next_id (snd ?s4))
       (sale_keys_written proj (fst ?s4) all_units)"
    unfolding sale_keys_written_def by blast
  then have 7: "\<exists>n. keys_of sale_key (sales d') =
               fst (foldl ensure (keys_of sale_key (sales d), n) (sale_keys_written proj L all_units))"
    unfolding ts f4 f3 f2 f1 Ldef by (metis fst_conv)
  from 1 2 3 4 5 6 7 show ?thesis by blast
qed

lemma ensure_present: "k \<in> snd ` set sh \<Longrightarrow> fst (ensure (sh, n) k) = sh"
  by (simp add: ensure_def)

lemma foldl_ensure_again:
  assumes "sh' = fst (foldl ensure (sh, n) ks)"
  shows "fst (foldl ensure (sh', n') ks) = sh'"
proof -
  have "set ks \<subseteq> snd ` set sh'"
    unfolding assms foldl_ensure_keys by simp
  then have "foldl ensure (sh', n') ks = (sh', n')"
    by (intro foldl_ensure_covered) simp
  then show ?thesis by simp
qed

lemma count_sales_keys:
  "count_sales st d = length (filter (\<lambda>x. fst (snd (snd x)) = st) (keys_of sale_key (sales d)))"
  by (simp add: count_sales_def keys_of_def filter_map comp_def sale_key_def)

lemma length_keys_of: "length (keys_of key t) = length t"
  by (simp add: keys_of_def)

text \<open>
  Claim C1 (idempotence of the load). Start from any store \<open>d\<close>, in particular the empty
  one, run the load of a parsed dataset, and run it again on the store the first run left:
  the second run leaves the same number of units, of clients, of active sales and of
  cancelled sales as the first (indeed the same identifiers with the same conflict keys
  in these tables).
\<close>

theorem C1_load_idempotent:
  "length (units (run proj main_units desist_units third_units expected
                   (run proj main_units desist_units third_units expected d))) =
     length (units (run proj main_units desist_units third_units expected d)) \<and>
   length (clients (run proj main_units desist_units third_units expected
                     (run proj main_units desist_units third_units expected d))) =
     length (clients (run proj main_units desist_units third_units expected d)) \<and>
   count_sales ''active'' (run proj main_units desist_units third_units expected
                            (run proj main_units desist_units third_units expected d)) =
     count_sales ''active'' (run proj main_units desist_units third_units expected d) \<and>
   count_sales ''cancelled'' (run proj main_units desist_units third_units expected
                               (run proj main_units desist_units third_units expected d)) =
     count_sales ''cancelled'' (run proj main_units desist_units third_units expected d)"
proof -
  let ?all = "main_units @ desist_units @ third_units"
  let ?d1 = "run proj main_units desist_units third_units expected d"
  let ?d2 = "run proj main_units desist_units third_units expected ?d1"
  let ?L1 = "loader_before_sales proj main_units ?all d"
  let ?L2 = "loader_before_sales proj main_units ?all ?d1"
  note A = run_char[of proj main_units desist_units third_units expected d]
  note B = run_char[of proj main_units desist_units third_units expected ?d1]
  from A obtain n1 where a1: "keys_of p_name (projects ?d1) =
      fst (ensure (keys_of p_name (projects d), n1) (PROJECT_NAME proj))" by blast
  from B obtain n2 where b1: "keys_of p_name (projects ?d2) =
      fst (ensure (keys_of p_name (projects ?d1), n2) (PROJECT_NAME proj))" by blast
  have "PROJECT_NAME proj \<in> snd ` set (keys_of p_name (projects ?d1))"
    unfolding a1 ensure_keys by simp
  then have kp: "keys_of p_name (projects ?d2) = keys_of p_name (projects ?d1)"
    unfolding b1 by (rule ensure_present)
  from A have "project_id ?L1 = key_id (keys_of p_name (projects ?d1)) (PROJECT_NAME proj)" by blast
  moreover from B have "project_id ?L2 = key_id (keys_of p_name (projects ?d2)) (PROJECT_NAME proj)"
    by blast
  ultimately have pid: "project_id ?L2 = project_id ?L1" unfolding kp by simp
  from A obtain n3 where a3: "keys_of unit_row_key (units ?d1) =
      fst (foldl ensure (keys_of unit_row_key (units d), n3)
                 (map (\<lambda>u. (project_id ?L1, apto u)) main_units))" by blast
  from B obtain n4 where b3: "keys_of unit_row_key (units ?d2) =
      fst (foldl ensure (keys_of unit_row_key (units ?d1), n4)
                 (map (\<lambda>u. (project_id ?L1, apto u)) main_units))"
    unfolding pid by blast
  have ku: "keys_of unit_row_key (units ?d2) = keys_of unit_row_key (units ?d1)"
    unfolding b3 by (rule foldl_ensure_again[OF a3])
  from A have "unit_ids ?L1 = (\<lambda>a. if a \<in> apto ` set main_units
                            then key_id (keys_of unit_row_key (units ?d1)) (project_id ?L1, a)
                            else None)" by blast
  moreover from B have "unit_ids ?L2 = (\<lambda>a. if a \<in> apto ` set main_units
                            then key_id (keys_of unit_row_key (units ?d2)) (project_id ?L1, a)
                            else None)" unfolding pid by blast
  ultimately have uid: "unit_ids ?L2 = unit_ids ?L1" unfolding ku by simp
  from A obtain n5 where a5: "keys_of c_full_name (clients ?d1) =
      fst (foldl ensure (keys_of c_full_name (clients d), n5) (unique_clients ?all))" by blast
  from B obtain n6 where b5: "keys_of c_full_name (clients ?d2) =
      fst (foldl ensure (keys_of c_full_name (clients ?d1), n6) (unique_clients ?all))" by blast
  have kc: "keys_of c_full_name (clients ?d2) = keys_of c_full_name (clients ?d1)"
    unfolding b5 by (rule foldl_ensure_again[OF a5])
  from A have "client_ids ?L1 = (\<lambda>a. if a \<in> set (unique_clients ?all)
                              then key_id (keys_of c_full_name (clients ?d1)) a
                              else None)" by blast
  moreover from B have "client_ids ?L2 = (\<lambda>a. if a \<in> set (unique_clients ?all)
                              then key_id (keys_of c_full_name (clients ?d2)) a
                              else None)" by blast
  ultimately have cid: "client_ids ?L2 = client_ids ?L1" unfolding kc by simp
  have sk: "sale_keys_written proj ?L2 ?all = sale_keys_written proj ?L1 ?all"
    unfolding sale_keys_written_def built_sales_cong[OF pid uid cid] ..
  from A obtain n7 where a7: "keys_of sale_key (sales ?d1) =
      fst (foldl ensure (keys_of sale_key (sales d), n7) (sale_keys_written proj ?L1 ?all))" by blast
  from B obtain n8 where b7: "keys_of sale_key (sales ?d2) =
      fst (foldl ensure (keys_of sale_key (sales ?d1), n8) (sale_keys_written proj ?L1 ?all))"
    unfolding sk by blast
  have ks: "keys_of sale_key (sales ?d2) = keys_of sale_key (sales ?d1)"
    unfolding b7 by (rule foldl_ensure_again[OF a7])
  have 1: "length (units ?d2) = length (units ?d1)"
    using ku length_keys_of[of unit_row_key "units ?d2"] length_keys_of[of unit_row_key "units ?d1"]
    by simp
  have 2: "length (clients ?d2) = length (clients ?d1)"
    using kc length_keys_of[of c_full_name "clients ?d2"] length_keys_of[of c_full_name "clients ?d1"]
    by simp
  have 3: "count_sales ''active'' ?d2 = count_sales ''active'' ?d1"
    unfolding count_sales_keys ks ..
  have 4: "count_sales ''cancelled'' ?d2 = count_sales ''cancelled'' ?d1"
    unfolding count_sales_keys ks ..
  from 1 2 3 4 show ?thesis by blast
qed

text \<open>The theorem at the resold unit of Santa Elisa, from the empty store: after the
  second run there are still one unit, two clients, one active sale and one cancelled
  sale (the cancellation and the refund of the same client share one cancelled sale).\<close>

theorem C1_load_idempotent_witness:
  "length (units (run SantaElisa resold_main resold_desist resold_devol []
                   (run SantaElisa resold_main resold_desist resold_devol [] empty_db))) = 1 \<and>
   length (clients (run SantaElisa resold_main resold_desist resold_devol []
                     (run SantaElisa resold_main resold_desist resold_devol [] empty_db))) = 2 \<and>
   count_sales ''active'' (run SantaElisa resold_main resold_desist resold_devol []
                            (run SantaElisa resold_main resold_desist resold_devol [] empty_db)) = 1 \<and>
   count_sales ''cancelled'' (run SantaElisa resold_main resold_desist resold_devol []
                               (run SantaElisa resold_main resold_desist resold_devol [] empty_db)) = 1"
proof -
  have one: "length (units (run SantaElisa resold_main resold_desist resold_devol [] empty_db)) = 1"
    "length (clients (run SantaElisa resold_main resold_desist resold_devol [] empty_db)) = 2"
    "count_sales ''active'' (run SantaElisa resold_main resold_desist resold_devol [] empty_db) = 1"
    "count_sales ''cancelled'' (run SantaElisa resold_main resold_desist resold_devol [] empty_db) = 1"
    by code_simp+
  from C1_load_idempotent [of SantaElisa resold_main resold_desist resold_devol "[]" empty_db] one
  show ?thesis by simp
qed

end
